theory Spec2Isabelle
  imports Main "HOL-Library.Word"
begin

unbundle bit_operations_syntax

section \<open>JavaScript strings\<close>

text \<open>
  A JavaScript string is a sequence of UTF-16 code units; \<open>length\<close>, \<open>split("")\<close> and the
  regular expressions of the source (none carries the \<open>u\<close> flag) all work on code units.
\<close>

type_synonym jschar = "16 word"
type_synonym jsstring = "jschar list"

text \<open>String literals of the source, written with Isabelle's (8-bit) characters.\<close>

definition js :: "string \<Rightarrow> jsstring" where
  "js s = map (\<lambda>c. of_nat (of_char c)) s"

text \<open>
  The character class \<open>\s\<close> and the set stripped by \<open>String.prototype.trim\<close> are the same:
  WhiteSpace and LineTerminator of ECMA-262.
\<close>

definition is_space :: "jschar \<Rightarrow> bool" where
  "is_space c \<longleftrightarrow>
     c = 0x09 \<or> c = 0x0A \<or> c = 0x0B \<or> c = 0x0C \<or> c = 0x0D \<or> c = 0x20 \<or> c = 0xA0 \<or>
     c = 0x1680 \<or> (0x2000 \<le> c \<and> c \<le> 0x200A) \<or> c = 0x2028 \<or> c = 0x2029 \<or>
     c = 0x202F \<or> c = 0x205F \<or> c = 0x3000 \<or> c = 0xFEFF"

text \<open>\<open>[a-zA-Z]\<close>, \<open>\d\<close> and \<open>\w\<close> (which is \<open>[A-Za-z0-9_]\<close>).\<close>

definition is_letter :: "jschar \<Rightarrow> bool" where
  "is_letter c \<longleftrightarrow> (0x41 \<le> c \<and> c \<le> 0x5A) \<or> (0x61 \<le> c \<and> c \<le> 0x7A)"

definition is_digit :: "jschar \<Rightarrow> bool" where
  "is_digit c \<longleftrightarrow> 0x30 \<le> c \<and> c \<le> 0x39"

definition is_word :: "jschar \<Rightarrow> bool" where
  "is_word c \<longleftrightarrow> is_letter c \<or> is_digit c \<or> c = 0x5F"

text \<open>\<open>s.trim()\<close>\<close>

definition trim :: "jsstring \<Rightarrow> jsstring" where
  "trim s = rev (dropWhile is_space (rev (dropWhile is_space s)))"

text \<open>
  \<open>s.split(/C+/)\<close> for a character class \<open>C\<close>: the substring before the next maximal run
  of \<open>C\<close>, then the split of what follows the run. The empty string gives \<open>[""]\<close>.
\<close>

function split_runs :: "(jschar \<Rightarrow> bool) \<Rightarrow> jsstring \<Rightarrow> jsstring list" where
  "split_runs P s =
     (let tok = takeWhile (\<lambda>c. \<not> P c) s; rest = dropWhile (\<lambda>c. \<not> P c) s
      in if rest = [] then [tok] else tok # split_runs P (dropWhile P rest))"
  by pat_completeness auto
termination
proof (relation "measure (\<lambda>(P, s). length s)", goal_cases)
  case 1
  show ?case by simp
next
  case (2 P s tok rest)
  then obtain c cs where r: "dropWhile (\<lambda>c. \<not> P c) s = c # cs"
    by (cases "dropWhile (\<lambda>c. \<not> P c) s") auto
  then have "P c"
    using hd_dropWhile [of "\<lambda>c. \<not> P c" s] by auto
  then have "length (dropWhile P (c # cs)) \<le> length cs"
    by (simp add: length_dropWhile_le)
  moreover have "length (c # cs) \<le> length s"
    using r length_dropWhile_le [of "\<lambda>c. \<not> P c" s] by simp
  ultimately show ?case
    using 2 r by simp
qed

text \<open>\<open>s.match(/C/g)\<close> for a character class \<open>C\<close>: every match, or \<open>null\<close> when there is none.\<close>

definition match_g :: "(jschar \<Rightarrow> bool) \<Rightarrow> jsstring \<Rightarrow> jsstring list option" where
  "match_g P s = (case filter P s of [] \<Rightarrow> None | ms \<Rightarrow> Some (map (\<lambda>c. [c]) ms))"

text \<open>\<open>r || []\<close>\<close>

definition or_empty :: "'a list option \<Rightarrow> 'a list" where
  "or_empty r = (case r of None \<Rightarrow> [] | Some xs \<Rightarrow> xs)"

text \<open>\<open>s.replace(/C/g, "")\<close> for a character class \<open>C\<close>.\<close>

definition remove_class :: "(jschar \<Rightarrow> bool) \<Rightarrow> jsstring \<Rightarrow> jsstring" where
  "remove_class P s = filter (\<lambda>c. \<not> P c) s"

text \<open>\<open>s.replace(/C+/g, r)\<close> for a character class \<open>C\<close>: every maximal run becomes \<open>r\<close>.\<close>

function replace_runs :: "(jschar \<Rightarrow> bool) \<Rightarrow> jsstring \<Rightarrow> jsstring \<Rightarrow> jsstring" where
  "replace_runs P r [] = []"
| "replace_runs P r (c # cs) =
     (if P c then r @ replace_runs P r (dropWhile P cs) else c # replace_runs P r cs)"
  by pat_completeness auto
termination
  by (relation "measure (\<lambda>(P, r, s). length s)")
     (auto simp: length_dropWhile_le less_Suc_eq_le)

text \<open>Case mapping of the ASCII letters.\<close>

definition ascii_lower :: "jschar \<Rightarrow> jschar" where
  "ascii_lower c = (if 0x41 \<le> c \<and> c \<le> 0x5A then c + 0x20 else c)"

definition ascii_upper :: "jschar \<Rightarrow> jschar" where
  "ascii_upper c = (if 0x61 \<le> c \<and> c \<le> 0x7A then c - 0x20 else c)"

section \<open>Numbers\<close>

text \<open>
  A JavaScript number is an IEEE 754 double. A finite double is \<open>m * 2 ^ e\<close> for integers
  \<open>m\<close> and \<open>e\<close> with \<open>\<bar>m\<bar> < 2 ^ 53\<close> and \<open>- 1074 \<le> e\<close>; \<open>Fin m e\<close> denotes that value
  (several pairs denote one number; the sign of zero is not modelled). Arithmetic computes
  the exact result and rounds it to the nearest double, ties to the even mantissa.
\<close>

datatype jsnumber = Fin int int | PosInf | NegInf | NaN

fun bit_length :: "nat \<Rightarrow> nat" where
  "bit_length n = (if n = 0 then 0 else Suc (bit_length (n div 2)))"

text \<open>\<open>n / 2 ^ s\<close> rounded to the nearest natural number, ties to the even one.\<close>

definition round_shift :: "nat \<Rightarrow> nat \<Rightarrow> nat" where
  "round_shift n s =
     (if s = 0 then n
      else
        let q = n div 2 ^ s; r = n mod 2 ^ s; h = 2 ^ (s - 1)
        in if h < r \<or> (r = h \<and> odd q) then q + 1 else q)"

text \<open>A value of magnitude \<open>2 ^ 1024\<close> or more is an infinity; zero is finite.\<close>

definition finite_or_infinite :: "int \<Rightarrow> int \<Rightarrow> jsnumber" where
  "finite_or_infinite m e =
     (if m \<noteq> 0 \<and> 1024 < int (bit_length (nat \<bar>m\<bar>)) + e
      then (if m < 0 then NegInf else PosInf)
      else Fin m e)"

text \<open>
  The double nearest to the exact value \<open>m * 2 ^ e\<close>: the mantissa keeps 53 bits, fewer
  where the exponent would fall below \<open>- 1074\<close>. \<open>rounded\<close> is the mantissa and the
  exponent of the rounded value, before the check for overflow.
\<close>

definition rounded :: "int \<Rightarrow> int \<Rightarrow> int \<times> int" where
  "rounded m e =
     (let s = max (int (bit_length (nat \<bar>m\<bar>)) - 53) (- 1074 - e)
      in if s \<le> 0 then (m, e)
         else (sgn m * int (round_shift (nat \<bar>m\<bar>) (nat s)), e + s))"

definition fround :: "int \<Rightarrow> int \<Rightarrow> jsnumber" where
  "fround m e = (case rounded m e of (M, E) \<Rightarrow> finite_or_infinite M E)"

text \<open>
  The finite doubles among the numbers \<open>Fin m e\<close> (a mantissa of 53 bits, or \<open>2 ^ 53\<close>
  itself, an exponent from \<open>- 1074\<close> on, a magnitude below \<open>2 ^ 1024\<close>), and
  \<open>Number.isFinite\<close>.
\<close>

definition is_double :: "jsnumber \<Rightarrow> bool" where
  "is_double x =
     (case x of
        Fin m e \<Rightarrow> \<bar>m\<bar> \<le> 2 ^ 53 \<and> - 1074 \<le> e \<and> finite_or_infinite m e = Fin m e
      | _ \<Rightarrow> False)"

definition isFinite :: "jsnumber \<Rightarrow> bool" where
  "isFinite x = (case x of Fin m e \<Rightarrow> True | _ \<Rightarrow> False)"

text \<open>
  The value of \<open>Fin m e\<close> in units of \<open>2 ^ - 1127\<close>, for \<open>- 1127 \<le> e\<close>: an integer for every
  double and for every exact product of a double with a multiple of \<open>2 ^ - 53\<close>.
\<close>

definition scaled :: "jsnumber \<Rightarrow> int" where
  "scaled x = (case x of Fin m e \<Rightarrow> m * 2 ^ nat (e + 1127) | _ \<Rightarrow> 0)"

definition number_of_int :: "int \<Rightarrow> jsnumber" where
  "number_of_int n = fround n 0"

definition number_of_nat :: "nat \<Rightarrow> jsnumber" where
  "number_of_nat n = fround (int n) 0"

fun fneg :: "jsnumber \<Rightarrow> jsnumber" where
  "fneg (Fin m e) = Fin (- m) e"
| "fneg PosInf = NegInf"
| "fneg NegInf = PosInf"
| "fneg NaN = NaN"

fun fadd :: "jsnumber \<Rightarrow> jsnumber \<Rightarrow> jsnumber" where
  "fadd (Fin m1 e1) (Fin m2 e2) =
     (let e = min e1 e2 in fround (m1 * 2 ^ nat (e1 - e) + m2 * 2 ^ nat (e2 - e)) e)"
| "fadd NaN y = NaN"
| "fadd x NaN = NaN"
| "fadd PosInf NegInf = NaN"
| "fadd NegInf PosInf = NaN"
| "fadd PosInf y = PosInf"
| "fadd NegInf y = NegInf"
| "fadd x PosInf = PosInf"
| "fadd x NegInf = NegInf"

definition fsub :: "jsnumber \<Rightarrow> jsnumber \<Rightarrow> jsnumber" where
  "fsub x y = fadd x (fneg y)"

text \<open>The sign of a number: \<open>- 1\<close>, \<open>0\<close> or \<open>1\<close>; \<open>None\<close> for \<open>NaN\<close>.\<close>

fun fsign :: "jsnumber \<Rightarrow> int option" where
  "fsign (Fin m e) = Some (sgn m)"
| "fsign PosInf = Some 1"
| "fsign NegInf = Some (- 1)"
| "fsign NaN = None"

fun fmul :: "jsnumber \<Rightarrow> jsnumber \<Rightarrow> jsnumber" where
  "fmul (Fin m1 e1) (Fin m2 e2) = fround (m1 * m2) (e1 + e2)"
| "fmul x y =
     (case (fsign x, fsign y) of
        (Some a, Some b) \<Rightarrow> (if a * b = 0 then NaN else if 0 < a * b then PosInf else NegInf)
      | _ \<Rightarrow> NaN)"

text \<open>\<open>Math.floor\<close>\<close>

fun ffloor :: "jsnumber \<Rightarrow> jsnumber" where
  "ffloor (Fin m e) = (if 0 \<le> e then Fin m e else Fin (m div 2 ^ nat (- e)) 0)"
| "ffloor x = x"

text \<open>The order of the values; a comparison with \<open>NaN\<close> is false.\<close>

fun fless :: "jsnumber \<Rightarrow> jsnumber \<Rightarrow> bool" where
  "fless (Fin m1 e1) (Fin m2 e2) =
     (let e = min e1 e2 in m1 * 2 ^ nat (e1 - e) < m2 * 2 ^ nat (e2 - e))"
| "fless NaN y = False"
| "fless x NaN = False"
| "fless PosInf y = False"
| "fless x PosInf = True"
| "fless x NegInf = False"
| "fless NegInf y = True"


text \<open>\<open>Number.isInteger\<close>, and the integer a number with an integral value denotes.\<close>

fun is_integer :: "jsnumber \<Rightarrow> bool" where
  "is_integer (Fin m e) = (0 \<le> e \<or> m mod 2 ^ nat (- e) = 0)"
| "is_integer x = False"

fun int_of_num :: "jsnumber \<Rightarrow> int" where
  "int_of_num (Fin m e) = (if 0 \<le> e then m * 2 ^ nat e else m div 2 ^ nat (- e))"
| "int_of_num x = 0"

section \<open>JSON values and \<open>JSON.stringify\<close>\<close>

text \<open>
  The values the handlers build and \<open>JSON.parse\<close> returns. An object is the list of its
  own enumerable properties in enumeration order, each key once. \<open>JUndefined\<close> is the value \<open>undefined\<close>, which handlers put into objects and
  \<open>JSON.stringify\<close> leaves out.
\<close>

datatype json =
    JUndefined
  | JNull
  | JBool bool
  | JNum jsnumber
  | JStr jsstring
  | JArr "json list"
  | JObj "(jsstring \<times> json) list"

definition hex_digit :: "nat \<Rightarrow> jschar" where
  "hex_digit n = (if n < 10 then 0x30 + of_nat n else 0x61 + of_nat (n - 10))"

definition unicode_escape :: "jschar \<Rightarrow> jsstring" where
  "unicode_escape c =
     [0x5C, 0x75, hex_digit (unat c div 4096), hex_digit (unat c div 256 mod 16),
      hex_digit (unat c div 16 mod 16), hex_digit (unat c mod 16)]"

definition is_high_surrogate :: "jschar \<Rightarrow> bool" where
  "is_high_surrogate c \<longleftrightarrow> 0xD800 \<le> c \<and> c \<le> 0xDBFF"

definition is_low_surrogate :: "jschar \<Rightarrow> bool" where
  "is_low_surrogate c \<longleftrightarrow> 0xDC00 \<le> c \<and> c \<le> 0xDFFF"

fun quote_units :: "jsstring \<Rightarrow> jsstring" where
  "quote_units [] = []"
| "quote_units (c # cs) =
     (if c = 0x08 then [0x5C, 0x62] @ quote_units cs
      else if c = 0x09 then [0x5C, 0x74] @ quote_units cs
      else if c = 0x0A then [0x5C, 0x6E] @ quote_units cs
      else if c = 0x0C then [0x5C, 0x66] @ quote_units cs
      else if c = 0x0D then [0x5C, 0x72] @ quote_units cs
      else if c = 0x22 then [0x5C, 0x22] @ quote_units cs
      else if c = 0x5C then [0x5C, 0x5C] @ quote_units cs
      else if c < 0x20 then unicode_escape c @ quote_units cs
      else if is_high_surrogate c then
        (case cs of
           [] \<Rightarrow> unicode_escape c
         | d # ds \<Rightarrow>
             if is_low_surrogate d then c # d # quote_units ds
             else unicode_escape c @ quote_units cs)
      else if is_low_surrogate c then unicode_escape c @ quote_units cs
      else c # quote_units cs)"

definition QuoteJSONString :: "jsstring \<Rightarrow> jsstring" where
  "QuoteJSONString s = [0x22] @ quote_units s @ [0x22]"

fun join :: "jsstring \<Rightarrow> jsstring list \<Rightarrow> jsstring" where
  "join sep [] = []"
| "join sep [x] = x"
| "join sep (x # y # ys) = x @ sep @ join sep (y # ys)"

text \<open>
  \<open>JSON.stringify(value, null, indent)\<close> after ECMA-262: \<open>num\<close> renders a finite
  number (an infinity and \<open>NaN\<close> are rendered as \<open>null\<close>),
  \<open>gap\<close> is the indentation unit, \<open>None\<close> is the result \<open>undefined\<close>.
\<close>

fun SerializeJSONProperty :: "(jsnumber \<Rightarrow> jsstring) \<Rightarrow> jsstring \<Rightarrow> jsstring \<Rightarrow> json \<Rightarrow> jsstring option"
  and serialize_elements :: "(jsnumber \<Rightarrow> jsstring) \<Rightarrow> jsstring \<Rightarrow> jsstring \<Rightarrow> json list \<Rightarrow> jsstring list"
  and serialize_properties ::
    "(jsnumber \<Rightarrow> jsstring) \<Rightarrow> jsstring \<Rightarrow> jsstring \<Rightarrow> (jsstring \<times> json) list \<Rightarrow> jsstring list" where
  "SerializeJSONProperty num gap indent JUndefined = None"
| "SerializeJSONProperty num gap indent JNull = Some (js ''null'')"
| "SerializeJSONProperty num gap indent (JBool b) = Some (if b then js ''true'' else js ''false'')"
| "SerializeJSONProperty num gap indent (JNum x) =
     Some (case x of Fin m e \<Rightarrow> num x | _ \<Rightarrow> js ''null'')"
| "SerializeJSONProperty num gap indent (JStr s) = Some (QuoteJSONString s)"
| "SerializeJSONProperty num gap stepback (JArr xs) =
     (let indent = stepback @ gap; partial = serialize_elements num gap indent xs
      in Some (if partial = [] then js ''[]''
               else if gap = [] then js ''['' @ join (js '','') partial @ js '']''
               else js ''['' @ [0x0A] @ indent @ join (js '','' @ [0x0A] @ indent) partial
                      @ [0x0A] @ stepback @ js '']''))"
| "SerializeJSONProperty num gap stepback (JObj kvs) =
     (let indent = stepback @ gap; partial = serialize_properties num gap indent kvs
      in Some (if partial = [] then js ''{}''
               else if gap = [] then js ''{'' @ join (js '','') partial @ js ''}''
               else js ''{'' @ [0x0A] @ indent @ join (js '','' @ [0x0A] @ indent) partial
                      @ [0x0A] @ stepback @ js ''}''))"
| "serialize_elements num gap indent [] = []"
| "serialize_elements num gap indent (x # xs) =
     (case SerializeJSONProperty num gap indent x of None \<Rightarrow> js ''null'' | Some t \<Rightarrow> t)
       # serialize_elements num gap indent xs"
| "serialize_properties num gap indent [] = []"
| "serialize_properties num gap indent ((k, v) # kvs) =
     (case SerializeJSONProperty num gap indent v of
        None \<Rightarrow> serialize_properties num gap indent kvs
      | Some t \<Rightarrow>
          (QuoteJSONString k @ js '':'' @ (if gap = [] then [] else js '' '') @ t)
            # serialize_properties num gap indent kvs)"

definition JSON_stringify :: "(jsnumber \<Rightarrow> jsstring) \<Rightarrow> nat \<Rightarrow> json \<Rightarrow> jsstring option" where
  "JSON_stringify num indent v = SerializeJSONProperty num (replicate (min 10 indent) 0x20) [] v"

text \<open>The decimal digits of an array index, as \<open>for ... in\<close> enumerates it.\<close>

function nat_to_dec :: "nat \<Rightarrow> jsstring" where
  "nat_to_dec n = (if n < 10 then [0x30 + of_nat n] else nat_to_dec (n div 10) @ [0x30 + of_nat (n mod 10)])"
  by pat_completeness auto
termination
  by (relation "measure id") auto

section \<open>Buffers: UTF-8 and Base64\<close>

type_synonym byte = "8 word"

text \<open>
  \<open>Buffer.from(s)\<close>: the UTF-8 encoding of a string. A surrogate pair is one code point of
  four bytes; a surrogate without its partner is encoded as U+FFFD (\<open>EF BF BD\<close>).
\<close>

definition encode_code_point :: "nat \<Rightarrow> byte list" where
  "encode_code_point n =
     (if n < 0x80 then [of_nat n]
      else if n < 0x800 then [of_nat (0xC0 + n div 64), of_nat (0x80 + n mod 64)]
      else if n < 0x10000 then
        [of_nat (0xE0 + n div 4096), of_nat (0x80 + n div 64 mod 64), of_nat (0x80 + n mod 64)]
      else
        [of_nat (0xF0 + n div 262144), of_nat (0x80 + n div 4096 mod 64),
         of_nat (0x80 + n div 64 mod 64), of_nat (0x80 + n mod 64)])"

definition replacement_bytes :: "byte list" where
  "replacement_bytes = [0xEF, 0xBF, 0xBD]"

fun utf8_encode :: "jsstring \<Rightarrow> byte list" where
  "utf8_encode [] = []"
| "utf8_encode (c # cs) =
     (if is_high_surrogate c then
        (case cs of
           [] \<Rightarrow> replacement_bytes
         | d # ds \<Rightarrow>
             if is_low_surrogate d
             then encode_code_point (0x10000 + (unat c - 0xD800) * 0x400 + (unat d - 0xDC00))
                    @ utf8_encode ds
             else replacement_bytes @ utf8_encode cs)
      else if is_low_surrogate c then replacement_bytes @ utf8_encode cs
      else encode_code_point (unat c) @ utf8_encode cs)"

text \<open>
  \<open>String.prototype.isWellFormed\<close>: no surrogate without its partner. These are the strings
  that \<open>Buffer.from\<close> encodes without a replacement.
\<close>

fun isWellFormed :: "jsstring \<Rightarrow> bool" where
  "isWellFormed [] = True"
| "isWellFormed (c # cs) =
     (if is_high_surrogate c then
        (case cs of [] \<Rightarrow> False | d # ds \<Rightarrow> is_low_surrogate d \<and> isWellFormed ds)
      else \<not> is_low_surrogate c \<and> isWellFormed cs)"

text \<open>
  \<open>buf.toString("utf-8")\<close>: the decoder never fails; every maximal ill-formed part of the
  input becomes one U+FFFD, and the byte that ended it is read again.
\<close>

definition is_continuation :: "byte \<Rightarrow> bool" where
  "is_continuation b \<longleftrightarrow> 0x80 \<le> b \<and> b \<le> 0xBF"

definition code_point_units :: "nat \<Rightarrow> jsstring" where
  "code_point_units n =
     (if n < 0x10000 then [of_nat n]
      else [of_nat (0xD800 + (n - 0x10000) div 0x400), of_nat (0xDC00 + (n - 0x10000) mod 0x400)])"

text \<open>The range of the second byte after the lead byte \<open>b\<close> of a three or four byte sequence.\<close>

definition second_byte_ok :: "byte \<Rightarrow> byte \<Rightarrow> bool" where
  "second_byte_ok b b1 \<longleftrightarrow>
     (if b = 0xE0 then 0xA0 \<le> b1 \<and> b1 \<le> 0xBF
      else if b = 0xED then 0x80 \<le> b1 \<and> b1 \<le> 0x9F
      else if b = 0xF0 then 0x90 \<le> b1 \<and> b1 \<le> 0xBF
      else if b = 0xF4 then 0x80 \<le> b1 \<and> b1 \<le> 0x8F
      else is_continuation b1)"

fun utf8_decode :: "byte list \<Rightarrow> jsstring" where
  "utf8_decode [] = []"
| "utf8_decode (b # bs) =
     (if b < 0x80 then of_nat (unat b) # utf8_decode bs
      else if 0xC2 \<le> b \<and> b \<le> 0xDF then
        (case bs of
           [] \<Rightarrow> [0xFFFD]
         | b1 # r1 \<Rightarrow>
             if is_continuation b1
             then code_point_units ((unat b - 0xC0) * 64 + (unat b1 - 0x80)) @ utf8_decode r1
             else 0xFFFD # utf8_decode bs)
      else if 0xE0 \<le> b \<and> b \<le> 0xEF then
        (case bs of
           [] \<Rightarrow> [0xFFFD]
         | b1 # r1 \<Rightarrow>
             if second_byte_ok b b1 then
               (case r1 of
                  [] \<Rightarrow> [0xFFFD]
                | b2 # r2 \<Rightarrow>
                    if is_continuation b2
                    then code_point_units ((unat b - 0xE0) * 4096 + (unat b1 - 0x80) * 64
                                            + (unat b2 - 0x80)) @ utf8_decode r2
                    else 0xFFFD # utf8_decode r1)
             else 0xFFFD # utf8_decode bs)
      else if 0xF0 \<le> b \<and> b \<le> 0xF4 then
        (case bs of
           [] \<Rightarrow> [0xFFFD]
         | b1 # r1 \<Rightarrow>
             if second_byte_ok b b1 then
               (case r1 of
                  [] \<Rightarrow> [0xFFFD]
                | b2 # r2 \<Rightarrow>
                    if is_continuation b2 then
                      (case r2 of
                         [] \<Rightarrow> [0xFFFD]
                       | b3 # r3 \<Rightarrow>
                           if is_continuation b3
                           then code_point_units ((unat b - 0xF0) * 262144
                                  + (unat b1 - 0x80) * 4096 + (unat b2 - 0x80) * 64
                                  + (unat b3 - 0x80)) @ utf8_decode r3
                           else 0xFFFD # utf8_decode r2)
                    else 0xFFFD # utf8_decode r1)
             else 0xFFFD # utf8_decode bs)
      else 0xFFFD # utf8_decode bs)"

text \<open>
  \<open>buf.toString("base64")\<close> and \<open>buf.toString("base64url")\<close>: the alphabet of RFC 4648,
  with \<open>+ /\<close> and padding, or with \<open>- _\<close> and no padding.
\<close>

definition base64_char :: "bool \<Rightarrow> nat \<Rightarrow> jschar" where
  "base64_char urlSafe n =
     (if n < 26 then 0x41 + of_nat n
      else if n < 52 then 0x61 + of_nat (n - 26)
      else if n < 62 then 0x30 + of_nat (n - 52)
      else if n = 62 then (if urlSafe then 0x2D else 0x2B)
      else (if urlSafe then 0x5F else 0x2F))"

fun base64_encode :: "bool \<Rightarrow> byte list \<Rightarrow> jsstring" where
  "base64_encode urlSafe [] = []"
| "base64_encode urlSafe [a] =
     [base64_char urlSafe (unat a div 4), base64_char urlSafe (unat a mod 4 * 16)]
       @ (if urlSafe then [] else [0x3D, 0x3D])"
| "base64_encode urlSafe [a, b] =
     [base64_char urlSafe (unat a div 4),
      base64_char urlSafe (unat a mod 4 * 16 + unat b div 16),
      base64_char urlSafe (unat b mod 16 * 4)]
       @ (if urlSafe then [] else [0x3D])"
| "base64_encode urlSafe (a # b # c # rest) =
     [base64_char urlSafe (unat a div 4),
      base64_char urlSafe (unat a mod 4 * 16 + unat b div 16),
      base64_char urlSafe (unat b mod 16 * 4 + unat c div 64),
      base64_char urlSafe (unat c mod 64)]
       @ base64_encode urlSafe rest"

text \<open>
  \<open>Buffer.from(s, "base64")\<close> and \<open>Buffer.from(s, "base64url")\<close>. Node decodes both
  alphabets under either name and never throws. It reads the low byte of every code unit
  (\<open>static_cast<uint8_t>\<close>): a byte outside the alphabets is skipped, the first byte
  \<open>=\<close> ends the input, and an incomplete last group gives the bytes it determines. The
  sum type keeps the place of the \<open>try\<close> around the call.
\<close>

definition low_byte :: "jschar \<Rightarrow> byte" where
  "low_byte c = of_nat (unat c mod 256)"

definition unbase64 :: "byte \<Rightarrow> nat option" where
  "unbase64 c =
     (if 0x41 \<le> c \<and> c \<le> 0x5A then Some (unat c - 0x41)
      else if 0x61 \<le> c \<and> c \<le> 0x7A then Some (unat c - 0x61 + 26)
      else if 0x30 \<le> c \<and> c \<le> 0x39 then Some (unat c - 0x30 + 52)
      else if c = 0x2B \<or> c = 0x2D then Some 62
      else if c = 0x2F \<or> c = 0x5F then Some 63
      else None)"

definition base64_sextets :: "jsstring \<Rightarrow> nat list" where
  "base64_sextets s =
     List.map_filter unbase64 (takeWhile (\<lambda>c. c \<noteq> 0x3D) (map low_byte s))"

fun decode_sextets :: "nat list \<Rightarrow> byte list" where
  "decode_sextets (a # b # c # d # rest) =
     [of_nat (a * 4 + b div 16), of_nat (b mod 16 * 16 + c div 4), of_nat (c mod 4 * 64 + d)]
       @ decode_sextets rest"
| "decode_sextets [a, b, c] = [of_nat (a * 4 + b div 16), of_nat (b mod 16 * 16 + c div 4)]"
| "decode_sextets [a, b] = [of_nat (a * 4 + b div 16)]"
| "decode_sextets [a] = []"
| "decode_sextets [] = []"

definition Buffer_from_base64 :: "bool \<Rightarrow> jsstring \<Rightarrow> jsstring + byte list" where
  "Buffer_from_base64 urlSafe s = Inr (decode_sextets (base64_sextets s))"

section \<open>The runtime\<close>

text \<open>
  What the handlers take from Node.js and cannot be computed from their arguments: the
  Unicode case mappings beyond ASCII, the rendering of numbers, \<open>JSON.parse\<close>, the clock
  and the formatting of dates, the digests of \<open>crypto\<close>, the random source, the process
  metrics, and the wording of a validation error. \<open>JSON_parse\<close> returns the message of the
  \<open>SyntaxError\<close> on the left; \<open>crypto_hash\<close> the message of what \<open>createHash\<close>, \<open>update\<close>
  or \<open>digest\<close> throws. \<open>quotient_toFixed a b d\<close> is \<open>(a / b).toFixed(d)\<close> for integers \<open>a\<close>
  and \<open>b\<close>.
\<close>

datatype validation_error =
    MissingArgument jsstring
  | TypeMismatch jsstring
  | OutOfRange jsstring
  | InvalidEnumValue jsstring

record runtime =
  unicode_toLowerCase :: "jsstring \<Rightarrow> jsstring"
  unicode_toUpperCase :: "jsstring \<Rightarrow> jsstring"
  Number_toString :: "jsnumber \<Rightarrow> jsstring"
  quotient_toFixed :: "int \<Rightarrow> int \<Rightarrow> nat \<Rightarrow> jsstring"
  JSON_parse :: "jsstring \<Rightarrow> jsstring + json"
  Date_now :: "nat \<Rightarrow> int"
  Date_parse :: "jsstring \<Rightarrow> int option"
  Date_toISOString :: "int \<Rightarrow> jsstring"
  Date_toUTCString :: "int \<Rightarrow> jsstring"
  Date_toLocaleString :: "int \<Rightarrow> jsstring"
  crypto_hash :: "jsstring \<Rightarrow> jsstring \<Rightarrow> jsstring \<Rightarrow> jsstring + jsstring"
  random_source :: "nat \<Rightarrow> nat"
  process_version :: jsstring
  process_platform :: jsstring
  process_uptime :: jsnumber
  process_memoryUsage :: json
  validation_message :: "validation_error \<Rightarrow> jsstring"

text \<open>
  \<open>s.toLowerCase()\<close> and \<open>s.toUpperCase()\<close>: on a string of ASCII code units the mapping of
  the ASCII letters; on any other string the Unicode mapping of the runtime.
\<close>

definition toLowerCase :: "runtime \<Rightarrow> jsstring \<Rightarrow> jsstring" where
  "toLowerCase rt s =
     (if list_all (\<lambda>c. c < 0x80) s then map ascii_lower s else unicode_toLowerCase rt s)"

definition toUpperCase :: "runtime \<Rightarrow> jsstring \<Rightarrow> jsstring" where
  "toUpperCase rt s =
     (if list_all (\<lambda>c. c < 0x80) s then map ascii_upper s else unicode_toUpperCase rt s)"

text \<open>\<open>JSON.stringify(value, null, indent)\<close> with the runtime's rendering of numbers.\<close>

definition stringify :: "runtime \<Rightarrow> nat \<Rightarrow> json \<Rightarrow> jsstring option" where
  "stringify rt indent v = JSON_stringify (Number_toString rt) indent v"

text \<open>
  The result of a tool call, \<open>{ content: [{ type: "text", text }], isError? }\<close>: the text of
  its one content item (\<open>None\<close> when \<open>JSON.stringify\<close> gave \<open>undefined\<close>) and the flag
  (\<open>None\<close> when the property is absent).
\<close>

record envelope =
  content_text :: "jsstring option"
  isError :: "bool option"

text \<open>
  The catch clause every handler of \<open>src/index.ts\<close> ends with:
  \<open>return { content: [{ type: "text", text: `Error: ${error.message}` }], isError: true }\<close>.
  A thrown error is the left summand, carrying its message.
\<close>

definition error_envelope :: "jsstring \<Rightarrow> envelope" where
  "error_envelope message = \<lparr> content_text = Some (js ''Error: '' @ message), isError = Some True \<rparr>"

definition try_catch :: "jsstring + envelope \<Rightarrow> envelope" where
  "try_catch body = (case body of Inl message \<Rightarrow> error_envelope message | Inr e \<Rightarrow> e)"

text \<open>\<open>return { content: [{ type: "text", text: JSON.stringify(response, null, 2) }] }\<close>\<close>

definition result_envelope :: "runtime \<Rightarrow> json \<Rightarrow> envelope" where
  "result_envelope rt response = \<lparr> content_text = stringify rt 2 response, isError = None \<rparr>"

text \<open>JavaScript's truthiness, for \<open>!message\<close>.\<close>

fun truthy :: "json \<Rightarrow> bool" where
  "truthy JUndefined = False"
| "truthy JNull = False"
| "truthy (JBool b) = b"
| "truthy (JNum x) = (case x of Fin m e \<Rightarrow> m \<noteq> 0 | NaN \<Rightarrow> False | _ \<Rightarrow> True)"
| "truthy (JStr s) = (s \<noteq> [])"
| "truthy (JArr xs) = True"
| "truthy (JObj kvs) = True"

section \<open>Statistics of a message (echo, in both servers)\<close>

text \<open>
  \<open>const wordCount = message.trim().split(/\s+/).filter(w => w.length > 0).length;\<close>
  \<open>const charCount = message.length;\<close>
  \<open>const charCountNoSpaces = message.replace(/\s/g, "").length;\<close>
\<close>

definition echo_reversed :: "jsstring \<Rightarrow> jsstring" where
  "echo_reversed message = concat (rev (map (\<lambda>c. [c]) message))"

definition echo_wordCount :: "jsstring \<Rightarrow> int" where
  "echo_wordCount message =
     int (length (filter (\<lambda>w. length w > 0) (split_runs is_space (trim message))))"

definition echo_charCount :: "jsstring \<Rightarrow> int" where
  "echo_charCount message = int (length message)"

definition echo_charCountNoSpaces :: "jsstring \<Rightarrow> int" where
  "echo_charCountNoSpaces message = int (length (remove_class is_space message))"

text \<open>
  The specification's wording: the number of non-empty whitespace-delimited tokens. A scan
  that counts the places where a token begins; the flag says whether the previous code unit
  belonged to a token.
\<close>

fun count_tokens :: "bool \<Rightarrow> jsstring \<Rightarrow> nat" where
  "count_tokens inside [] = 0"
| "count_tokens inside (c # cs) =
     (if is_space c then count_tokens False cs
      else (if inside then 0 else 1) + count_tokens True cs)"

definition spec_word_count :: "jsstring \<Rightarrow> int" where
  "spec_word_count s = int (count_tokens False s)"

section \<open>The first server: one echo tool, dispatched by hand\<close>

text \<open>
  The \<open>CallToolRequestSchema\<close> handler of the compiled first version of the server. It
  throws for an unknown tool and for a missing message; the left summand is the message
  of the thrown \<open>Error\<close>, which leaves the handler.
\<close>

record call_request =
  req_name :: jsstring
  req_arguments :: "(jsstring \<times> json) list option"

definition v1_message :: "call_request \<Rightarrow> json" where
  "v1_message request =
     (case req_arguments request of
        None \<Rightarrow> JUndefined
      | Some arguments \<Rightarrow>
          (case map_of arguments (js ''message'') of None \<Rightarrow> JUndefined | Some v \<Rightarrow> v))"

definition v1_response :: "runtime \<Rightarrow> jsstring \<Rightarrow> json" where
  "v1_response rt message =
     JObj [(js ''original'', JStr message),
           (js ''reversed'', JStr (echo_reversed message)),
           (js ''word_count'', JNum (number_of_int (echo_wordCount message))),
           (js ''char_count'', JNum (number_of_int (echo_charCount message))),
           (js ''timestamp'', JStr (Date_toISOString rt (Date_now rt 0)))]"

definition v1_callTool :: "runtime \<Rightarrow> call_request \<Rightarrow> jsstring + envelope" where
  "v1_callTool rt request =
     (if req_name request \<noteq> js ''echo''
      then Inl (js ''Unknown tool: '' @ req_name request)
      else
        let message = v1_message request in
        if \<not> truthy message then Inl (js ''Message parameter is required'')
        else
          (case message of
             JStr m \<Rightarrow> Inr \<lparr> content_text = stringify rt 2 (v1_response rt m), isError = None \<rparr>
           | _ \<Rightarrow> Inl (js ''message.split is not a function'')))"

section \<open>Tool 1: echo\<close>

datatype transform =
  Tr_none | Tr_uppercase | Tr_lowercase | Tr_titlecase | Tr_snake_case | Tr_kebab_case
  | Tr_camelCase

record echo_args =
  echo_message :: jsstring
  echo_transform :: "transform option"
  echo_includeHash :: "bool option"

text \<open>\<open>message.split(/\r\n|\r|\n/)\<close>\<close>

fun split_lines :: "jsstring \<Rightarrow> jsstring list" where
  "split_lines [] = [[]]"
| "split_lines (c # cs) =
     (if c = 0x0D then
        (case cs of
           [] \<Rightarrow> [] # split_lines cs
         | d # ds \<Rightarrow> if d = 0x0A then [] # split_lines ds else [] # split_lines cs)
      else if c = 0x0A then [] # split_lines cs
      else (case split_lines cs of [] \<Rightarrow> [[c]] | t # ts \<Rightarrow> (c # t) # ts))"

text \<open>
  \<open>s.replace(/\w\S*/g, txt => txt.charAt(0).toUpperCase() + txt.substr(1).toLowerCase())\<close>:
  a match starts at a word character and runs to the next whitespace.
\<close>

function titlecase :: "runtime \<Rightarrow> jsstring \<Rightarrow> jsstring" where
  "titlecase rt [] = []"
| "titlecase rt (c # cs) =
     (if is_word c
      then toUpperCase rt [c] @ toLowerCase rt (takeWhile (\<lambda>d. \<not> is_space d) cs)
             @ titlecase rt (dropWhile (\<lambda>d. \<not> is_space d) cs)
      else c # titlecase rt cs)"
  by pat_completeness auto
termination
  by (relation "measure (\<lambda>(rt, s). length s)") (auto simp: length_dropWhile_le less_Suc_eq_le)

text \<open>
  \<open>s.replace(/(?:^\w|[A-Z]|\b\w)/g, (word, index) => index === 0 ? word.toLowerCase() :
  word.toUpperCase())\<close>: a match is one code unit, an upper-case letter or a word character
  at the start of the string or after a code unit that is not a word character. The flags say
  whether the index is 0 and whether the code unit before is a word character.
\<close>

definition is_upper :: "jschar \<Rightarrow> bool" where
  "is_upper c \<longleftrightarrow> 0x41 \<le> c \<and> c \<le> 0x5A"

definition is_lower :: "jschar \<Rightarrow> bool" where
  "is_lower c \<longleftrightarrow> 0x61 \<le> c \<and> c \<le> 0x7A"

fun camel_scan :: "runtime \<Rightarrow> bool \<Rightarrow> bool \<Rightarrow> jsstring \<Rightarrow> jsstring" where
  "camel_scan rt first after_word [] = []"
| "camel_scan rt first after_word (c # cs) =
     (if is_upper c \<or> (is_word c \<and> (first \<or> \<not> after_word))
      then (if first then toLowerCase rt [c] else toUpperCase rt [c])
      else [c])
       @ camel_scan rt False (is_word c) cs"

definition echo_transformed :: "runtime \<Rightarrow> transform \<Rightarrow> jsstring \<Rightarrow> jsstring" where
  "echo_transformed rt transform message =
     (case transform of
        Tr_none \<Rightarrow> message
      | Tr_uppercase \<Rightarrow> toUpperCase rt message
      | Tr_lowercase \<Rightarrow> toLowerCase rt message
      | Tr_titlecase \<Rightarrow> titlecase rt message
      | Tr_snake_case \<Rightarrow> toLowerCase rt (replace_runs is_space (js ''_'') message)
      | Tr_kebab_case \<Rightarrow> toLowerCase rt (replace_runs is_space (js ''-'') message)
      | Tr_camelCase \<Rightarrow> remove_class is_space (camel_scan rt True False message))"

text \<open>
  The three digests of \<open>response.hashes\<close>, in the order the source computes them; the
  first throw ends the computation.
\<close>

definition echo_hashes :: "runtime \<Rightarrow> jsstring \<Rightarrow> jsstring + json" where
  "echo_hashes rt message =
     (case crypto_hash rt (js ''md5'') message (js ''hex'') of
        Inl e \<Rightarrow> Inl e
      | Inr md5 \<Rightarrow>
          (case crypto_hash rt (js ''sha256'') message (js ''hex'') of
             Inl e \<Rightarrow> Inl e
           | Inr sha256 \<Rightarrow>
               (case crypto_hash rt (js ''sha512'') message (js ''hex'') of
                  Inl e \<Rightarrow> Inl e
                | Inr sha512 \<Rightarrow>
                    Inr (JObj [(js ''md5'', JStr md5), (js ''sha256'', JStr sha256),
                               (js ''sha512'', JStr sha512)]))))"

definition echo_lineCount :: "jsstring \<Rightarrow> int" where
  "echo_lineCount message = int (length (split_lines message))"

definition echo_stats :: "runtime \<Rightarrow> jsstring \<Rightarrow> json" where
  "echo_stats rt message =
     JObj [(js ''word_count'', JNum (number_of_int (echo_wordCount message))),
           (js ''char_count'', JNum (number_of_int (echo_charCount message))),
           (js ''char_count_no_spaces'', JNum (number_of_int (echo_charCountNoSpaces message))),
           (js ''line_count'', JNum (number_of_int (echo_lineCount message))),
           (js ''avg_word_length'',
              (if echo_wordCount message > 0
               then JStr (quotient_toFixed rt (echo_charCountNoSpaces message)
                            (echo_wordCount message) 2)
               else JNum (Fin 0 0)))]"

text \<open>
  The response before the hashes are added. \<open>transformed\<close> is \<open>undefined\<close> for the
  transformation \<open>none\<close>; the loop over \<open>Object.keys(response)\<close> deletes what is
  \<open>undefined\<close>.
\<close>

definition echo_response :: "runtime \<Rightarrow> jsstring \<Rightarrow> transform \<Rightarrow> (jsstring \<times> json) list" where
  "echo_response rt message transform =
     [(js ''original'', JStr message),
      (js ''transformed'',
         (if transform \<noteq> Tr_none then JStr (echo_transformed rt transform message)
          else JUndefined)),
      (js ''reversed'', JStr (echo_reversed message)),
      (js ''stats'', echo_stats rt message),
      (js ''timestamps'',
         JObj [(js ''iso'', JStr (Date_toISOString rt (Date_now rt 0))),
               (js ''unix'', JNum (number_of_int (Date_now rt 1))),
               (js ''utc'', JStr (Date_toUTCString rt (Date_now rt 2))),
               (js ''locale'', JStr (Date_toLocaleString rt (Date_now rt 3)))]),
      (js ''encoding'',
         JObj [(js ''base64'', JStr (base64_encode False (utf8_encode message))),
               (js ''base64url'', JStr (base64_encode True (utf8_encode message)))])]"

definition delete_undefined :: "(jsstring \<times> json) list \<Rightarrow> (jsstring \<times> json) list" where
  "delete_undefined response = filter (\<lambda>(key, v). v \<noteq> JUndefined) response"

definition echo_handler :: "runtime \<Rightarrow> echo_args \<Rightarrow> envelope" where
  "echo_handler rt args =
     try_catch
       (let message = echo_message args;
            transform = (case echo_transform args of None \<Rightarrow> Tr_none | Some t \<Rightarrow> t);
            includeHash = (case echo_includeHash args of None \<Rightarrow> False | Some b \<Rightarrow> b);
            response = echo_response rt message transform
        in if includeHash then
             (case echo_hashes rt message of
                Inl e \<Rightarrow> Inl e
              | Inr hashes \<Rightarrow>
                  Inr (result_envelope rt
                         (JObj (delete_undefined (response @ [(js ''hashes'', hashes)])))))
           else Inr (result_envelope rt (JObj (delete_undefined response))))"

section \<open>Tool 2: format\<close>

datatype format_op =
  F_uppercase | F_lowercase | F_titlecase | F_reverse | F_trim | F_remove_spaces
  | F_remove_punctuation | F_slugify | F_sentence_case

fun format_op_name :: "format_op \<Rightarrow> jsstring" where
  "format_op_name F_uppercase = js ''uppercase''"
| "format_op_name F_lowercase = js ''lowercase''"
| "format_op_name F_titlecase = js ''titlecase''"
| "format_op_name F_reverse = js ''reverse''"
| "format_op_name F_trim = js ''trim''"
| "format_op_name F_remove_spaces = js ''remove_spaces''"
| "format_op_name F_remove_punctuation = js ''remove_punctuation''"
| "format_op_name F_slugify = js ''slugify''"
| "format_op_name F_sentence_case = js ''sentence_case''"

record format_args =
  format_text :: jsstring
  format_operation :: format_op

text \<open>
  \<open>result = text.toLowerCase().replace(/[^\w\s-]/g, "").replace(/[\s]+/g, "-")
     .replace(/-+/g, "-").trim();\<close>
\<close>

definition format_slugify :: "runtime \<Rightarrow> jsstring \<Rightarrow> jsstring" where
  "format_slugify rt text =
     trim (replace_runs (\<lambda>c. c = 0x2D) (js ''-'')
       (replace_runs is_space (js ''-'')
         (remove_class (\<lambda>c. \<not> (is_word c \<or> is_space c \<or> c = 0x2D))
           (toLowerCase rt text))))"

text \<open>
  \<open>s.replace(/(^")|([.!?]\s+)([a-z])/g, (match, p1, p2, p3) => p1 ? p1 : p2 +
  p3.toUpperCase())\<close>: a quotation mark at index 0 stays; a sentence end, the whitespace after
  it and a lower-case letter match together, and the letter is replaced by its upper case.
  The flag says whether the index is 0.
\<close>

definition is_sentence_end :: "jschar \<Rightarrow> bool" where
  "is_sentence_end c \<longleftrightarrow> c = 0x2E \<or> c = 0x21 \<or> c = 0x3F"

function sentence_scan :: "runtime \<Rightarrow> bool \<Rightarrow> jsstring \<Rightarrow> jsstring" where
  "sentence_scan rt first [] = []"
| "sentence_scan rt first (c # cs) =
     (if first \<and> c = 0x22 then c # sentence_scan rt False cs
      else
        (case dropWhile is_space cs of
           [] \<Rightarrow> c # sentence_scan rt False cs
         | l # rest \<Rightarrow>
             if is_sentence_end c \<and> takeWhile is_space cs \<noteq> [] \<and> is_lower l
             then c # takeWhile is_space cs @ toUpperCase rt [l] @ sentence_scan rt False rest
             else c # sentence_scan rt False cs))"
  by pat_completeness auto
termination
proof (relation "measure (\<lambda>(rt, first, s). length s)", goal_cases)
  case (4 rt first c cs l rest)
  then have "length (l # rest) \<le> length cs"
    using length_dropWhile_le [of is_space cs] by simp
  then show ?case
    by simp
qed auto

definition format_sentence_case :: "runtime \<Rightarrow> jsstring \<Rightarrow> jsstring" where
  "format_sentence_case rt text =
     (case sentence_scan rt True (toLowerCase rt text) of
        [] \<Rightarrow> []
      | c # cs \<Rightarrow> toUpperCase rt [c] @ cs)"

definition format_result :: "runtime \<Rightarrow> format_op \<Rightarrow> jsstring \<Rightarrow> jsstring" where
  "format_result rt operation text =
     (case operation of
        F_uppercase \<Rightarrow> toUpperCase rt text
      | F_lowercase \<Rightarrow> toLowerCase rt text
      | F_titlecase \<Rightarrow> titlecase rt text
      | F_sentence_case \<Rightarrow> format_sentence_case rt text
      | F_reverse \<Rightarrow> echo_reversed text
      | F_trim \<Rightarrow> trim text
      | F_remove_spaces \<Rightarrow> remove_class is_space text
      | F_remove_punctuation \<Rightarrow> remove_class (\<lambda>c. \<not> (is_word c \<or> is_space c)) text
      | F_slugify \<Rightarrow> format_slugify rt text)"

definition format_handler :: "runtime \<Rightarrow> format_args \<Rightarrow> envelope" where
  "format_handler rt args =
     try_catch
       (let text = format_text args; operation = format_operation args
        in Inr (result_envelope rt
                  (JObj [(js ''original'', JStr text),
                         (js ''operation'', JStr (format_op_name operation)),
                         (js ''result'', JStr (format_result rt operation text))])))"

section \<open>Tool 3: analyze (composition)\<close>

text \<open>
  \<open>const letters = (text.match(/[a-zA-Z]/g) || []).length;\<close> and its three siblings,
  and \<open>other: text.length - letters - digits - spaces - punctuation\<close>.
\<close>

record composition =
  letters :: int
  digits :: int
  spaces :: int
  punctuation :: int
  other :: int

definition analyze_letters :: "jsstring \<Rightarrow> int" where
  "analyze_letters text = int (length (or_empty (match_g is_letter text)))"

definition analyze_digits :: "jsstring \<Rightarrow> int" where
  "analyze_digits text = int (length (or_empty (match_g is_digit text)))"

definition analyze_spaces :: "jsstring \<Rightarrow> int" where
  "analyze_spaces text = int (length (or_empty (match_g is_space text)))"

definition analyze_punctuation :: "jsstring \<Rightarrow> int" where
  "analyze_punctuation text =
     int (length (or_empty (match_g (\<lambda>c. \<not> (is_word c \<or> is_space c)) text)))"

definition analyze_composition :: "jsstring \<Rightarrow> composition" where
  "analyze_composition text =
     \<lparr> letters = analyze_letters text,
       digits = analyze_digits text,
       spaces = analyze_spaces text,
       punctuation = analyze_punctuation text,
       other = int (length text) - analyze_letters text - analyze_digits text
                 - analyze_spaces text - analyze_punctuation text \<rparr>"

record analyze_args =
  analyze_text :: jsstring
  analyze_includeCharFrequency :: "bool option"

text \<open>\<open>text.split(/\n\n+/)\<close>: a separator is a run of two or more line feeds.\<close>

function split_paragraphs :: "jsstring \<Rightarrow> jsstring list" where
  "split_paragraphs [] = [[]]"
| "split_paragraphs (c # cs) =
     (if c = 0x0A \<and> (case cs of [] \<Rightarrow> False | d # ds \<Rightarrow> d = 0x0A)
      then [] # split_paragraphs (dropWhile (\<lambda>d. d = 0x0A) cs)
      else (case split_paragraphs cs of [] \<Rightarrow> [[c]] | t # ts \<Rightarrow> (c # t) # ts))"
  by pat_completeness auto
termination
  by (relation "measure length") (auto simp: length_dropWhile_le less_Suc_eq_le)

definition analyze_words :: "jsstring \<Rightarrow> jsstring list" where
  "analyze_words text = filter (\<lambda>w. length w > 0) (split_runs is_space (trim text))"

definition analyze_sentences :: "jsstring \<Rightarrow> jsstring list" where
  "analyze_sentences text =
     filter (\<lambda>s. length (trim s) > 0) (split_runs is_sentence_end text)"

definition analyze_paragraphs :: "jsstring \<Rightarrow> jsstring list" where
  "analyze_paragraphs text = filter (\<lambda>p. length (trim p) > 0) (split_paragraphs text)"

text \<open>
  \<open>wordLengths[len] = (wordLengths[len] || 0) + 1\<close> for every word: an object whose keys
  are array indices, which are enumerated in ascending order.
\<close>

definition analyze_wordLengths :: "jsstring list \<Rightarrow> json" where
  "analyze_wordLengths words =
     (let lens = map length words
      in JObj (map (\<lambda>l. (nat_to_dec l, JNum (number_of_nat (count_list lens l))))
                 (sort (remdups lens))))"

text \<open>
  \<open>for (const char of text.toLowerCase()) if (/[a-z]/.test(char)) freq[char] = (freq[char]
  || 0) + 1\<close>: the keys in the order of their first occurrence.
\<close>

definition analyze_frequency :: "runtime \<Rightarrow> jsstring \<Rightarrow> json" where
  "analyze_frequency rt text =
     (let letters = filter is_lower (toLowerCase rt text)
      in JObj (map (\<lambda>c. ([c], JNum (number_of_nat (count_list letters c))))
                 (rev (remdups (rev letters)))))"

text \<open>
  The averages are \<open>(a / b).toFixed(2)\<close> or the number 0; the comparisons of
  \<open>words.length / sentences.length\<close> with 20 and 10 and \<open>Math.ceil(words.length / 200)\<close> are
  exact for the lengths a string can have.
\<close>

definition average :: "runtime \<Rightarrow> nat \<Rightarrow> nat \<Rightarrow> json" where
  "average rt a b = (if b > 0 then JStr (quotient_toFixed rt (int a) (int b) 2) else JNum (Fin 0 0))"

definition analyze_response :: "runtime \<Rightarrow> jsstring \<Rightarrow> (jsstring \<times> json) list" where
  "analyze_response rt text =
     (let words = analyze_words text;
          sentences = analyze_sentences text;
          paragraphs = analyze_paragraphs text;
          composition = analyze_composition text;
          no_spaces = length (remove_class is_space text)
      in [(js ''counts'',
             JObj [(js ''characters'', JNum (number_of_nat (length text))),
                   (js ''characters_no_spaces'', JNum (number_of_nat no_spaces)),
                   (js ''words'', JNum (number_of_nat (length words))),
                   (js ''sentences'', JNum (number_of_nat (length sentences))),
                   (js ''paragraphs'', JNum (number_of_nat (length paragraphs)))]),
          (js ''averages'',
             JObj [(js ''words_per_sentence'', average rt (length words) (length sentences)),
                   (js ''chars_per_word'', average rt no_spaces (length words)),
                   (js ''sentences_per_paragraph'',
                      average rt (length sentences) (length paragraphs))]),
          (js ''composition'',
             JObj [(js ''letters'', JNum (number_of_int (letters composition))),
                   (js ''digits'', JNum (number_of_int (digits composition))),
                   (js ''spaces'', JNum (number_of_int (spaces composition))),
                   (js ''punctuation'', JNum (number_of_int (punctuation composition))),
                   (js ''other'', JNum (number_of_int (other composition)))]),
          (js ''word_length_distribution'', analyze_wordLengths words),
          (js ''readability'',
             JObj [(js ''estimated_reading_time_min'',
                      JNum (number_of_nat ((length words + 199) div 200))),
                   (js ''complexity'',
                      JStr (if length words > 0 \<and> length sentences > 0
                            then (if length words > 20 * length sentences then js ''complex''
                                  else if length words > 10 * length sentences
                                  then js ''moderate'' else js ''simple'')
                            else js ''unknown''))])])"

definition analyze_handler :: "runtime \<Rightarrow> analyze_args \<Rightarrow> envelope" where
  "analyze_handler rt args =
     try_catch
       (let text = analyze_text args;
            includeCharFrequency =
              (case analyze_includeCharFrequency args of None \<Rightarrow> False | Some b \<Rightarrow> b);
            response = analyze_response rt text
        in Inr (result_envelope rt
                  (JObj (if includeCharFrequency
                         then response @ [(js ''character_frequency'', analyze_frequency rt text)]
                         else response))))"

section \<open>Tool 4: hash\<close>

datatype hash_algorithm = H_md5 | H_sha1 | H_sha256 | H_sha512 | H_sha3_256

fun hash_algorithm_name :: "hash_algorithm \<Rightarrow> jsstring" where
  "hash_algorithm_name H_md5 = js ''md5''"
| "hash_algorithm_name H_sha1 = js ''sha1''"
| "hash_algorithm_name H_sha256 = js ''sha256''"
| "hash_algorithm_name H_sha512 = js ''sha512''"
| "hash_algorithm_name H_sha3_256 = js ''sha3-256''"

datatype hash_encoding = E_hex | E_base64 | E_base64url

fun hash_encoding_name :: "hash_encoding \<Rightarrow> jsstring" where
  "hash_encoding_name E_hex = js ''hex''"
| "hash_encoding_name E_base64 = js ''base64''"
| "hash_encoding_name E_base64url = js ''base64url''"

record hash_args =
  hash_data :: jsstring
  hash_algorithm :: "hash_algorithm option"
  hash_encoding :: "hash_encoding option"

text \<open>
  \<open>createHash(algorithm).update(data)\<close> and, by the encoding, \<open>digest("base64")\<close>,
  \<open>digest("base64url")\<close> or \<open>digest("hex")\<close>.
\<close>

definition hash_handler :: "runtime \<Rightarrow> hash_args \<Rightarrow> envelope" where
  "hash_handler rt args =
     try_catch
       (let data = hash_data args;
            algorithm = (case hash_algorithm args of None \<Rightarrow> H_sha256 | Some a \<Rightarrow> a);
            encoding = (case hash_encoding args of None \<Rightarrow> E_hex | Some e \<Rightarrow> e)
        in case crypto_hash rt (hash_algorithm_name algorithm) data (hash_encoding_name encoding) of
             Inl e \<Rightarrow> Inl e
           | Inr result \<Rightarrow>
               Inr (result_envelope rt
                      (JObj [(js ''input_length'', JNum (number_of_nat (length data))),
                             (js ''algorithm'', JStr (hash_algorithm_name algorithm)),
                             (js ''encoding'', JStr (hash_encoding_name encoding)),
                             (js ''hash'', JStr result)])))"

section \<open>Tool 5: uuid\<close>

text \<open>
  \<open>crypto.randomUUID()\<close>: sixteen random bytes, the version and variant bits of a version 4
  UUID (RFC 4122) set in bytes 6 and 8, printed as 8-4-4-4-12 lower-case hexadecimal
  digits. The bytes are the base-256 digits of one draw from the random source.
\<close>

definition random_bytes :: "nat \<Rightarrow> nat \<Rightarrow> byte list" where
  "random_bytes x n = map (\<lambda>j. of_nat (x div 256 ^ j mod 256)) [0..<n]"

definition byte_hex :: "byte \<Rightarrow> jsstring" where
  "byte_hex b = [hex_digit (unat b div 16), hex_digit (unat b mod 16)]"

definition randomUUID :: "nat \<Rightarrow> jsstring" where
  "randomUUID x =
     (let b = random_bytes x 16;
          b = b[6 := (b ! 6 AND 0x0F) OR 0x40];
          b = b[8 := (b ! 8 AND 0x3F) OR 0x80];
          h = map byte_hex b
      in concat (take 4 h) @ js ''-'' @ concat (take 2 (drop 4 h)) @ js ''-''
           @ concat (take 2 (drop 6 h)) @ js ''-'' @ concat (take 2 (drop 8 h)) @ js ''-''
           @ concat (drop 10 h))"

datatype uuid_version = V4 | V7

fun uuid_version_name :: "uuid_version \<Rightarrow> jsstring" where
  "uuid_version_name V4 = js ''v4''"
| "uuid_version_name V7 = js ''v7''"

record uuid_args =
  uuid_version :: "uuid_version option"
  uuid_count :: "int option"
  uuid_uppercase :: "bool option"

text \<open>
  \<open>for (let i = 0; i < count; i++) { let uuid = randomUUID(); if (uppercase) uuid =
  uuid.toUpperCase(); uuids.push(uuid); }\<close>, with the number of draws taken so far.
\<close>

function uuid_loop ::
  "runtime \<Rightarrow> bool \<Rightarrow> int \<Rightarrow> int \<Rightarrow> jsstring list \<Rightarrow> nat \<Rightarrow> jsstring list \<times> nat" where
  "uuid_loop rt uppercase count i uuids draws =
     (if i < count then
        let uuid = randomUUID (random_source rt draws);
            uuid = (if uppercase then toUpperCase rt uuid else uuid)
        in uuid_loop rt uppercase count (i + 1) (uuids @ [uuid]) (Suc draws)
      else (uuids, draws))"
  by pat_completeness auto
termination
  by (relation "measure (\<lambda>(rt, uppercase, count, i, uuids, draws). nat (count - i))") auto

text \<open>The handler: the envelope and the number of draws taken from the random source.\<close>

definition uuid_handler :: "runtime \<Rightarrow> nat \<Rightarrow> uuid_args \<Rightarrow> envelope \<times> nat" where
  "uuid_handler rt draws args =
     (let version = (case uuid_version args of None \<Rightarrow> V4 | Some version \<Rightarrow> version);
          count = (case uuid_count args of None \<Rightarrow> 1 | Some count \<Rightarrow> count);
          uppercase = (case uuid_uppercase args of None \<Rightarrow> False | Some uppercase \<Rightarrow> uppercase);
          (uuids, draws') = uuid_loop rt uppercase count 0 [] draws
      in (try_catch (Inr (result_envelope rt
            (JObj [(js ''version'', JStr (uuid_version_name version)),
                   (js ''count'', JNum (number_of_nat (length uuids))),
                   (js ''uuids'', JArr (map JStr uuids))]))),
          draws'))"

text \<open>
  A syntactically valid version 4 UUID: 36 code units, hyphens at 8, 13, 18 and 23,
  hexadecimal digits of either case elsewhere, the version digit 4 at 14 and a variant
  digit 8, 9, a or b at 19.
\<close>

definition is_hex :: "jschar \<Rightarrow> bool" where
  "is_hex c \<longleftrightarrow> is_digit c \<or> (0x61 \<le> c \<and> c \<le> 0x66) \<or> (0x41 \<le> c \<and> c \<le> 0x46)"

definition valid_uuid_v4 :: "jsstring \<Rightarrow> bool" where
  "valid_uuid_v4 s \<longleftrightarrow>
     length s = 36
     \<and> list_all (\<lambda>i. if i \<in> {8, 13, 18, 23} then s ! i = 0x2D else is_hex (s ! i)) [0..<36]
     \<and> s ! 14 = 0x34
     \<and> s ! 19 \<in> {0x38, 0x39, 0x61, 0x62, 0x41, 0x42}"

section \<open>Tool 6: timestamp\<close>

datatype timestamp_op = Ts_now | Ts_convert | Ts_add | Ts_format

fun timestamp_op_name :: "timestamp_op \<Rightarrow> jsstring" where
  "timestamp_op_name Ts_now = js ''now''"
| "timestamp_op_name Ts_convert = js ''convert''"
| "timestamp_op_name Ts_add = js ''add''"
| "timestamp_op_name Ts_format = js ''format''"

datatype timestamp_format =
  Fmt_iso | Fmt_unix_ms | Fmt_unix_s | Fmt_utc | Fmt_locale | Fmt_date_only | Fmt_time_only

fun timestamp_format_name :: "timestamp_format \<Rightarrow> jsstring" where
  "timestamp_format_name Fmt_iso = js ''iso''"
| "timestamp_format_name Fmt_unix_ms = js ''unix_ms''"
| "timestamp_format_name Fmt_unix_s = js ''unix_s''"
| "timestamp_format_name Fmt_utc = js ''utc''"
| "timestamp_format_name Fmt_locale = js ''locale''"
| "timestamp_format_name Fmt_date_only = js ''date_only''"
| "timestamp_format_name Fmt_time_only = js ''time_only''"

record timestamp_args =
  timestamp_operation :: "timestamp_op option"
  timestamp_value :: "jsstring option"
  timestamp_format :: "timestamp_format option"
  timestamp_addMs :: "jsnumber option"

text \<open>
  A \<open>Date\<close> is its time value in milliseconds, \<open>None\<close> for an invalid date.
  \<open>new Date(x)\<close> for a number \<open>x\<close> truncates it, and is invalid beyond 8.64e15.
\<close>

fun time_clip :: "jsnumber \<Rightarrow> int option" where
  "time_clip (Fin m e) =
     (let t = (if 0 \<le> e then m * 2 ^ nat e else sgn m * (\<bar>m\<bar> div 2 ^ nat (- e)))
      in if \<bar>t\<bar> \<le> 8640000000000000 then Some t else None)"
| "time_clip x = None"

text \<open>\<open>/^\d+$/.test(value)\<close> and \<open>parseInt(value, 10)\<close> of such a value.\<close>

definition all_digits :: "jsstring \<Rightarrow> bool" where
  "all_digits s \<longleftrightarrow> s \<noteq> [] \<and> list_all is_digit s"

definition parseInt :: "jsstring \<Rightarrow> int" where
  "parseInt s = foldl (\<lambda>n c. 10 * n + (uint c - 0x30)) 0 s"

text \<open>
  \<open>if (/^\d+$/.test(value)) { const num = parseInt(value, 10); date = new Date(num <
  10000000000 ? num * 1000 : num); } else { date = new Date(value); }\<close>
\<close>

definition timestamp_parse :: "runtime \<Rightarrow> jsstring \<Rightarrow> int option" where
  "timestamp_parse rt v =
     (if all_digits v then
        (let num = parseInt v in time_clip (number_of_int (if num < 10000000000 then num * 1000 else num)))
      else Date_parse rt v)"

text \<open>The \<open>switch (operation)\<close>; the left summand is a thrown error.\<close>

definition timestamp_date ::
  "runtime \<Rightarrow> timestamp_op \<Rightarrow> jsstring option \<Rightarrow> jsnumber option \<Rightarrow> jsstring + int option" where
  "timestamp_date rt operation v addMs =
     (case operation of
        Ts_now \<Rightarrow> Inr (Some (Date_now rt 0))
      | Ts_convert \<Rightarrow>
          (case v of
             None \<Rightarrow> Inl (js ''Value required for convert operation'')
           | Some v \<Rightarrow>
               if v = [] then Inl (js ''Value required for convert operation'')
               else (case timestamp_parse rt v of
                       None \<Rightarrow> Inl (js ''Invalid date value'')
                     | Some t \<Rightarrow> Inr (Some t)))
      | Ts_add \<Rightarrow>
          (case (v, addMs) of
             (Some v, Some addMs) \<Rightarrow>
               if v = [] then Inl (js ''Value and addMs required for add operation'')
               else (case timestamp_parse rt v of
                       None \<Rightarrow> Inl (js ''Invalid date value'')
                     | Some t \<Rightarrow> Inr (time_clip (fadd (number_of_int t) addMs)))
           | _ \<Rightarrow> Inl (js ''Value and addMs required for add operation''))
      | Ts_format \<Rightarrow> Inr (Some (Date_now rt 0)))"

text \<open>\<open>s.split("T")\<close>, and \<open>s.replace("Z", "")\<close>, which removes the first \<open>Z\<close>.\<close>

fun split_at :: "jschar \<Rightarrow> jsstring \<Rightarrow> jsstring list" where
  "split_at sep [] = [[]]"
| "split_at sep (c # cs) =
     (if c = sep then [] # split_at sep cs
      else (case split_at sep cs of [] \<Rightarrow> [[c]] | t # ts \<Rightarrow> (c # t) # ts))"

fun remove_first :: "jschar \<Rightarrow> jsstring \<Rightarrow> jsstring" where
  "remove_first x [] = []"
| "remove_first x (c # cs) = (if c = x then cs else c # remove_first x cs)"

text \<open>
  The formats of a valid date. \<open>toISOString().split("T")[1]\<close> is \<open>undefined\<close> when the
  string has no \<open>T\<close>, and \<open>.replace\<close> on it throws.
\<close>

definition date_only :: "runtime \<Rightarrow> int \<Rightarrow> jsstring" where
  "date_only rt t = (case split_at 0x54 (Date_toISOString rt t) of [] \<Rightarrow> [] | d # ps \<Rightarrow> d)"

definition time_only :: "runtime \<Rightarrow> int \<Rightarrow> jsstring + jsstring" where
  "time_only rt t =
     (case split_at 0x54 (Date_toISOString rt t) of
        d # p # ps \<Rightarrow> Inr (remove_first 0x5A p)
      | _ \<Rightarrow> Inl (js ''Cannot read properties of undefined (reading 'replace')''))"

definition timestamp_result :: "runtime \<Rightarrow> timestamp_format \<Rightarrow> int \<Rightarrow> jsstring + json" where
  "timestamp_result rt format t =
     (case format of
        Fmt_iso \<Rightarrow> Inr (JStr (Date_toISOString rt t))
      | Fmt_unix_ms \<Rightarrow> Inr (JNum (number_of_int t))
      | Fmt_unix_s \<Rightarrow> Inr (JNum (number_of_int (t div 1000)))
      | Fmt_utc \<Rightarrow> Inr (JStr (Date_toUTCString rt t))
      | Fmt_locale \<Rightarrow> Inr (JStr (Date_toLocaleString rt t))
      | Fmt_date_only \<Rightarrow> Inr (JStr (date_only rt t))
      | Fmt_time_only \<Rightarrow> (case time_only rt t of Inl e \<Rightarrow> Inl e | Inr s \<Rightarrow> Inr (JStr s)))"

text \<open>
  An invalid date (which only \<open>add\<close> can produce) makes \<open>toISOString()\<close> throw a
  \<open>RangeError\<close>, in the \<open>switch (format)\<close> or at \<open>all_formats.iso\<close>.
\<close>

definition timestamp_handler :: "runtime \<Rightarrow> timestamp_args \<Rightarrow> envelope" where
  "timestamp_handler rt args =
     try_catch
       (let operation = (case timestamp_operation args of None \<Rightarrow> Ts_now | Some operation \<Rightarrow> operation);
            format = (case timestamp_format args of None \<Rightarrow> Fmt_iso | Some format \<Rightarrow> format)
        in case timestamp_date rt operation (timestamp_value args) (timestamp_addMs args) of
             Inl e \<Rightarrow> Inl e
           | Inr None \<Rightarrow> Inl (js ''Invalid time value'')
           | Inr (Some t) \<Rightarrow>
               (case timestamp_result rt format t of
                  Inl e \<Rightarrow> Inl e
                | Inr result \<Rightarrow>
                    (case time_only rt t of
                       Inl e \<Rightarrow> Inl e
                     | Inr time_part \<Rightarrow>
                         Inr (result_envelope rt
                           (JObj [(js ''operation'', JStr (timestamp_op_name operation)),
                                  (js ''format'', JStr (timestamp_format_name format)),
                                  (js ''result'', result),
                                  (js ''all_formats'',
                                     JObj [(js ''iso'', JStr (Date_toISOString rt t)),
                                           (js ''unix_ms'', JNum (number_of_int t)),
                                           (js ''unix_s'', JNum (number_of_int (t div 1000))),
                                           (js ''utc'', JStr (Date_toUTCString rt t)),
                                           (js ''locale'', JStr (Date_toLocaleString rt t)),
                                           (js ''date_only'', JStr (date_only rt t)),
                                           (js ''time_only'', JStr time_part)])])))))"

section \<open>Tool 8: json\<close>

fun getAllKeys :: "json \<Rightarrow> jsstring \<Rightarrow> jsstring list"
  and keys_of_properties :: "(jsstring \<times> json) list \<Rightarrow> jsstring \<Rightarrow> jsstring list"
  and keys_of_elements :: "json list \<Rightarrow> nat \<Rightarrow> jsstring \<Rightarrow> jsstring list" where
  "getAllKeys (JObj kvs) prefix = keys_of_properties kvs prefix"
| "getAllKeys (JArr xs) prefix = keys_of_elements xs 0 prefix"
| "getAllKeys JUndefined prefix = []"
| "getAllKeys JNull prefix = []"
| "getAllKeys (JBool b) prefix = []"
| "getAllKeys (JNum x) prefix = []"
| "getAllKeys (JStr s) prefix = []"
| "keys_of_properties [] prefix = []"
| "keys_of_properties ((key, v) # rest) prefix =
     (let fullKey = (if prefix \<noteq> [] then prefix @ js ''.'' @ key else key)
      in fullKey # (case v of JObj kvs \<Rightarrow> getAllKeys v fullKey | _ \<Rightarrow> [])
           @ keys_of_properties rest prefix)"
| "keys_of_elements [] i prefix = []"
| "keys_of_elements (v # rest) i prefix =
     (let key = nat_to_dec i; fullKey = (if prefix \<noteq> [] then prefix @ js ''.'' @ key else key)
      in fullKey # (case v of JObj kvs \<Rightarrow> getAllKeys v fullKey | _ \<Rightarrow> [])
           @ keys_of_elements rest (Suc i) prefix)"


text \<open>\<open>typeof\<close>, and the \<open>getType\<close> of the handler.\<close>

fun typeof :: "json \<Rightarrow> jsstring" where
  "typeof JUndefined = js ''undefined''"
| "typeof JNull = js ''object''"
| "typeof (JBool b) = js ''boolean''"
| "typeof (JNum x) = js ''number''"
| "typeof (JStr s) = js ''string''"
| "typeof (JArr xs) = js ''object''"
| "typeof (JObj kvs) = js ''object''"

fun isArray :: "json \<Rightarrow> bool" where
  "isArray (JArr xs) = True"
| "isArray v = False"

fun getType :: "json \<Rightarrow> jsstring" where
  "getType JNull = js ''null''"
| "getType (JArr xs) = js ''array''"
| "getType v = typeof v"

datatype json_op = Op_validate | Op_format | Op_minify | Op_get_keys | Op_get_type

fun json_op_name :: "json_op \<Rightarrow> jsstring" where
  "json_op_name Op_validate = js ''validate''"
| "json_op_name Op_format = js ''format''"
| "json_op_name Op_minify = js ''minify''"
| "json_op_name Op_get_keys = js ''get_keys''"
| "json_op_name Op_get_type = js ''get_type''"

record json_args =
  json_operation :: "json_op option"
  json_data :: jsstring
  json_indent :: "nat option"

text \<open>\<open>Object.keys(parsed)\<close> and the object of \<open>getType\<close> per key, for a plain object.\<close>

fun object_keys :: "json \<Rightarrow> json" where
  "object_keys (JObj kvs) = JArr (map (\<lambda>(k, v). JStr k) kvs)"
| "object_keys v = JUndefined"

fun object_types :: "json \<Rightarrow> json" where
  "object_types (JObj kvs) = JObj (map (\<lambda>(k, v). (k, JStr (getType v))) kvs)"
| "object_types v = JUndefined"

fun array_length :: "json \<Rightarrow> json" where
  "array_length (JArr xs) = JNum (number_of_nat (length xs))"
| "array_length v = JUndefined"

text \<open>
  \<open>keys: typeof parsed === "object" && parsed !== null ? getAllKeys(parsed) : []\<close>
\<close>

definition json_get_keys :: "json \<Rightarrow> jsstring list" where
  "json_get_keys parsed =
     (if typeof parsed = js ''object'' \<and> parsed \<noteq> JNull then getAllKeys parsed [] else [])"

text \<open>
  The specification's wording of the keys of a top-level array: for every index, in order,
  the index itself and, when the element is a plain object, the dotted paths below it after
  the index. The paths below a plain object are, for every property in order, its key and,
  when its value is a plain object, the paths below the value after the key; an array or
  a scalar that is the value of a property gives nothing below the key.
\<close>

fun spec_paths :: "json \<Rightarrow> jsstring list"
  and spec_property_paths :: "(jsstring \<times> json) list \<Rightarrow> jsstring list" where
  "spec_paths (JObj kvs) = spec_property_paths kvs"
| "spec_paths (JArr xs) = []"
| "spec_paths JUndefined = []"
| "spec_paths JNull = []"
| "spec_paths (JBool b) = []"
| "spec_paths (JNum x) = []"
| "spec_paths (JStr s) = []"
| "spec_property_paths [] = []"
| "spec_property_paths ((k, v) # rest) =
     k # map (\<lambda>path. k @ js ''.'' @ path) (spec_paths v) @ spec_property_paths rest"

definition spec_array_keys :: "json list \<Rightarrow> jsstring list" where
  "spec_array_keys xs =
     concat (map (\<lambda>(i, v). nat_to_dec i
                    # map (\<lambda>path. nat_to_dec i @ js ''.'' @ path) (spec_paths v))
               (enumerate 0 xs))"

text \<open>The \<open>result\<close> of each operation; \<open>minify\<close> reads \<open>.length\<close> of what \<open>JSON.stringify\<close> gave.\<close>

definition json_result :: "runtime \<Rightarrow> json_op \<Rightarrow> jsstring \<Rightarrow> nat \<Rightarrow> json \<Rightarrow> jsstring + json" where
  "json_result rt operation data indent parsed =
     (case operation of
        Op_validate \<Rightarrow>
          Inr (JObj [(js ''valid'', JBool True),
                     (js ''type'', JStr (if isArray parsed then js ''array'' else typeof parsed)),
                     (js ''size_bytes'', JNum (number_of_nat (length (utf8_encode data)))),
                     (js ''keys'', object_keys parsed),
                     (js ''array_length'', array_length parsed)])
      | Op_format \<Rightarrow>
          Inr (JObj [(js ''valid'', JBool True),
                     (js ''formatted'',
                        (case stringify rt indent parsed of
                           None \<Rightarrow> JUndefined | Some t \<Rightarrow> JStr t))])
      | Op_minify \<Rightarrow>
          (case stringify rt 0 parsed of
             None \<Rightarrow> Inl (js ''Cannot read properties of undefined (reading 'length')'')
           | Some minified \<Rightarrow>
               Inr (JObj [(js ''valid'', JBool True),
                          (js ''minified'', JStr minified),
                          (js ''original_size'', JNum (number_of_nat (length data))),
                          (js ''minified_size'', JNum (number_of_nat (length minified))),
                          (js ''compression_ratio'',
                             JStr (quotient_toFixed rt
                               (int (length minified)) (int (length data)) 2))]))
      | Op_get_keys \<Rightarrow>
          Inr (JObj [(js ''valid'', JBool True),
                     (js ''keys'', JArr (map JStr (json_get_keys parsed)))])
      | Op_get_type \<Rightarrow>
          Inr (JObj [(js ''valid'', JBool True),
                     (js ''root_type'', JStr (getType parsed)),
                     (js ''types'', object_types parsed)]))"

text \<open>
  The handler: invalid JSON returns at once, flagged as an error, with the text of
  \<open>{ valid: false, error: e.message }\<close>; a throw of the rest reaches the catch clause.
\<close>

definition json_handler :: "runtime \<Rightarrow> json_args \<Rightarrow> envelope" where
  "json_handler rt args =
     try_catch
       (let operation = (case json_operation args of None \<Rightarrow> Op_validate | Some operation \<Rightarrow> operation);
            data = json_data args;
            indent = (case json_indent args of None \<Rightarrow> 2 | Some indent \<Rightarrow> indent)
        in case JSON_parse rt data of
             Inl message \<Rightarrow>
               Inr \<lparr> content_text =
                       stringify rt 2 (JObj [(js ''valid'', JBool False), (js ''error'', JStr message)]),
                     isError = Some True \<rparr>
           | Inr parsed \<Rightarrow>
               (case json_result rt operation data indent parsed of
                  Inl message \<Rightarrow> Inl message
                | Inr result \<Rightarrow> Inr (result_envelope rt result)))"

section \<open>Tool 7: base64\<close>

datatype base64_op = B_encode | B_decode

fun base64_op_name :: "base64_op \<Rightarrow> jsstring" where
  "base64_op_name B_encode = js ''encode''"
| "base64_op_name B_decode = js ''decode''"

record base64_args =
  base64_operation :: base64_op
  base64_data :: jsstring
  base64_urlSafe :: "bool option"

text \<open>
  \<open>urlSafe ? Buffer.from(data).toString("base64url") : Buffer.from(data).toString("base64")\<close>
\<close>

definition base64_encoded :: "bool \<Rightarrow> jsstring \<Rightarrow> jsstring" where
  "base64_encoded urlSafe data = base64_encode urlSafe (utf8_encode data)"

text \<open>
  \<open>try { const decoded = Buffer.from(data, urlSafe ? "base64url" : "base64").toString("utf-8");
  ... } catch { throw new Error("Invalid Base64 input"); }\<close>
\<close>

definition base64_decoded :: "bool \<Rightarrow> jsstring \<Rightarrow> jsstring + jsstring" where
  "base64_decoded urlSafe data =
     (case Buffer_from_base64 urlSafe data of
        Inl e \<Rightarrow> Inl (js ''Invalid Base64 input'')
      | Inr buffer \<Rightarrow> Inr (utf8_decode buffer))"

definition base64_response :: "base64_op \<Rightarrow> jsstring \<Rightarrow> bool \<Rightarrow> jsstring \<Rightarrow> json" where
  "base64_response operation data urlSafe result =
     JObj [(js ''operation'', JStr (base64_op_name operation)),
           (js ''input_length'', JNum (number_of_nat (length data))),
           (js ''output_length'', JNum (number_of_nat (length result))),
           (js ''url_safe'', JBool urlSafe),
           (js ''result'', JStr result)]"

definition base64_handler :: "runtime \<Rightarrow> base64_args \<Rightarrow> envelope" where
  "base64_handler rt args =
     try_catch
       (let operation = base64_operation args;
            data = base64_data args;
            urlSafe = (case base64_urlSafe args of None \<Rightarrow> False | Some b \<Rightarrow> b)
        in if operation = B_encode
           then Inr (result_envelope rt
                       (base64_response operation data urlSafe (base64_encoded urlSafe data)))
           else (case base64_decoded urlSafe data of
                   Inl e \<Rightarrow> Inl e
                 | Inr decoded \<Rightarrow>
                     Inr (result_envelope rt (base64_response operation data urlSafe decoded))))"

section \<open>Tool 9: random\<close>

text \<open>
  \<open>Math.random()\<close>: a double in \<open>[0, 1)\<close> with 53 random bits, \<open>k / 2 ^ 53\<close> for the draw
  \<open>k\<close> (V8 leaves the last bit 0).
\<close>

definition Math_random :: "runtime \<Rightarrow> nat \<Rightarrow> jsnumber" where
  "Math_random rt draws = Fin (int (random_source rt draws mod 2 ^ 53)) (- 53)"

datatype random_type = T_integer | T_float | T_hex | T_alphanumeric | T_string | T_boolean

fun random_type_name :: "random_type \<Rightarrow> jsstring" where
  "random_type_name T_integer = js ''integer''"
| "random_type_name T_float = js ''float''"
| "random_type_name T_hex = js ''hex''"
| "random_type_name T_alphanumeric = js ''alphanumeric''"
| "random_type_name T_string = js ''string''"
| "random_type_name T_boolean = js ''boolean''"

record random_args =
  random_type :: "random_type option"
  random_min :: "jsnumber option"
  random_max :: "jsnumber option"
  random_length :: "nat option"
  random_count :: "int option"

text \<open>\<open>chars.charAt(Math.floor(Math.random() * chars.length))\<close>; \<open>charAt\<close> out of range is \<open>""\<close>.\<close>

definition random_index :: "runtime \<Rightarrow> nat \<Rightarrow> nat \<Rightarrow> int" where
  "random_index rt draws n = int_of_num (ffloor (fmul (Math_random rt draws) (number_of_nat n)))"

definition charAt :: "jsstring \<Rightarrow> int \<Rightarrow> jsstring" where
  "charAt s i = (if 0 \<le> i \<and> i < int (length s) then [s ! nat i] else [])"

definition alphanumeric_chars :: jsstring where
  "alphanumeric_chars = js ''ABCDEFGHIJKLMNOPQRSTUVWXYZabcdefghijklmnopqrstuvwxyz0123456789''"

definition allChars :: jsstring where
  "allChars = alphanumeric_chars @ js ''!@#$%^&*''"

text \<open>\<open>n.toString(16)\<close> for an integer \<open>n\<close>.\<close>

function nat_to_hex :: "nat \<Rightarrow> jsstring" where
  "nat_to_hex n =
     (if n < 16 then [hex_digit n] else nat_to_hex (n div 16) @ [hex_digit (n mod 16)])"
  by pat_completeness auto
termination
  by (relation "measure id") auto

definition int_to_hex :: "int \<Rightarrow> jsstring" where
  "int_to_hex n = (if n < 0 then js ''-'' @ nat_to_hex (nat (- n)) else nat_to_hex (nat n))"

text \<open>\<open>Array.from({ length }, f).join("")\<close>, each call of \<open>f\<close> taking one draw.\<close>

fun random_chars :: "(nat \<Rightarrow> jsstring) \<Rightarrow> nat \<Rightarrow> nat \<Rightarrow> jsstring" where
  "random_chars f 0 draws = []"
| "random_chars f (Suc n) draws = f draws @ random_chars f n (Suc draws)"

text \<open>\<open>generate()\<close>: the value and the number of draws it took.\<close>

definition random_generate ::
  "runtime \<Rightarrow> random_type \<Rightarrow> jsnumber \<Rightarrow> jsnumber \<Rightarrow> nat \<Rightarrow> nat \<Rightarrow> json \<times> nat" where
  "random_generate rt type min' max' length' draws =
     (case type of
        T_integer \<Rightarrow>
          (JNum (fadd (ffloor (fmul (Math_random rt draws) (fadd (fsub max' min') (Fin 1 0))))
                   min'),
           1)
      | T_float \<Rightarrow> (JNum (fadd (fmul (Math_random rt draws) (fsub max' min')) min'), 1)
      | T_boolean \<Rightarrow> (JBool (fless (Math_random rt draws) (Fin 1 (- 1))), 1)
      | T_hex \<Rightarrow>
          (JStr (random_chars (\<lambda>d. int_to_hex (random_index rt d 16)) length' draws), length')
      | T_alphanumeric \<Rightarrow>
          (JStr (random_chars (\<lambda>d. charAt alphanumeric_chars
                    (random_index rt d (length alphanumeric_chars))) length' draws),
           length')
      | T_string \<Rightarrow>
          (JStr (random_chars (\<lambda>d. charAt allChars (random_index rt d (length allChars)))
                    length' draws),
           length'))"

text \<open>\<open>for (let i = 0; i < count; i++) results.push(generate());\<close>\<close>

function random_loop ::
  "runtime \<Rightarrow> random_type \<Rightarrow> jsnumber \<Rightarrow> jsnumber \<Rightarrow> nat \<Rightarrow> int \<Rightarrow> int \<Rightarrow> json list \<Rightarrow> nat
     \<Rightarrow> json list \<times> nat" where
  "random_loop rt type min' max' length' count i results draws =
     (if i < count then
        let (v, n) = random_generate rt type min' max' length' draws
        in random_loop rt type min' max' length' count (i + 1) (results @ [v]) (draws + n)
      else (results, draws))"
  by pat_completeness auto
termination
  by (relation "measure (\<lambda>(rt, type, min', max', length', count, i, results, draws). nat (count - i))")
     auto

definition random_handler :: "runtime \<Rightarrow> nat \<Rightarrow> random_args \<Rightarrow> envelope \<times> nat" where
  "random_handler rt draws args =
     (let type = (case random_type args of None \<Rightarrow> T_integer | Some type \<Rightarrow> type);
          min' = (case random_min args of None \<Rightarrow> Fin 0 0 | Some m \<Rightarrow> m);
          max' = (case random_max args of None \<Rightarrow> Fin 100 0 | Some m \<Rightarrow> m);
          length' = (case random_length args of None \<Rightarrow> 16 | Some l \<Rightarrow> l);
          count = (case random_count args of None \<Rightarrow> 1 | Some count \<Rightarrow> count);
          (results, draws') = random_loop rt type min' max' length' count 0 [] draws
      in (try_catch (Inr (result_envelope rt
            (JObj [(js ''type'', JStr (random_type_name type)),
                   (js ''count'', JNum (number_of_nat (length results))),
                   (js ''values'',
                      (if count = 1
                       then (case results of [] \<Rightarrow> JUndefined | v # vs \<Rightarrow> v)
                       else JArr results))]))),
          draws'))"

section \<open>Tool 10: info\<close>

datatype info_detail = D_basic | D_full

record info_args =
  info_detail :: "info_detail option"

definition info_basic :: "runtime \<Rightarrow> (jsstring \<times> json) list" where
  "info_basic rt =
     [(js ''name'', JStr (js ''mcp-echo-tool-enhanced'')),
      (js ''version'', JStr (js ''2.0.0'')),
      (js ''description'', JStr (js ''Enhanced MCP server with 10+ utility tools'')),
      (js ''node_version'', JStr (process_version rt)),
      (js ''platform'', JStr (process_platform rt))]"

definition tool_entry :: "string \<Rightarrow> string \<Rightarrow> json" where
  "tool_entry name description =
     JObj [(js ''name'', JStr (js name)), (js ''description'', JStr (js description))]"

definition info_tools :: json where
  "info_tools =
     JArr [tool_entry ''echo'' ''Enhanced echo with metadata and transformations'',
           tool_entry ''format'' ''Text formatting utilities'',
           tool_entry ''analyze'' ''Text analysis and statistics'',
           tool_entry ''hash'' ''Cryptographic hashing (MD5, SHA256, etc.)'',
           tool_entry ''uuid'' ''UUID generation'',
           tool_entry ''timestamp'' ''Timestamp utilities'',
           tool_entry ''base64'' ''Base64 encoding/decoding'',
           tool_entry ''json'' ''JSON validation and formatting'',
           tool_entry ''random'' ''Random data generator'',
           tool_entry ''info'' ''Server information'']"

definition info_handler :: "runtime \<Rightarrow> info_args \<Rightarrow> envelope" where
  "info_handler rt args =
     try_catch
       (let detail = (case info_detail args of None \<Rightarrow> D_basic | Some detail \<Rightarrow> detail);
            basic = info_basic rt
        in if detail = D_full
           then Inr (result_envelope rt
                  (JObj (basic @
                     [(js ''tools'', info_tools),
                      (js ''capabilities'',
                         JObj [(js ''tools'', JBool True), (js ''resources'', JBool False),
                               (js ''prompts'', JBool False)]),
                      (js ''uptime_seconds'', JNum (process_uptime rt)),
                      (js ''memory_usage'', process_memoryUsage rt)])))
           else Inr (result_envelope rt (JObj basic)))"

section \<open>What a handler's body computes\<close>

text \<open>
  The body of every handler either throws, and the \<open>catch\<close> clause reports the message, or
  returns an object serialised with \<open>JSON.stringify(response, null, 2)\<close>; the json tool
  also returns, for data that does not parse, an object flagged with \<open>isError: true\<close>. The
  outcome of each handler is stated here on its own, to be compared with the envelope the
  handler returns.
\<close>

datatype outcome = Thrown jsstring | Returned json | Flagged json

definition echo_outcome :: "runtime \<Rightarrow> echo_args \<Rightarrow> outcome" where
  "echo_outcome rt args =
     (let response = echo_response rt (echo_message args)
            (case echo_transform args of None \<Rightarrow> Tr_none | Some t \<Rightarrow> t)
      in if echo_includeHash args = Some True then
           (case echo_hashes rt (echo_message args) of
              Inl e \<Rightarrow> Thrown e
            | Inr hashes \<Rightarrow> Returned (JObj (delete_undefined (response @ [(js ''hashes'', hashes)]))))
         else Returned (JObj (delete_undefined response)))"

definition format_outcome :: "runtime \<Rightarrow> format_args \<Rightarrow> outcome" where
  "format_outcome rt args =
     Returned (JObj [(js ''original'', JStr (format_text args)),
                     (js ''operation'', JStr (format_op_name (format_operation args))),
                     (js ''result'',
                        JStr (format_result rt (format_operation args) (format_text args)))])"

definition analyze_outcome :: "runtime \<Rightarrow> analyze_args \<Rightarrow> outcome" where
  "analyze_outcome rt args =
     Returned (JObj (analyze_response rt (analyze_text args)
       @ (if analyze_includeCharFrequency args = Some True
          then [(js ''character_frequency'', analyze_frequency rt (analyze_text args))]
          else [])))"

definition hash_outcome :: "runtime \<Rightarrow> hash_args \<Rightarrow> outcome" where
  "hash_outcome rt args =
     (let algorithm = hash_algorithm_name
            (case hash_algorithm args of None \<Rightarrow> H_sha256 | Some a \<Rightarrow> a);
          encoding = hash_encoding_name (case hash_encoding args of None \<Rightarrow> E_hex | Some e \<Rightarrow> e)
      in case crypto_hash rt algorithm (hash_data args) encoding of
           Inl e \<Rightarrow> Thrown e
         | Inr digest \<Rightarrow>
             Returned (JObj [(js ''input_length'', JNum (number_of_nat (length (hash_data args)))),
                             (js ''algorithm'', JStr algorithm),
                             (js ''encoding'', JStr encoding),
                             (js ''hash'', JStr digest)]))"

definition uuid_outcome :: "runtime \<Rightarrow> nat \<Rightarrow> uuid_args \<Rightarrow> outcome \<times> nat" where
  "uuid_outcome rt draws args =
     (let generated = uuid_loop rt (uuid_uppercase args = Some True)
            (case uuid_count args of None \<Rightarrow> 1 | Some count \<Rightarrow> count) 0 [] draws
      in (Returned (JObj [(js ''version'',
                             JStr (uuid_version_name
                               (case uuid_version args of None \<Rightarrow> V4 | Some v \<Rightarrow> v))),
                          (js ''count'', JNum (number_of_nat (length (fst generated)))),
                          (js ''uuids'', JArr (map JStr (fst generated)))]),
          snd generated))"

definition timestamp_outcome :: "runtime \<Rightarrow> timestamp_args \<Rightarrow> outcome" where
  "timestamp_outcome rt args =
     (let operation = (case timestamp_operation args of None \<Rightarrow> Ts_now | Some operation \<Rightarrow> operation);
          format = (case timestamp_format args of None \<Rightarrow> Fmt_iso | Some format \<Rightarrow> format)
      in case timestamp_date rt operation (timestamp_value args) (timestamp_addMs args) of
           Inl e \<Rightarrow> Thrown e
         | Inr None \<Rightarrow> Thrown (js ''Invalid time value'')
         | Inr (Some t) \<Rightarrow>
             (case (timestamp_result rt format t, time_only rt t) of
                (Inl e, time_part) \<Rightarrow> Thrown e
              | (Inr result, Inl e) \<Rightarrow> Thrown e
              | (Inr result, Inr time_part) \<Rightarrow>
                  Returned
                    (JObj [(js ''operation'', JStr (timestamp_op_name operation)),
                           (js ''format'', JStr (timestamp_format_name format)),
                           (js ''result'', result),
                           (js ''all_formats'',
                              JObj [(js ''iso'', JStr (Date_toISOString rt t)),
                                    (js ''unix_ms'', JNum (number_of_int t)),
                                    (js ''unix_s'', JNum (number_of_int (t div 1000))),
                                    (js ''utc'', JStr (Date_toUTCString rt t)),
                                    (js ''locale'', JStr (Date_toLocaleString rt t)),
                                    (js ''date_only'', JStr (date_only rt t)),
                                    (js ''time_only'', JStr time_part)])])))"

definition base64_outcome :: "runtime \<Rightarrow> base64_args \<Rightarrow> outcome" where
  "base64_outcome rt args =
     (let urlSafe = (base64_urlSafe args = Some True)
      in if base64_operation args = B_encode
         then Returned (base64_response B_encode (base64_data args) urlSafe
                (base64_encoded urlSafe (base64_data args)))
         else (case base64_decoded urlSafe (base64_data args) of
                 Inl e \<Rightarrow> Thrown e
               | Inr decoded \<Rightarrow>
                   Returned (base64_response B_decode (base64_data args) urlSafe decoded)))"

definition json_outcome :: "runtime \<Rightarrow> json_args \<Rightarrow> outcome" where
  "json_outcome rt args =
     (case JSON_parse rt (json_data args) of
        Inl message \<Rightarrow> Flagged (JObj [(js ''valid'', JBool False), (js ''error'', JStr message)])
      | Inr parsed \<Rightarrow>
          (case json_result rt
                  (case json_operation args of None \<Rightarrow> Op_validate | Some operation \<Rightarrow> operation)
                  (json_data args)
                  (case json_indent args of None \<Rightarrow> 2 | Some indent \<Rightarrow> indent) parsed of
             Inl message \<Rightarrow> Thrown message
           | Inr result \<Rightarrow> Returned result))"

definition random_outcome :: "runtime \<Rightarrow> nat \<Rightarrow> random_args \<Rightarrow> outcome \<times> nat" where
  "random_outcome rt draws args =
     (let type = (case random_type args of None \<Rightarrow> T_integer | Some type \<Rightarrow> type);
          count = (case random_count args of None \<Rightarrow> 1 | Some count \<Rightarrow> count);
          generated = random_loop rt type
            (case random_min args of None \<Rightarrow> Fin 0 0 | Some m \<Rightarrow> m)
            (case random_max args of None \<Rightarrow> Fin 100 0 | Some m \<Rightarrow> m)
            (case random_length args of None \<Rightarrow> 16 | Some l \<Rightarrow> l) count 0 [] draws
      in (Returned (JObj [(js ''type'', JStr (random_type_name type)),
                          (js ''count'', JNum (number_of_nat (length (fst generated)))),
                          (js ''values'',
                             (if count = 1
                              then (case fst generated of [] \<Rightarrow> JUndefined | v # vs \<Rightarrow> v)
                              else JArr (fst generated)))]),
          snd generated))"

definition info_outcome :: "runtime \<Rightarrow> info_args \<Rightarrow> outcome" where
  "info_outcome rt args =
     Returned (JObj (info_basic rt
       @ (if info_detail args = Some D_full
          then [(js ''tools'', info_tools),
                (js ''capabilities'',
                   JObj [(js ''tools'', JBool True), (js ''resources'', JBool False),
                         (js ''prompts'', JBool False)]),
                (js ''uptime_seconds'', JNum (process_uptime rt)),
                (js ''memory_usage'', process_memoryUsage rt)]
          else [])))"

section \<open>Schemas and validation\<close>

text \<open>
  Modelled from the spec: the validation of the raw arguments against a tool's schema,
  which the SDK and zod perform and which is not under src/. Per argument, in the schema's
  declared order: an absent argument is an error when it is required and has no default,
  and is replaced by its default or left out otherwise; a present argument is checked
  against its kind, then against its length or value bounds or its enumeration; unknown
  arguments are ignored; the first violation is the result. The schemas themselves are
  those of \<open>src/index.ts\<close>.
\<close>

type_synonym raw_arguments = "(jsstring \<times> json) list"

definition then_validate :: "validation_error + 'a \<Rightarrow> ('a \<Rightarrow> validation_error + 'b)
    \<Rightarrow> validation_error + 'b" where
  "then_validate r f = (case r of Inl e \<Rightarrow> Inl e | Inr a \<Rightarrow> f a)"

definition required :: "raw_arguments \<Rightarrow> string \<Rightarrow> (jsstring \<Rightarrow> json \<Rightarrow> validation_error + 'a)
    \<Rightarrow> validation_error + 'a" where
  "required raw name check =
     (case map_of raw (js name) of
        None \<Rightarrow> Inl (MissingArgument (js name))
      | Some v \<Rightarrow> check (js name) v)"

definition optional :: "raw_arguments \<Rightarrow> string \<Rightarrow> (jsstring \<Rightarrow> json \<Rightarrow> validation_error + 'a)
    \<Rightarrow> validation_error + 'a option" where
  "optional raw name check =
     (case map_of raw (js name) of
        None \<Rightarrow> Inr None
      | Some v \<Rightarrow> then_validate (check (js name) v) (\<lambda>a. Inr (Some a)))"

definition with_default :: "raw_arguments \<Rightarrow> string \<Rightarrow> (jsstring \<Rightarrow> json \<Rightarrow> validation_error + 'a)
    \<Rightarrow> 'a \<Rightarrow> validation_error + 'a option" where
  "with_default raw name check d =
     (case map_of raw (js name) of
        None \<Rightarrow> Inr (Some d)
      | Some v \<Rightarrow> then_validate (check (js name) v) (\<lambda>a. Inr (Some a)))"

text \<open>\<open>z.string()\<close> with \<open>.min\<close> and \<open>.max\<close> on the length.\<close>

definition z_string :: "nat \<Rightarrow> nat option \<Rightarrow> jsstring \<Rightarrow> json \<Rightarrow> validation_error + jsstring" where
  "z_string lo hi name v =
     (case v of
        JStr s \<Rightarrow>
          if length s < lo \<or> (case hi of None \<Rightarrow> False | Some h \<Rightarrow> h < length s)
          then Inl (OutOfRange name) else Inr s
      | _ \<Rightarrow> Inl (TypeMismatch name))"

text \<open>\<open>z.boolean()\<close>, \<open>z.number()\<close> and \<open>z.number().int().min(lo).max(hi)\<close>.\<close>

definition z_boolean :: "jsstring \<Rightarrow> json \<Rightarrow> validation_error + bool" where
  "z_boolean name v = (case v of JBool b \<Rightarrow> Inr b | _ \<Rightarrow> Inl (TypeMismatch name))"

definition z_number :: "jsstring \<Rightarrow> json \<Rightarrow> validation_error + jsnumber" where
  "z_number name v =
     (case v of
        JNum x \<Rightarrow> (if x = NaN then Inl (TypeMismatch name) else Inr x)
      | _ \<Rightarrow> Inl (TypeMismatch name))"

definition z_int :: "int \<Rightarrow> int \<Rightarrow> jsstring \<Rightarrow> json \<Rightarrow> validation_error + int" where
  "z_int lo hi name v =
     (case v of
        JNum x \<Rightarrow>
          if \<not> is_integer x then Inl (TypeMismatch name)
          else if int_of_num x < lo \<or> hi < int_of_num x then Inl (OutOfRange name)
          else Inr (int_of_num x)
      | _ \<Rightarrow> Inl (TypeMismatch name))"

text \<open>\<open>z.enum([...])\<close>: the value must be the name of one of the members.\<close>

definition z_enum :: "('a \<Rightarrow> jsstring) \<Rightarrow> 'a list \<Rightarrow> jsstring \<Rightarrow> json \<Rightarrow> validation_error + 'a" where
  "z_enum name_of members name v =
     (case v of
        JStr s \<Rightarrow>
          (case find (\<lambda>m. name_of m = s) members of
             None \<Rightarrow> Inl (InvalidEnumValue name)
           | Some m \<Rightarrow> Inr m)
      | _ \<Rightarrow> Inl (TypeMismatch name))"

fun transform_name :: "transform \<Rightarrow> jsstring" where
  "transform_name Tr_none = js ''none''"
| "transform_name Tr_uppercase = js ''uppercase''"
| "transform_name Tr_lowercase = js ''lowercase''"
| "transform_name Tr_titlecase = js ''titlecase''"
| "transform_name Tr_snake_case = js ''snake_case''"
| "transform_name Tr_kebab_case = js ''kebab-case''"
| "transform_name Tr_camelCase = js ''camelCase''"

fun info_detail_name :: "info_detail \<Rightarrow> jsstring" where
  "info_detail_name D_basic = js ''basic''"
| "info_detail_name D_full = js ''full''"

text \<open>The ten \<open>inputSchema\<close> objects of \<open>src/index.ts\<close>.\<close>

definition validate_echo :: "raw_arguments \<Rightarrow> validation_error + echo_args" where
  "validate_echo raw =
     then_validate (required raw ''message'' (z_string 1 (Some 10000))) (\<lambda>message.
     then_validate (optional raw ''transform'' (z_enum transform_name
       [Tr_none, Tr_uppercase, Tr_lowercase, Tr_titlecase, Tr_snake_case, Tr_kebab_case,
        Tr_camelCase])) (\<lambda>transform.
     then_validate (optional raw ''includeHash'' z_boolean) (\<lambda>includeHash.
     Inr \<lparr> echo_message = message, echo_transform = transform,
           echo_includeHash = includeHash \<rparr>)))"

definition validate_format :: "raw_arguments \<Rightarrow> validation_error + format_args" where
  "validate_format raw =
     then_validate (required raw ''text'' (z_string 1 None)) (\<lambda>text.
     then_validate (required raw ''operation'' (z_enum format_op_name
       [F_uppercase, F_lowercase, F_titlecase, F_reverse, F_trim, F_remove_spaces,
        F_remove_punctuation, F_slugify, F_sentence_case])) (\<lambda>operation.
     Inr \<lparr> format_text = text, format_operation = operation \<rparr>))"

definition validate_analyze :: "raw_arguments \<Rightarrow> validation_error + analyze_args" where
  "validate_analyze raw =
     then_validate (required raw ''text'' (z_string 1 None)) (\<lambda>text.
     then_validate (optional raw ''includeCharFrequency'' z_boolean) (\<lambda>includeCharFrequency.
     Inr \<lparr> analyze_text = text, analyze_includeCharFrequency = includeCharFrequency \<rparr>))"

definition validate_hash :: "raw_arguments \<Rightarrow> validation_error + hash_args" where
  "validate_hash raw =
     then_validate (required raw ''data'' (z_string 0 None)) (\<lambda>data.
     then_validate (with_default raw ''algorithm'' (z_enum hash_algorithm_name
       [H_md5, H_sha1, H_sha256, H_sha512, H_sha3_256]) H_sha256) (\<lambda>algorithm.
     then_validate (with_default raw ''encoding'' (z_enum hash_encoding_name
       [E_hex, E_base64, E_base64url]) E_hex) (\<lambda>encoding.
     Inr \<lparr> hash_data = data, hash_algorithm = algorithm, hash_encoding = encoding \<rparr>)))"

definition validate_uuid :: "raw_arguments \<Rightarrow> validation_error + uuid_args" where
  "validate_uuid raw =
     then_validate (with_default raw ''version'' (z_enum uuid_version_name [V4, V7]) V4)
       (\<lambda>version.
     then_validate (with_default raw ''count'' (z_int 1 100) 1) (\<lambda>count.
     then_validate (with_default raw ''uppercase'' z_boolean False) (\<lambda>uppercase.
     Inr \<lparr> uuid_version = version, uuid_count = count, uuid_uppercase = uppercase \<rparr>)))"

definition validate_timestamp :: "raw_arguments \<Rightarrow> validation_error + timestamp_args" where
  "validate_timestamp raw =
     then_validate (with_default raw ''operation'' (z_enum timestamp_op_name
       [Ts_now, Ts_convert, Ts_add, Ts_format]) Ts_now) (\<lambda>operation.
     then_validate (optional raw ''value'' (z_string 0 None)) (\<lambda>v.
     then_validate (with_default raw ''format'' (z_enum timestamp_format_name
       [Fmt_iso, Fmt_unix_ms, Fmt_unix_s, Fmt_utc, Fmt_locale, Fmt_date_only, Fmt_time_only])
       Fmt_iso) (\<lambda>format.
     then_validate (optional raw ''addMs'' z_number) (\<lambda>addMs.
     Inr \<lparr> timestamp_operation = operation, timestamp_value = v, timestamp_format = format,
           timestamp_addMs = addMs \<rparr>))))"

definition validate_base64 :: "raw_arguments \<Rightarrow> validation_error + base64_args" where
  "validate_base64 raw =
     then_validate (required raw ''operation'' (z_enum base64_op_name [B_encode, B_decode]))
       (\<lambda>operation.
     then_validate (required raw ''data'' (z_string 0 None)) (\<lambda>data.
     then_validate (with_default raw ''urlSafe'' z_boolean False) (\<lambda>urlSafe.
     Inr \<lparr> base64_operation = operation, base64_data = data, base64_urlSafe = urlSafe \<rparr>)))"

definition validate_json :: "raw_arguments \<Rightarrow> validation_error + json_args" where
  "validate_json raw =
     then_validate (with_default raw ''operation'' (z_enum json_op_name
       [Op_validate, Op_format, Op_minify, Op_get_keys, Op_get_type]) Op_validate)
       (\<lambda>operation.
     then_validate (required raw ''data'' (z_string 0 None)) (\<lambda>data.
     then_validate (with_default raw ''indent'' (z_int 0 8) 2) (\<lambda>indent.
     Inr \<lparr> json_operation = operation, json_data = data,
           json_indent = map_option nat indent \<rparr>)))"

definition validate_random :: "raw_arguments \<Rightarrow> validation_error + random_args" where
  "validate_random raw =
     then_validate (with_default raw ''type'' (z_enum random_type_name
       [T_integer, T_float, T_hex, T_alphanumeric, T_string, T_boolean]) T_integer) (\<lambda>type.
     then_validate (optional raw ''min'' z_number) (\<lambda>min'.
     then_validate (optional raw ''max'' z_number) (\<lambda>max'.
     then_validate (with_default raw ''length'' (z_int 1 1000) 16) (\<lambda>length'.
     then_validate (with_default raw ''count'' (z_int 1 100) 1) (\<lambda>count.
     Inr \<lparr> random_type = type, random_min = min', random_max = max',
           random_length = map_option nat length', random_count = count \<rparr>)))))"

definition validate_info :: "raw_arguments \<Rightarrow> validation_error + info_args" where
  "validate_info raw =
     then_validate (with_default raw ''detail'' (z_enum info_detail_name [D_basic, D_full])
       D_basic) (\<lambda>detail.
     Inr \<lparr> info_detail = detail \<rparr>)"

section \<open>Dispatch\<close>

text \<open>
  Modelled from the spec: the dispatcher, which is the \<open>McpServer\<close> of the SDK and is not
  under src/. It looks the tool name up in the registry and returns the failure
  \<open>Unknown tool: <name>\<close> when it is absent; it validates the arguments and returns the
  failure with the validation error's message when they are invalid; otherwise it runs the
  handler of the tool on the validated arguments. A failure is the error envelope. The
  state is the number of draws taken from the random source.
\<close>

datatype tool =
  Echo | Format | Analyze | Hash | Uuid | Timestamp | Base64 | Json | Random | Info

definition registry :: "(jsstring \<times> tool) list" where
  "registry =
     [(js ''echo'', Echo), (js ''format'', Format), (js ''analyze'', Analyze),
      (js ''hash'', Hash), (js ''uuid'', Uuid), (js ''timestamp'', Timestamp),
      (js ''base64'', Base64), (js ''json'', Json), (js ''random'', Random),
      (js ''info'', Info)]"

text \<open>The validated arguments of a call, by tool, and the validation of the raw arguments.\<close>

datatype tool_args =
  Echo_args echo_args | Format_args format_args | Analyze_args analyze_args
  | Hash_args hash_args | Uuid_args uuid_args | Timestamp_args timestamp_args
  | Base64_args base64_args | Json_args json_args | Random_args random_args
  | Info_args info_args

definition validate :: "tool \<Rightarrow> raw_arguments \<Rightarrow> validation_error + tool_args" where
  "validate t raw =
     (case t of
        Echo \<Rightarrow> then_validate (validate_echo raw) (\<lambda>args. Inr (Echo_args args))
      | Format \<Rightarrow> then_validate (validate_format raw) (\<lambda>args. Inr (Format_args args))
      | Analyze \<Rightarrow> then_validate (validate_analyze raw) (\<lambda>args. Inr (Analyze_args args))
      | Hash \<Rightarrow> then_validate (validate_hash raw) (\<lambda>args. Inr (Hash_args args))
      | Uuid \<Rightarrow> then_validate (validate_uuid raw) (\<lambda>args. Inr (Uuid_args args))
      | Timestamp \<Rightarrow> then_validate (validate_timestamp raw) (\<lambda>args. Inr (Timestamp_args args))
      | Base64 \<Rightarrow> then_validate (validate_base64 raw) (\<lambda>args. Inr (Base64_args args))
      | Json \<Rightarrow> then_validate (validate_json raw) (\<lambda>args. Inr (Json_args args))
      | Random \<Rightarrow> then_validate (validate_random raw) (\<lambda>args. Inr (Random_args args))
      | Info \<Rightarrow> then_validate (validate_info raw) (\<lambda>args. Inr (Info_args args)))"

text \<open>The handler of the tool, run on the validated arguments.\<close>

fun run_handler :: "runtime \<Rightarrow> nat \<Rightarrow> tool_args \<Rightarrow> envelope \<times> nat" where
  "run_handler rt draws (Echo_args args) = (echo_handler rt args, draws)"
| "run_handler rt draws (Format_args args) = (format_handler rt args, draws)"
| "run_handler rt draws (Analyze_args args) = (analyze_handler rt args, draws)"
| "run_handler rt draws (Hash_args args) = (hash_handler rt args, draws)"
| "run_handler rt draws (Uuid_args args) = uuid_handler rt draws args"
| "run_handler rt draws (Timestamp_args args) = (timestamp_handler rt args, draws)"
| "run_handler rt draws (Base64_args args) = (base64_handler rt args, draws)"
| "run_handler rt draws (Json_args args) = (json_handler rt args, draws)"
| "run_handler rt draws (Random_args args) = random_handler rt draws args"
| "run_handler rt draws (Info_args args) = (info_handler rt args, draws)"

definition callTool :: "runtime \<Rightarrow> nat \<Rightarrow> jsstring \<Rightarrow> raw_arguments \<Rightarrow> envelope \<times> nat" where
  "callTool rt draws name raw =
     (case map_of registry name of
        None \<Rightarrow> (error_envelope (js ''Unknown tool: '' @ name), draws)
      | Some t \<Rightarrow>
          (case validate t raw of
             Inl e \<Rightarrow> (error_envelope (validation_message rt e), draws)
           | Inr args \<Rightarrow> run_handler rt draws args))"

text \<open>The outcome of the handler of the tool, with the number of draws taken.\<close>

fun tool_outcome :: "runtime \<Rightarrow> nat \<Rightarrow> tool_args \<Rightarrow> outcome \<times> nat" where
  "tool_outcome rt draws (Echo_args args) = (echo_outcome rt args, draws)"
| "tool_outcome rt draws (Format_args args) = (format_outcome rt args, draws)"
| "tool_outcome rt draws (Analyze_args args) = (analyze_outcome rt args, draws)"
| "tool_outcome rt draws (Hash_args args) = (hash_outcome rt args, draws)"
| "tool_outcome rt draws (Uuid_args args) = uuid_outcome rt draws args"
| "tool_outcome rt draws (Timestamp_args args) = (timestamp_outcome rt args, draws)"
| "tool_outcome rt draws (Base64_args args) = (base64_outcome rt args, draws)"
| "tool_outcome rt draws (Json_args args) = (json_outcome rt args, draws)"
| "tool_outcome rt draws (Random_args args) = random_outcome rt draws args"
| "tool_outcome rt draws (Info_args args) = (info_outcome rt args, draws)"

text \<open>
  The envelope that reports an outcome: a thrown error as \<open>Error: <message>\<close> with
  \<open>isError\<close> true, a returned object as its pretty-printed JSON without \<open>isError\<close>, a
  flagged object as its pretty-printed JSON with \<open>isError\<close> true.
\<close>

fun spec_envelope :: "runtime \<Rightarrow> outcome \<Rightarrow> envelope" where
  "spec_envelope rt (Thrown message) = \<lparr> content_text = Some (js ''Error: '' @ message), isError = Some True \<rparr>"
| "spec_envelope rt (Returned response) = \<lparr> content_text = stringify rt 2 response, isError = None \<rparr>"
| "spec_envelope rt (Flagged response) = \<lparr> content_text = stringify rt 2 response, isError = Some True \<rparr>"

section \<open>A runtime for the examples\<close>

text \<open>
  One runtime, to evaluate the handlers on concrete inputs: numbers are rendered for the
  naturals only, \<open>JSON.parse\<close> knows the texts the examples use, and the rest is constant.
\<close>

text \<open>The text \<open>[7, {"a": [{"z": null}]}]\<close> and the value it denotes.\<close>

definition example_text :: jsstring where
  "example_text =
     js ''[7, {'' @ [0x22] @ js ''a'' @ [0x22] @ js '': [{'' @ [0x22] @ js ''z'' @ [0x22]
       @ js '': null}]}]''"

definition example_elements :: "json list" where
  "example_elements = [JNum (Fin 7 0), JObj [(js ''a'', JArr [JObj [(js ''z'', JNull)]])]]"

definition example_parse :: "jsstring \<Rightarrow> jsstring + json" where
  "example_parse s =
     (if s = example_text then Inr (JArr example_elements)
      else if s = js ''{not json''
      then Inl (js ''Expected property name or '}' in JSON at position 1'')
      else Inl (js ''Unexpected end of JSON input''))"

definition example_runtime :: runtime where
  "example_runtime =
     \<lparr> unicode_toLowerCase = (\<lambda>s. s),
       unicode_toUpperCase = (\<lambda>s. s),
       Number_toString = (\<lambda>x. nat_to_dec (nat (int_of_num x))),
       quotient_toFixed = (\<lambda>a b digits. nat_to_dec (nat (a div b))),
       JSON_parse = example_parse,
       Date_now = (\<lambda>n. 0),
       Date_parse = (\<lambda>s. None),
       Date_toISOString = (\<lambda>t. js ''1970-01-01T00:00:00.000Z''),
       Date_toUTCString = (\<lambda>t. js ''Thu, 01 Jan 1970 00:00:00 GMT''),
       Date_toLocaleString = (\<lambda>t. js ''1/1/1970, 12:00:00 AM''),
       crypto_hash = (\<lambda>algorithm data encoding. Inr []),
       random_source = (\<lambda>n. n),
       process_version = js ''v20.0.0'',
       process_platform = js ''linux'',
       process_uptime = Fin 1 0,
       process_memoryUsage = JObj [],
       validation_message = (\<lambda>e. js ''Invalid arguments'') \<rparr>"

section \<open>Facts about the string primitives\<close>

declare split_runs.simps [simp del]
declare replace_runs.simps [simp del]
declare nat_to_dec.simps [simp del]

lemma length_match_g: "length (or_empty (match_g P s)) = length (filter P s)"
  by (simp add: match_g_def or_empty_def split: list.splits)

lemma count_tokens_no_space:
  "\<forall>c \<in> set s. \<not> is_space c \<Longrightarrow> count_tokens b s = (if s = [] \<or> b then 0 else 1)"
  by (induction s arbitrary: b) auto

lemma count_tokens_append_space:
  "\<forall>c \<in> set t. \<not> is_space c \<Longrightarrow> is_space c \<Longrightarrow>
   count_tokens b (t @ c # cs) = count_tokens b t + count_tokens False cs"
  by (induction t arbitrary: b) auto

lemma count_tokens_dropWhile:
  "count_tokens False (dropWhile is_space s) = count_tokens False s"
  by (induction s) auto

lemma count_tokens_all_space: "\<forall>c \<in> set s. is_space c \<Longrightarrow> count_tokens b s = 0"
  by (induction s arbitrary: b) auto

lemma count_tokens_append_spaces:
  "\<forall>c \<in> set t. is_space c \<Longrightarrow> count_tokens b (s @ t) = count_tokens b s"
  by (induction s arbitrary: b) (auto simp: count_tokens_all_space)

lemma split_runs_count:
  "length (filter (\<lambda>w. w \<noteq> []) (split_runs is_space s)) = count_tokens False s"
proof (induction is_space s rule: split_runs.induct)
  case (1 s)
  define tok where "tok = takeWhile (\<lambda>c. \<not> is_space c) s"
  define rest where "rest = dropWhile (\<lambda>c. \<not> is_space c) s"
  have s: "s = tok @ rest"
    by (simp add: tok_def rest_def)
  have tok: "\<forall>c \<in> set tok. \<not> is_space c"
    unfolding tok_def by (auto dest: set_takeWhileD)
  show ?case
  proof (cases "rest = []")
    case True
    then have "split_runs is_space s = [tok]"
      using split_runs.simps [of is_space s]
      unfolding Let_def tok_def [symmetric] rest_def [symmetric] by simp
    moreover have "s = tok"
      using s True by simp
    ultimately show ?thesis
      using count_tokens_no_space [OF tok, of False] by simp
  next
    case False
    then obtain c cs where r: "rest = c # cs"
      by (cases rest) auto
    then have c: "is_space c"
      using hd_dropWhile [of "\<lambda>c. \<not> is_space c" s] False by (simp add: rest_def)
    have sp: "split_runs is_space s = tok # split_runs is_space (dropWhile is_space rest)"
      using False split_runs.simps [of is_space s]
      unfolding Let_def tok_def [symmetric] rest_def [symmetric] by simp
    have ih: "length (filter (\<lambda>w. w \<noteq> []) (split_runs is_space (dropWhile is_space rest)))
        = count_tokens False (dropWhile is_space rest)"
      using "1" [OF tok_def rest_def False] .
    have "count_tokens False s = count_tokens False tok + count_tokens False cs"
      using count_tokens_append_space [OF tok c] s r by simp
    moreover have "count_tokens False (dropWhile is_space rest) = count_tokens False cs"
      using count_tokens_dropWhile [of rest] r c by simp
    ultimately show ?thesis
      using sp ih count_tokens_no_space [OF tok, of False] by simp
  qed
qed

lemma count_tokens_trim: "count_tokens False (trim s) = count_tokens False s"
proof -
  define u where "u = dropWhile is_space s"
  have "rev u = takeWhile is_space (rev u) @ dropWhile is_space (rev u)"
    by simp
  then have "rev (rev u) = rev (dropWhile is_space (rev u)) @ rev (takeWhile is_space (rev u))"
    by (metis rev_append)
  then have "u = trim s @ rev (takeWhile is_space (rev u))"
    by (simp add: trim_def u_def)
  moreover have "\<forall>c \<in> set (rev (takeWhile is_space (rev u))). is_space c"
    by (auto dest: set_takeWhileD)
  ultimately have "count_tokens False u = count_tokens False (trim s)"
    using count_tokens_append_spaces by metis
  then show ?thesis
    by (simp add: u_def count_tokens_dropWhile)
qed

lemma unat_jschar_eq: "(c :: jschar) = d \<longleftrightarrow> unat c = unat d"
  by (simp add: word_unat_eq_iff)

lemma classes_disjoint:
  "(if is_letter c then 1 else 0) + (if is_digit c then 1 else 0) + (if is_space c then 1 else 0)
     + (if \<not> (is_word c \<or> is_space c) then 1 else 0) + (if c = 0x5F then 1 else 0) = (1::int)"
  unfolding is_letter_def is_digit_def is_space_def is_word_def word_le_nat_alt unat_jschar_eq
  by simp

lemma composition_count:
  "int (length (filter is_letter s)) + int (length (filter is_digit s))
     + int (length (filter is_space s))
     + int (length (filter (\<lambda>c. \<not> (is_word c \<or> is_space c)) s))
     + int (length (filter (\<lambda>c. c = 0x5F) s)) = int (length s)"
proof (induction s)
  case Nil
  show ?case by simp
next
  case (Cons c s)
  show ?case
    using Cons classes_disjoint [of c] by (simp split: if_splits)
qed

lemma replace_runs_set:
  "c \<in> set (replace_runs P r s) \<Longrightarrow> c \<in> set r \<or> (c \<in> set s \<and> \<not> P c)"
proof (induction P r s rule: replace_runs.induct)
  case (1 P r)
  then show ?case by (simp add: replace_runs.simps)
next
  case (2 P r d ds)
  show ?case
  proof (cases "P d")
    case True
    then have "c \<in> set r \<or> c \<in> set (replace_runs P r (dropWhile P ds))"
      using 2(3) by (simp add: replace_runs.simps)
    then show ?thesis
      using 2(1) [OF True] by (auto dest: set_dropWhileD)
  next
    case False
    then have "c = d \<or> c \<in> set (replace_runs P r ds)"
      using 2(3) by (simp add: replace_runs.simps)
    then show ?thesis
      using 2(2) [OF False] False by auto
  qed
qed

lemma trim_no_space: "\<forall>c \<in> set s. \<not> is_space c \<Longrightarrow> trim s = s"
proof -
  assume a: "\<forall>c \<in> set s. \<not> is_space c"
  have d: "dropWhile is_space t = t" if "\<forall>c \<in> set t. \<not> is_space c" for t
    using that by (cases t) auto
  have "dropWhile is_space (rev s) = rev s"
    using a by (intro d) simp
  then show ?thesis
    using d [OF a] by (simp add: trim_def)
qed

lemma hyphen_not_space: "\<not> is_space 0x2D"
  by (simp add: is_space_def)

lemma slug_no_space:
  "\<forall>c \<in> set (replace_runs (\<lambda>c. c = 0x2D) (js ''-'') (replace_runs is_space (js ''-'') s)).
     \<not> is_space c"
proof
  fix c
  assume "c \<in> set (replace_runs (\<lambda>c. c = 0x2D) (js ''-'') (replace_runs is_space (js ''-'') s))"
  then have "c \<in> set (js ''-'') \<or> c \<in> set (replace_runs is_space (js ''-'') s)"
    using replace_runs_set by blast
  then have "c = 0x2D \<or> (c \<in> set s \<and> \<not> is_space c)"
    using replace_runs_set [of c is_space "js ''-''" s] by (auto simp: js_def)
  then show "\<not> is_space c"
    using hyphen_not_space by auto
qed

lemma nat_to_dec_not_Nil: "nat_to_dec n \<noteq> []"
  by (subst nat_to_dec.simps) simp

lemma keys_of_elements_index:
  "j < length xs \<Longrightarrow> nat_to_dec (i + j) \<in> set (keys_of_elements xs i [])"
proof (induction xs arbitrary: i j)
  case Nil
  then show ?case by simp
next
  case (Cons x xs)
  show ?case
  proof (cases j)
    case 0
    then show ?thesis by (simp add: Let_def)
  next
    case (Suc j')
    then have "nat_to_dec (Suc (i + j')) \<in> set (keys_of_elements xs (Suc i) [])"
      using Cons.IH [of j' "Suc i"] Cons.prems by simp
    then show ?thesis
      using Suc by (simp add: Let_def)
  qed
qed

lemma keys_of_properties_member:
  "(k, v) \<in> set kvs \<Longrightarrow> p \<noteq> [] \<Longrightarrow> p @ js ''.'' @ k \<in> set (keys_of_properties kvs p)"
  by (induction kvs) (auto simp: Let_def)

lemma keys_of_elements_nested:
  "j < length xs \<Longrightarrow> xs ! j = JObj kvs \<Longrightarrow> (k, v) \<in> set kvs \<Longrightarrow>
   nat_to_dec (i + j) @ js ''.'' @ k \<in> set (keys_of_elements xs i [])"
proof (induction xs arbitrary: i j)
  case Nil
  then show ?case by simp
next
  case (Cons x xs)
  show ?case
  proof (cases j)
    case 0
    then have "x = JObj kvs"
      using Cons.prems by simp
    then show ?thesis
      using 0 Cons.prems keys_of_properties_member [OF Cons.prems(3) nat_to_dec_not_Nil [of i]]
      by (simp add: Let_def)
  next
    case (Suc j')
    then have "nat_to_dec (Suc (i + j')) @ js ''.'' @ k \<in> set (keys_of_elements xs (Suc i) [])"
      using Cons.IH [of j' "Suc i"] Cons.prems by simp
    then show ?thesis
      using Suc by (simp add: Let_def)
  qed
qed

lemma keys_of_properties_array:
  "keys_of_properties ((k, JArr ys) # rest) p
     = (if p \<noteq> [] then p @ js ''.'' @ k else k) # keys_of_properties rest p"
  by (simp add: Let_def)

lemma keys_follow_spec:
  shows "prefix \<noteq> [] \<longrightarrow>
      (case v of JObj kvs' \<Rightarrow> getAllKeys v prefix | _ \<Rightarrow> [])
        = map (\<lambda>path. prefix @ js ''.'' @ path) (spec_paths v)"
    and "prefix \<noteq> [] \<longrightarrow>
      keys_of_properties kvs prefix
        = map (\<lambda>path. prefix @ js ''.'' @ path) (spec_property_paths kvs)"
    and "prefix = [] \<longrightarrow>
      keys_of_elements xs i prefix
        = concat (map (\<lambda>(j, v). nat_to_dec j
                         # map (\<lambda>path. nat_to_dec j @ js ''.'' @ path) (spec_paths v))
                    (enumerate i xs))"
proof (induction v prefix and kvs prefix and xs i prefix
    rule: getAllKeys_keys_of_properties_keys_of_elements.induct)
  case (9 key v rest prefix)
  show ?case
  proof
    assume p: "prefix \<noteq> []"
    have full: "prefix @ js ''.'' @ key \<noteq> []"
      using p by simp
    have inner: "(case v of JObj kvs' \<Rightarrow> getAllKeys v (prefix @ js ''.'' @ key) | _ \<Rightarrow> [])
        = map (\<lambda>path. (prefix @ js ''.'' @ key) @ js ''.'' @ path) (spec_paths v)"
    proof (cases v)
      case (JObj kvs')
      then show ?thesis
        using 9(1) [of "prefix @ js ''.'' @ key" kvs'] p full by simp
    qed simp_all
    have rest: "keys_of_properties rest prefix
        = map (\<lambda>path. prefix @ js ''.'' @ path) (spec_property_paths rest)"
      using 9(2) p by simp
    show "keys_of_properties ((key, v) # rest) prefix
        = map (\<lambda>path. prefix @ js ''.'' @ path) (spec_property_paths ((key, v) # rest))"
      using p inner rest by (simp add: Let_def comp_def)
  qed
next
  case (11 v rest i prefix)
  show ?case
  proof
    assume p: "prefix = []"
    have full: "nat_to_dec i \<noteq> []"
      by (rule nat_to_dec_not_Nil)
    have inner: "(case v of JObj kvs' \<Rightarrow> getAllKeys v (nat_to_dec i) | _ \<Rightarrow> [])
        = map (\<lambda>path. nat_to_dec i @ js ''.'' @ path) (spec_paths v)"
    proof (cases v)
      case (JObj kvs')
      then show ?thesis
        using 11(1) [of "nat_to_dec i" "nat_to_dec i" kvs'] p full by simp
    qed simp_all
    have rest: "keys_of_elements rest (Suc i) prefix
        = concat (map (\<lambda>(j, v). nat_to_dec j
                         # map (\<lambda>path. nat_to_dec j @ js ''.'' @ path) (spec_paths v))
                    (enumerate (Suc i) rest))"
      using 11(2) p by simp
    show "keys_of_elements (v # rest) i prefix
        = concat (map (\<lambda>(j, v). nat_to_dec j
                         # map (\<lambda>path. nat_to_dec j @ js ''.'' @ path) (spec_paths v))
                    (enumerate i (v # rest)))"
      using p inner rest by (simp add: Let_def)
  qed
qed simp_all

lemma json_get_keys_spec: "json_get_keys (JArr xs) = spec_array_keys xs"
  using keys_follow_spec(3) [of "[]" xs 0] by (simp add: json_get_keys_def spec_array_keys_def)

lemma spec_keys_example:
  "spec_array_keys example_elements = [js ''0'', js ''1'', js ''1.a'']"
  "spec_array_keys [JArr [JNum (Fin 1 0), JNum (Fin 2 0)]] = [js ''0'']"
  "spec_array_keys [JObj [(js ''a'', JObj [(js ''b'', JNum (Fin 1 0))])]]
     = [js ''0'', js ''0.a'', js ''0.a.b'']"
  by (simp_all add: spec_array_keys_def example_elements_def enumerate_eq_zip
      nat_to_dec.simps js_def upt_rec)

section \<open>Facts about numbers and the random tool\<close>

declare bit_length.simps [simp del]

lemma bit_length_less: "n < 2 ^ bit_length n"
proof (induction n rule: bit_length.induct)
  case (1 n)
  show ?case
  proof (cases "n = 0")
    case True
    then show ?thesis by (simp add: bit_length.simps)
  next
    case False
    then have "n div 2 < 2 ^ bit_length (n div 2)"
      using 1 by simp
    then have "n < 2 * 2 ^ bit_length (n div 2)"
      by linarith
    then show ?thesis
      using False by (simp add: bit_length.simps [of n])
  qed
qed

lemma bit_length_ge: "0 < n \<Longrightarrow> 2 ^ (bit_length n - 1) \<le> n"
proof (induction n rule: bit_length.induct)
  case (1 n)
  show ?case
  proof (cases "n div 2 = 0")
    case True
    then have "n = 1"
      using 1(2) by linarith
    then show ?thesis
      by (simp add: bit_length.simps)
  next
    case False
    then have ih: "2 ^ (bit_length (n div 2) - 1) \<le> n div 2"
      using 1 by simp
    have pos: "0 < bit_length (n div 2)"
      using False by (simp add: bit_length.simps [of "n div 2"])
    have "bit_length n = Suc (bit_length (n div 2))"
      using 1(2) by (simp add: bit_length.simps [of n])
    then have "(2::nat) ^ (bit_length n - 1) = 2 * 2 ^ (bit_length (n div 2) - 1)"
      using pos by (cases "bit_length (n div 2)") simp_all
    then show ?thesis
      using ih by linarith
  qed
qed

lemma bit_length_le: "n < 2 ^ k \<Longrightarrow> bit_length n \<le> k"
proof (rule ccontr)
  assume a: "n < 2 ^ k" and "\<not> bit_length n \<le> k"
  then have k: "k \<le> bit_length n - 1"
    by simp
  then have "0 < n"
    using \<open>\<not> bit_length n \<le> k\<close> by (cases "n = 0") (simp_all add: bit_length.simps)
  then have "2 ^ (bit_length n - 1) \<le> n"
    by (rule bit_length_ge)
  moreover have "(2::nat) ^ k \<le> 2 ^ (bit_length n - 1)"
    using k by (simp add: power_increasing)
  ultimately show False
    using a by linarith
qed


lemma fround_exact:
  "\<bar>m\<bar> < 2 ^ 53 \<Longrightarrow> - 1074 \<le> e \<Longrightarrow> e \<le> 0 \<Longrightarrow> fround m e = Fin m e"
proof -
  assume m: "\<bar>m\<bar> < 2 ^ 53" and e: "- 1074 \<le> e" "e \<le> 0"
  have "nat \<bar>m\<bar> < 2 ^ 53"
    using m by (simp add: nat_less_iff)
  then have "bit_length (nat \<bar>m\<bar>) \<le> 53"
    by (rule bit_length_le)
  then show ?thesis
    using e by (simp add: fround_def rounded_def finite_or_infinite_def Let_def)
qed












declare random_loop.simps [simp del]












section \<open>Facts about what the echo handler reports\<close>

lemma echo_stats_reported:
  "map_of (delete_undefined (echo_response rt m t @ extra)) (js ''stats'') = Some (echo_stats rt m)"
  by (simp add: echo_response_def delete_undefined_def echo_stats_def js_def)

lemma echo_stats_counts:
  "\<exists>stats. echo_stats rt m = JObj stats
     \<and> map_of stats (js ''word_count'') = Some (JNum (number_of_int (echo_wordCount m)))
     \<and> map_of stats (js ''char_count'') = Some (JNum (number_of_int (echo_charCount m)))"
  by (simp add: echo_stats_def js_def)

lemma echo_handler_plain:
  "echo_includeHash args \<noteq> Some True \<Longrightarrow>
   echo_handler rt args = result_envelope rt (JObj (delete_undefined
     (echo_response rt (echo_message args)
        (case echo_transform args of None \<Rightarrow> Tr_none | Some t \<Rightarrow> t) @ [])))"
  by (cases "echo_includeHash args") (auto simp add: echo_handler_def try_catch_def Let_def)

lemma echo_handler_hashed:
  "echo_includeHash args = Some True \<Longrightarrow> echo_hashes rt (echo_message args) = Inr h \<Longrightarrow>
   echo_handler rt args = result_envelope rt (JObj (delete_undefined
     (echo_response rt (echo_message args)
        (case echo_transform args of None \<Rightarrow> Tr_none | Some t \<Rightarrow> t) @ [(js ''hashes'', h)])))"
  by (simp add: echo_handler_def try_catch_def Let_def)

lemma echo_handler_thrown:
  "echo_includeHash args = Some True \<Longrightarrow> echo_hashes rt (echo_message args) = Inl e \<Longrightarrow>
   echo_handler rt args = error_envelope e"
  by (simp add: echo_handler_def try_catch_def Let_def)

lemma number_of_small: "\<bar>n\<bar> < 2 ^ 53 \<Longrightarrow> number_of_int n = Fin n 0"
  by (simp add: number_of_int_def fround_exact)

section \<open>Facts about the UUID generator\<close>

lemma upt16: "[0..<16] = [0, 1, 2, 3, 4, 5, 6, 7, 8, 9, 10, 11, 12, 13, 14, 15::nat]"
  by code_simp

lemma upt36: "[0..<36] = [0, 1, 2, 3, 4, 5, 6, 7, 8, 9, 10, 11, 12, 13, 14, 15, 16, 17, 18, 19,
    20, 21, 22, 23, 24, 25, 26, 27, 28, 29, 30, 31, 32, 33, 34, 35::nat]"
  by code_simp

lemma is_hex_digit: "n < 16 \<Longrightarrow> is_hex (hex_digit n)"
proof -
  assume "n < 16"
  then have "n \<in> set [0..<16]" by simp
  then show ?thesis
    unfolding upt16 by (auto simp: is_hex_def hex_digit_def is_digit_def)
qed

lemma hex_digit_4: "hex_digit 4 = 0x34"
  by (simp add: hex_digit_def)

lemma hex_digit_variant: "8 \<le> n \<Longrightarrow> n < 12 \<Longrightarrow> hex_digit n \<in> {0x38, 0x39, 0x61, 0x62}"
proof -
  assume "8 \<le> n" "n < 12"
  then have "n = 8 \<or> n = 9 \<or> n = 10 \<or> n = 11" by arith
  then show ?thesis
    by (auto simp: hex_digit_def)
qed

lemma low_bits_nat: "(n::nat) AND 15 = n mod 16"
proof -
  have "n AND mask 4 = take_bit 4 n"
    by (simp only: take_bit_eq_mask)
  moreover have "mask 4 = (15::nat)"
    by (simp add: mask_eq_exp_minus_1)
  ultimately show ?thesis
    by (simp add: take_bit_eq_mod)
qed

lemma low6_bits_nat: "(n::nat) AND 63 = n mod 64"
proof -
  have "n AND mask 6 = take_bit 6 n"
    by (simp only: take_bit_eq_mask)
  moreover have "mask 6 = (63::nat)"
    by (simp add: mask_eq_exp_minus_1)
  ultimately show ?thesis
    by (simp add: take_bit_eq_mod)
qed

lemma or_power: "(m::nat) < 2 ^ j \<Longrightarrow> m OR 2 ^ j = m + 2 ^ j"
proof -
  assume m: "m < 2 ^ j"
  have "m + 2 ^ j = m OR 2 ^ j"
  proof (rule disjunctive_add)
    fix k
    show "\<not> bit m k \<or> \<not> bit ((2::nat) ^ j) k"
    proof (cases "k = j")
      case True
      then have "m div 2 ^ k = 0"
        using m by simp
      then have "\<not> bit m k"
        by (simp add: bit_iff_odd)
      then show ?thesis by simp
    next
      case False
      then have "\<not> bit ((2::nat) ^ j) k"
        by (simp add: bit_exp_iff)
      then show ?thesis by simp
    qed
  qed
  then show ?thesis by simp
qed

lemma version_byte: "unat ((b AND 0x0F) OR 0x40 :: byte) = unat b mod 16 + 64"
proof -
  have "unat ((b AND 0x0F) OR 0x40) = (unat b AND 15) OR 64"
    by (simp add: unsigned_or_eq unsigned_and_eq)
  also have "\<dots> = unat b mod 16 OR 2 ^ 6"
    by (simp add: low_bits_nat)
  also have "\<dots> = unat b mod 16 + 2 ^ 6"
  proof (rule or_power)
    have "unat b mod 16 < 16" by simp
    then show "unat b mod 16 < 2 ^ 6" by simp
  qed
  finally show ?thesis
    by simp
qed

lemma variant_byte: "unat ((b AND 0x3F) OR 0x80 :: byte) = unat b mod 64 + 128"
proof -
  have "unat ((b AND 0x3F) OR 0x80) = (unat b AND 63) OR 128"
    by (simp add: unsigned_or_eq unsigned_and_eq)
  also have "\<dots> = unat b mod 64 OR 2 ^ 7"
    by (simp add: low6_bits_nat)
  also have "\<dots> = unat b mod 64 + 2 ^ 7"
  proof (rule or_power)
    have "unat b mod 64 < 64" by simp
    then show "unat b mod 64 < 2 ^ 7" by simp
  qed
  finally show ?thesis
    by simp
qed

lemma byte_nibbles: "unat (b :: byte) div 16 < 16" "unat b mod 16 < 16"
proof -
  have "unat b < 256"
    using unsigned_less [of b] by simp
  then show "unat b div 16 < 16"
    by simp
  show "unat b mod 16 < 16"
    by simp
qed

lemma hex_nibbles: "is_hex (hex_digit (unat (b :: byte) div 16))" "is_hex (hex_digit (unat b mod 16))"
  by (simp_all add: is_hex_digit byte_nibbles)

lemma list_all_hex_byte: "list_all is_hex (byte_hex b)"
  by (simp add: byte_hex_def hex_nibbles)

lemma randomUUID_explicit:
  "\<exists>b0 b1 b2 b3 b4 b5 b6 b7 b8 b9 b10 b11 b12 b13 b14 b15.
     randomUUID x = byte_hex b0 @ byte_hex b1 @ byte_hex b2 @ byte_hex b3 @ [0x2D]
       @ byte_hex b4 @ byte_hex b5 @ [0x2D]
       @ byte_hex ((b6 AND 0x0F) OR 0x40) @ byte_hex b7 @ [0x2D]
       @ byte_hex ((b8 AND 0x3F) OR 0x80) @ byte_hex b9 @ [0x2D]
       @ byte_hex b10 @ byte_hex b11 @ byte_hex b12 @ byte_hex b13 @ byte_hex b14 @ byte_hex b15"
  apply (simp add: randomUUID_def random_bytes_def upt16 Let_def js_def)
  apply (intro exI)
  apply (rule refl)
  done

lemma randomUUID_valid: "valid_uuid_v4 (randomUUID x)"
proof -
  obtain b0 b1 b2 b3 b4 b5 b6 b7 b8 b9 b10 b11 b12 b13 b14 b15 where
    u: "randomUUID x = byte_hex b0 @ byte_hex b1 @ byte_hex b2 @ byte_hex b3 @ [0x2D]
       @ byte_hex b4 @ byte_hex b5 @ [0x2D]
       @ byte_hex ((b6 AND 0x0F) OR 0x40) @ byte_hex b7 @ [0x2D]
       @ byte_hex ((b8 AND 0x3F) OR 0x80) @ byte_hex b9 @ [0x2D]
       @ byte_hex b10 @ byte_hex b11 @ byte_hex b12 @ byte_hex b13 @ byte_hex b14 @ byte_hex b15"
    using randomUUID_explicit [of x] by blast
  have "unat b6 mod 16 < 16"
    by simp
  then have "(unat b6 mod 16 + 64) div 16 = 4"
    by linarith
  then have v: "hex_digit (unat ((b6 AND 0x0F) OR 0x40) div 16) = 0x34"
    by (simp add: version_byte hex_digit_4)
  have "unat b8 mod 64 < 64"
    by simp
  then have "8 \<le> (unat b8 mod 64 + 128) div 16" "(unat b8 mod 64 + 128) div 16 < 12"
    by linarith+
  then have "8 \<le> unat ((b8 AND 0x3F) OR 0x80) div 16" "unat ((b8 AND 0x3F) OR 0x80) div 16 < 12"
    by (simp_all add: variant_byte)
  then have w: "hex_digit (unat ((b8 AND 0x3F) OR 0x80) div 16) \<in> {0x38, 0x39, 0x61, 0x62}"
    by (rule hex_digit_variant)
  have h: "is_hex 0x34"
    by (simp add: is_hex_def is_digit_def)
  show ?thesis
    unfolding valid_uuid_v4_def u upt36
    using v w h by (auto simp: byte_hex_def hex_nibbles)
qed

lemma ascii_upper_hex: "is_hex c \<Longrightarrow> is_hex (ascii_upper c)"
proof (cases "0x61 \<le> c \<and> c \<le> 0x7A")
  case False
  assume "is_hex c"
  then show ?thesis
    using False by (auto simp: ascii_upper_def)
next
  case True
  assume "is_hex c"
  then have c: "0x61 \<le> c" "c \<le> 0x66"
    using True unfolding is_hex_def is_digit_def word_le_nat_alt by auto
  have "(0x20 :: jschar) \<le> c"
    using c(1) unfolding word_le_nat_alt by simp
  then have "unat (c - 0x20) = unat c - 32"
    by (simp add: unat_sub)
  then have "0x41 \<le> c - 0x20" "c - 0x20 \<le> 0x46"
    using c unfolding word_le_nat_alt by simp_all
  then show ?thesis
    using True by (simp add: ascii_upper_def is_hex_def)
qed

lemma ascii_upper_fixed: "ascii_upper 0x2D = 0x2D" "ascii_upper 0x34 = 0x34"
  "ascii_upper 0x38 = 0x38" "ascii_upper 0x39 = 0x39" "ascii_upper 0x61 = 0x41"
  "ascii_upper 0x62 = 0x42" "ascii_upper 0x41 = 0x41" "ascii_upper 0x42 = 0x42"
  by (simp_all add: ascii_upper_def)

lemma valid_uuid_upper: "valid_uuid_v4 s \<Longrightarrow> valid_uuid_v4 (map ascii_upper s)"
proof -
  assume v: "valid_uuid_v4 s"
  then have len: "length s = 36"
    by (simp add: valid_uuid_v4_def)
  have pos: "\<forall>i < 36. if i \<in> {8, 13, 18, 23} then s ! i = 0x2D else is_hex (s ! i)"
    using v by (simp add: valid_uuid_v4_def list_all_iff)
  have "\<forall>i \<in> set [0..<36]. if i \<in> {8, 13, 18, 23} then map ascii_upper s ! i = 0x2D
      else is_hex (map ascii_upper s ! i)"
  proof (intro ballI)
    fix i :: nat
    assume "i \<in> set [0..<36]"
    then have i: "i < 36"
      by simp
    then have "map ascii_upper s ! i = ascii_upper (s ! i)"
      using len by simp
    then show "if i \<in> {8, 13, 18, 23} then map ascii_upper s ! i = 0x2D
      else is_hex (map ascii_upper s ! i)"
      using pos i by (auto simp: ascii_upper_fixed ascii_upper_hex)
  qed
  then have "list_all (\<lambda>i. if i \<in> {8, 13, 18, 23} then map ascii_upper s ! i = 0x2D
      else is_hex (map ascii_upper s ! i)) [0..<36]"
    by (simp only: list_all_iff)
  moreover have "map ascii_upper s ! 14 = 0x34"
    using v len by (simp add: valid_uuid_v4_def ascii_upper_fixed)
  moreover have "map ascii_upper s ! 19 \<in> {0x38, 0x39, 0x61, 0x62, 0x41, 0x42}"
  proof -
    have "s ! 19 \<in> {0x38, 0x39, 0x61, 0x62, 0x41, 0x42}"
      using v by (simp add: valid_uuid_v4_def)
    moreover have "map ascii_upper s ! 19 = ascii_upper (s ! 19)"
      using len by simp
    ultimately show ?thesis
      by (auto simp: ascii_upper_fixed)
  qed
  moreover have "length (map ascii_upper s) = 36"
    using len by simp
  ultimately show ?thesis
    unfolding valid_uuid_v4_def by (intro conjI)
qed

lemma hex_ascii: "is_hex c \<Longrightarrow> c < 0x80"
  unfolding is_hex_def is_digit_def word_le_nat_alt word_less_nat_alt by auto

lemma valid_uuid_ascii: "valid_uuid_v4 s \<Longrightarrow> list_all (\<lambda>c. c < 0x80) s"
proof -
  assume v: "valid_uuid_v4 s"
  then have len: "length s = 36"
    by (simp add: valid_uuid_v4_def)
  have pos: "\<forall>i < 36. if i \<in> {8, 13, 18, 23} then s ! i = 0x2D else is_hex (s ! i)"
    using v by (simp add: valid_uuid_v4_def list_all_iff)
  have "\<forall>i < length s. s ! i < 0x80"
  proof (intro allI impI)
    fix i
    assume "i < length s"
    then have "i < 36" using len by simp
    then have "s ! i = 0x2D \<or> is_hex (s ! i)"
      using pos by (auto split: if_splits)
    then show "s ! i < 0x80"
      using hex_ascii by auto
  qed
  then show ?thesis
    by (simp add: list_all_length)
qed

lemma uuid_upper_valid: "valid_uuid_v4 (toUpperCase rt (randomUUID x))"
  using valid_uuid_upper [OF randomUUID_valid [of x]] valid_uuid_ascii [OF randomUUID_valid [of x]]
  by (simp add: toUpperCase_def)

declare uuid_loop.simps [simp del]

lemma uuid_loop_result:
  "\<forall>u \<in> set uuids. valid_uuid_v4 u \<Longrightarrow>
   length (fst (uuid_loop rt uppercase count i uuids draws)) = length uuids + nat (count - i)
   \<and> snd (uuid_loop rt uppercase count i uuids draws) = draws + nat (count - i)
   \<and> (\<forall>u \<in> set (fst (uuid_loop rt uppercase count i uuids draws)). valid_uuid_v4 u)"
proof (induction rt uppercase count i uuids draws rule: uuid_loop.induct)
  case (1 rt uppercase count i uuids draws)
  show ?case
  proof (cases "i < count")
    case True
    define uuid0 where "uuid0 = randomUUID (random_source rt draws)"
    define uuid where "uuid = (if uppercase then toUpperCase rt uuid0 else uuid0)"
    have "valid_uuid_v4 uuid"
      by (simp add: uuid_def uuid0_def randomUUID_valid uuid_upper_valid)
    then have all: "\<forall>u \<in> set (uuids @ [uuid]). valid_uuid_v4 u"
      using 1(2) by simp
    have step: "uuid_loop rt uppercase count i uuids draws
        = uuid_loop rt uppercase count (i + 1) (uuids @ [uuid]) (Suc draws)"
      by (subst uuid_loop.simps) (simp add: True uuid_def uuid0_def Let_def)
    have n: "Suc (nat (count - (i + 1))) = nat (count - i)"
      using True by simp
    have ih: "length (fst (uuid_loop rt uppercase count (i + 1) (uuids @ [uuid]) (Suc draws)))
         = length (uuids @ [uuid]) + nat (count - (i + 1))
       \<and> snd (uuid_loop rt uppercase count (i + 1) (uuids @ [uuid]) (Suc draws))
         = Suc draws + nat (count - (i + 1))
       \<and> (\<forall>u \<in> set (fst (uuid_loop rt uppercase count (i + 1) (uuids @ [uuid]) (Suc draws))).
            valid_uuid_v4 u)"
      by (rule 1(1) [OF True uuid0_def uuid_def all])
    show ?thesis
      unfolding step using ih n by simp
  next
    case False
    have "uuid_loop rt uppercase count i uuids draws = (uuids, draws)"
      by (subst uuid_loop.simps) (simp add: False)
    then show ?thesis
      using 1(2) False by simp
  qed
qed

lemma uuid_handler_eq:
  "uuid_handler rt draws \<lparr> uuid_version = version, uuid_count = Some c, uuid_uppercase = uppercase \<rparr>
     = (result_envelope rt
          (JObj [(js ''version'',
                    JStr (uuid_version_name (case version of None \<Rightarrow> V4 | Some v \<Rightarrow> v))),
                 (js ''count'', JNum (number_of_nat (length (fst (uuid_loop rt
                    (case uppercase of None \<Rightarrow> False | Some u \<Rightarrow> u) c 0 [] draws))))),
                 (js ''uuids'', JArr (map JStr (fst (uuid_loop rt
                    (case uppercase of None \<Rightarrow> False | Some u \<Rightarrow> u) c 0 [] draws))))]),
        snd (uuid_loop rt (case uppercase of None \<Rightarrow> False | Some u \<Rightarrow> u) c 0 [] draws))"
  by (simp add: uuid_handler_def try_catch_def Let_def split_beta)

lemma uuid_lookup: "map_of registry (js ''uuid'') = Some Uuid"
  by (simp add: registry_def js_def)

lemma validate_uuid_count:
  "validate_uuid [(js ''count'', JNum (Fin c 0))]
     = (if c < 1 \<or> 100 < c then Inl (OutOfRange (js ''count''))
        else Inr \<lparr> uuid_version = Some V4, uuid_count = Some c, uuid_uppercase = Some False \<rparr>)"
  by (simp add: validate_uuid_def with_default_def then_validate_def z_int_def js_def)

section \<open>Facts about Base64 and UTF-8\<close>

lemma unat_plus_small: "k + n < 65536 \<Longrightarrow> unat ((of_nat k :: jschar) + of_nat n) = k + n"
  by (simp add: unat_word_ariths unat_of_nat)

lemma unat_base64_char:
  assumes "n < 64"
  shows "unat (base64_char u n)
     = (if n < 26 then 65 + n else if n < 52 then 71 + n else if n < 62 then n - 4
        else if n = 62 then (if u then 45 else 43) else (if u then 95 else 47))"
proof -
  have a: "unat ((0x41 :: jschar) + of_nat n) = 65 + n"
    using unat_plus_small [of 65 n] assms by simp
  have b: "unat ((0x61 :: jschar) + of_nat (n - 26)) = 97 + (n - 26)"
    using unat_plus_small [of 97 "n - 26"] assms by simp
  have c: "unat ((0x30 :: jschar) + of_nat (n - 52)) = 48 + (n - 52)"
    using unat_plus_small [of 48 "n - 52"] assms by simp
  show ?thesis
    unfolding base64_char_def using a b c by auto
qed

lemma unat_low_byte: "unat (low_byte c) = unat c mod 256"
  by (simp add: low_byte_def unat_of_nat)

lemma unat_low_byte_char:
  assumes "n < 64"
  shows "unat (low_byte (base64_char u n))
     = (if n < 26 then 65 + n else if n < 52 then 71 + n else if n < 62 then n - 4
        else if n = 62 then (if u then 45 else 43) else (if u then 95 else 47))"
  using assms by (simp add: unat_low_byte unat_base64_char)

lemma base64_char_not_pad: "n < 64 \<Longrightarrow> low_byte (base64_char u n) \<noteq> 0x3D"
proof
  assume "n < 64" and "low_byte (base64_char u n) = 0x3D"
  then have "unat (low_byte (base64_char u n)) = 61"
    by simp
  then show False
    using \<open>n < 64\<close> by (simp add: unat_low_byte_char split: if_splits)
qed

lemma unbase64_char: "n < 64 \<Longrightarrow> unbase64 (low_byte (base64_char u n)) = Some n"
  unfolding unbase64_def word_le_nat_alt word_unat_eq_iff
  by (auto simp add: unat_low_byte_char)

lemma sextets_Cons:
  "n < 64 \<Longrightarrow> base64_sextets (base64_char u n # s) = n # base64_sextets s"
  by (simp add: base64_sextets_def base64_char_not_pad unbase64_char List.map_filter_simps)

lemma sextets_pad: "base64_sextets (0x3D # s) = []"
  by (simp add: base64_sextets_def low_byte_def List.map_filter_simps)

lemma sextets_Nil: "base64_sextets [] = []"
  by (simp add: base64_sextets_def List.map_filter_simps)

lemma byte_of_unat: "(of_nat (unat (a :: byte)) :: byte) = a"
  by simp

lemma sextet_bounds:
  fixes x y :: nat
  assumes "x < 256" and "y < 256"
  shows "x div 4 < 64" and "x mod 4 * 16 < 64" and "x mod 4 * 16 + y div 16 < 64"
    and "x mod 16 * 4 < 64" and "x mod 16 * 4 + y div 64 < 64" and "x mod 64 < 64"
proof -
  have "x mod 4 < 4" "x mod 16 < 16" "y div 16 < 16" "y div 64 < 4"
    using assms by simp_all
  then show "x mod 4 * 16 < 64" "x mod 4 * 16 + y div 16 < 64" "x mod 16 * 4 < 64"
    "x mod 16 * 4 + y div 64 < 64"
    by linarith+
  show "x div 4 < 64" "x mod 64 < 64"
    using assms by simp_all
qed

lemma sextet_first:
  fixes x y :: nat
  assumes "y < 256"
  shows "x div 4 * 4 + (x mod 4 * 16 + y div 16) div 16 = x"
proof -
  have "y div 16 < 16"
    using assms by simp
  then have "(x mod 4 * 16 + y div 16) div 16 = x mod 4"
    by simp
  then show ?thesis
    by simp
qed

lemma sextet_second:
  fixes x y z :: nat
  assumes "y < 256" and "z < 256"
  shows "(x mod 4 * 16 + y div 16) mod 16 * 16 + (y mod 16 * 4 + z div 64) div 4 = y"
proof -
  have "y div 16 < 16" "z div 64 < 4"
    using assms by simp_all
  then have "(x mod 4 * 16 + y div 16) mod 16 = y div 16" "(y mod 16 * 4 + z div 64) div 4 = y mod 16"
    by simp_all
  then show ?thesis
    by simp
qed

lemma sextet_third:
  fixes y z :: nat
  assumes "z < 256"
  shows "(y mod 16 * 4 + z div 64) mod 4 * 64 + z mod 64 = z"
proof -
  have "z div 64 < 4"
    using assms by simp
  then have "(y mod 16 * 4 + z div 64) mod 4 = z div 64"
    by simp
  then show ?thesis
    by simp
qed

lemma unat_byte_less: "unat (a :: byte) < 256"
  using unsigned_less [of a] by simp

lemma sextet_first_last:
  fixes x :: nat
  shows "x div 4 * 4 + x mod 4 * 16 div 16 = x"
  by simp

lemma sextet_second_last:
  fixes x y :: nat
  assumes "y < 256"
  shows "(x mod 4 * 16 + y div 16) mod 16 * 16 + y mod 16 * 4 div 4 = y"
proof -
  have "y div 16 < 16"
    using assms by simp
  then have "(x mod 4 * 16 + y div 16) mod 16 = y div 16"
    by simp
  then show ?thesis
    by simp
qed

lemma base64_decode_encode:
  "decode_sextets (base64_sextets (base64_encode u bytes)) = bytes"
proof (induction u bytes rule: base64_encode.induct)
  case (1 urlSafe)
  show ?case
    by (simp add: sextets_Nil)
next
  case (2 urlSafe a)
  note lt = sextet_bounds [OF unat_byte_less [of a] unat_byte_less [of a]]
  have s: "base64_sextets (base64_encode urlSafe [a]) = [unat a div 4, unat a mod 4 * 16]"
    by (simp add: sextets_Cons lt sextets_pad sextets_Nil)
  show ?case
    unfolding s by (simp only: decode_sextets.simps sextet_first_last byte_of_unat)
next
  case (3 urlSafe a b)
  note lt = sextet_bounds [OF unat_byte_less [of a] unat_byte_less [of b]]
    sextet_bounds [OF unat_byte_less [of b] unat_byte_less [of b]]
  have s: "base64_sextets (base64_encode urlSafe [a, b])
      = [unat a div 4, unat a mod 4 * 16 + unat b div 16, unat b mod 16 * 4]"
    by (simp add: sextets_Cons lt sextets_pad sextets_Nil)
  show ?case
    unfolding s
    by (simp only: decode_sextets.simps byte_of_unat
          sextet_first [OF unat_byte_less [of b], of "unat a"]
          sextet_second_last [OF unat_byte_less [of b], of "unat a"])
next
  case (4 urlSafe a b c rest)
  note lt = sextet_bounds [OF unat_byte_less [of a] unat_byte_less [of b]]
    sextet_bounds [OF unat_byte_less [of b] unat_byte_less [of c]]
    sextet_bounds [OF unat_byte_less [of c] unat_byte_less [of c]]
  have s: "base64_sextets (base64_encode urlSafe (a # b # c # rest))
      = unat a div 4 # (unat a mod 4 * 16 + unat b div 16)
          # (unat b mod 16 * 4 + unat c div 64) # unat c mod 64
          # base64_sextets (base64_encode urlSafe rest)"
    by (simp add: sextets_Cons lt)
  show ?case
    unfolding s
    by (simp only: decode_sextets.simps byte_of_unat 4 append_Cons append_Nil
          sextet_first [OF unat_byte_less [of b], of "unat a"]
          sextet_second [OF unat_byte_less [of b] unat_byte_less [of c], of "unat a"]
          sextet_third [OF unat_byte_less [of c], of "unat b"])
qed

lemma byte_eq_unat: "(b :: byte) = d \<longleftrightarrow> unat b = unat d"
  by (simp add: word_unat_eq_iff)

lemma unat_byte_of_nat: "k < 256 \<Longrightarrow> unat (of_nat k :: byte) = k"
  by (simp add: unat_of_nat)

lemma unat_byte_offset:
  "numeral k + m < 256 \<Longrightarrow> unat (numeral k + of_nat m :: byte) = numeral k + m"
  using unat_byte_of_nat [of "numeral k + m"] by simp

lemma decode_1:
  assumes "unat b = n" and "n < 128"
  shows "utf8_decode (b # rest) = code_point_units n @ utf8_decode rest"
  using assms by (simp add: word_less_nat_alt code_point_units_def)

lemma decode_2:
  assumes "unat b = 192 + h" and "2 \<le> h" and "h < 32" and "unat b1 = 128 + l" and "l < 64"
  shows "utf8_decode (b # b1 # rest) = code_point_units (h * 64 + l) @ utf8_decode rest"
  using assms by (simp add: word_less_nat_alt word_le_nat_alt is_continuation_def)

lemma decode_3:
  assumes "unat b = 224 + h" and "h < 16" and "unat b1 = 128 + m" and "m < 64"
    and "unat b2 = 128 + l" and "l < 64" and "h = 0 \<longrightarrow> 32 \<le> m" and "h = 13 \<longrightarrow> m < 32"
  shows "utf8_decode (b # b1 # b2 # rest)
    = code_point_units (h * 4096 + m * 64 + l) @ utf8_decode rest"
  using assms
  by (auto simp add: word_less_nat_alt word_le_nat_alt is_continuation_def second_byte_ok_def
      byte_eq_unat)

lemma decode_4:
  assumes "unat b = 240 + h" and "h \<le> 4" and "unat b1 = 128 + m" and "m < 64"
    and "unat b2 = 128 + k" and "k < 64" and "unat b3 = 128 + l" and "l < 64"
    and "h = 0 \<longrightarrow> 16 \<le> m" and "h = 4 \<longrightarrow> m < 16"
  shows "utf8_decode (b # b1 # b2 # b3 # rest)
    = code_point_units (h * 262144 + m * 4096 + k * 64 + l) @ utf8_decode rest"
  using assms
  by (auto simp add: word_less_nat_alt word_le_nat_alt is_continuation_def second_byte_ok_def
      byte_eq_unat)


lemma shift_64: "q div 64 * 4096 + q mod 64 * 64 = q * (64 :: nat)"
proof -
  have "q * 64 = (q div 64 * 64 + q mod 64) * 64"
    by (simp only: div_mult_mod_eq)
  also have "\<dots> = q div 64 * 4096 + q mod 64 * 64"
    by (simp only: add_mult_distrib mult.assoc)
  finally show ?thesis
    by simp
qed

lemma recompose_3: "n div 4096 * 4096 + n div 64 mod 64 * 64 + n mod 64 = (n :: nat)"
proof -
  have "n div 4096 = n div 64 div 64"
    by (simp add: div_mult2_eq)
  then have "n div 4096 * 4096 + n div 64 mod 64 * 64 = n div 64 * 64"
    by (simp only: shift_64)
  then show ?thesis
    by simp
qed

lemma recompose_4:
  "n div 262144 * 262144 + n div 4096 mod 64 * 4096 + n div 64 mod 64 * 64 + n mod 64 = (n :: nat)"
proof -
  have "n div 262144 = n div 4096 div 64"
    by (simp add: div_mult2_eq)
  moreover have "n div 4096 div 64 * 262144 + n div 4096 mod 64 * 4096 = n div 4096 * 4096"
    using shift_64 [of "n div 4096"] by simp
  ultimately have "n div 262144 * 262144 + n div 4096 mod 64 * 4096 = n div 4096 * 4096"
    by simp
  then show ?thesis
    using recompose_3 [of n] by simp
qed

lemma high_part_low: "n div 262144 = 0 \<Longrightarrow> 65536 \<le> n \<Longrightarrow> 16 \<le> (n :: nat) div 4096 mod 64"
proof -
  assume a: "n div 262144 = 0" "65536 \<le> n"
  have "n div 262144 = n div 4096 div 64"
    by (simp add: div_mult2_eq)
  then have "n div 4096 div 64 = 0"
    using a by simp
  then have "n div 4096 mod 64 = n div 4096"
    by (simp add: div_eq_0_iff)
  moreover have "16 \<le> n div 4096"
    using a by simp
  ultimately show ?thesis
    by simp
qed

lemma high_part_high: "n div 262144 = 4 \<Longrightarrow> n < 1114112 \<Longrightarrow> (n :: nat) div 4096 mod 64 < 16"
proof -
  assume a: "n div 262144 = 4" "n < 1114112"
  have "n div 262144 = n div 4096 div 64"
    by (simp add: div_mult2_eq)
  then have "n div 4096 div 64 = 4"
    using a by simp
  then have "n div 4096 = 4 * 64 + n div 4096 mod 64"
    using mult_div_mod_eq [of 64 "n div 4096"] by linarith
  moreover have "n div 4096 < 272"
    using a by simp
  ultimately show ?thesis
    by linarith
qed

lemma mid_part_low: "n div 4096 = 0 \<Longrightarrow> 2048 \<le> n \<Longrightarrow> 32 \<le> (n :: nat) div 64 mod 64"
proof -
  assume a: "n div 4096 = 0" "2048 \<le> n"
  have "n div 4096 = n div 64 div 64"
    by (simp add: div_mult2_eq)
  then have "n div 64 div 64 = 0"
    using a by simp
  then have "n div 64 mod 64 = n div 64"
    by (simp add: div_eq_0_iff)
  moreover have "32 \<le> n div 64"
    using a by simp
  ultimately show ?thesis
    by simp
qed

lemma mid_part_high: "n div 4096 = 13 \<Longrightarrow> n < 55296 \<Longrightarrow> (n :: nat) div 64 mod 64 < 32"
proof -
  assume a: "n div 4096 = 13" "n < 55296"
  have "n div 4096 = n div 64 div 64"
    by (simp add: div_mult2_eq)
  then have "n div 64 div 64 = 13"
    using a by simp
  then have "n div 64 = 13 * 64 + n div 64 mod 64"
    using mult_div_mod_eq [of 64 "n div 64"] by linarith
  moreover have "n div 64 < 864"
    using a by simp
  ultimately show ?thesis
    by linarith
qed

lemma block_13: "n div 4096 = 13 \<Longrightarrow> 53248 \<le> (n :: nat) \<and> n < 57344"
proof -
  assume "n div 4096 = 13"
  then have "n = 13 * 4096 + n mod 4096"
    using mult_div_mod_eq [of 4096 n] by linarith
  moreover have "n mod 4096 < 4096"
    by simp
  ultimately show ?thesis
    by linarith
qed

lemma decode_encode_code_point:
  assumes "n < 0x110000" and "\<not> (0xD800 \<le> n \<and> n \<le> 0xDFFF)"
  shows "utf8_decode (encode_code_point n @ rest) = code_point_units n @ utf8_decode rest"
proof -
  consider "n < 0x80" | "0x80 \<le> n" "n < 0x800" | "0x800 \<le> n" "n < 0x10000"
    | "0x10000 \<le> n"
    by linarith
  then show ?thesis
  proof cases
    case 1
    then show ?thesis
      using decode_1 [of "of_nat n" n rest] by (simp add: encode_code_point_def unat_byte_of_nat)
  next
    case 2
    have h: "2 \<le> n div 64" "n div 64 < 32" "n mod 64 < 64"
      using 2 by simp_all
    have "utf8_decode (of_nat (192 + n div 64) # of_nat (128 + n mod 64) # rest)
        = code_point_units (n div 64 * 64 + n mod 64) @ utf8_decode rest"
      by (rule decode_2 [OF unat_byte_of_nat h(1) h(2) unat_byte_of_nat h(3)])
        (use h in simp_all)
    then show ?thesis
      using 2 by (simp add: encode_code_point_def)
  next
    case 3
    have h: "n div 4096 < 16" "n div 64 mod 64 < 64" "n mod 64 < 64"
      using 3 by simp_all
    have lo: "n div 4096 = 0 \<longrightarrow> 32 \<le> n div 64 mod 64"
      using mid_part_low [of n] 3 by simp
    have hi: "n div 4096 = 13 \<longrightarrow> n div 64 mod 64 < 32"
    proof
      assume b: "n div 4096 = 13"
      then have "n < 0xD800"
        using block_13 [of n] assms(2) by simp
      then show "n div 64 mod 64 < 32"
        using mid_part_high [OF b] by simp
    qed
    have "utf8_decode (of_nat (224 + n div 4096) # of_nat (128 + n div 64 mod 64)
          # of_nat (128 + n mod 64) # rest)
        = code_point_units (n div 4096 * 4096 + n div 64 mod 64 * 64 + n mod 64)
            @ utf8_decode rest"
      by (rule decode_3 [OF unat_byte_of_nat h(1) unat_byte_of_nat h(2) unat_byte_of_nat h(3) lo hi])
        (use h in simp_all)
    then show ?thesis
      using 3 unfolding recompose_3 by (simp add: encode_code_point_def)
  next
    case 4
    have h: "n div 262144 \<le> 4" "n div 4096 mod 64 < 64" "n div 64 mod 64 < 64" "n mod 64 < 64"
      using assms(1) by simp_all
    have lo: "n div 262144 = 0 \<longrightarrow> 16 \<le> n div 4096 mod 64"
      using high_part_low [of n] 4 by simp
    have hi: "n div 262144 = 4 \<longrightarrow> n div 4096 mod 64 < 16"
      using high_part_high [of n] assms(1) by simp
    have "utf8_decode (of_nat (240 + n div 262144) # of_nat (128 + n div 4096 mod 64)
          # of_nat (128 + n div 64 mod 64) # of_nat (128 + n mod 64) # rest)
        = code_point_units (n div 262144 * 262144 + n div 4096 mod 64 * 4096
            + n div 64 mod 64 * 64 + n mod 64) @ utf8_decode rest"
      by (rule decode_4 [OF unat_byte_of_nat h(1) unat_byte_of_nat h(2) unat_byte_of_nat h(3)
            unat_byte_of_nat h(4) lo hi]) (use h in simp_all)
    then show ?thesis
      using 4 unfolding recompose_4 by (simp add: encode_code_point_def)
  qed
qed

lemma unat_jschar_less: "unat (c :: jschar) < 65536"
  using unsigned_less [of c] by simp

lemma surrogate_pair_units:
  assumes "is_high_surrogate c" and "is_low_surrogate d"
  defines "n \<equiv> 0x10000 + (unat c - 0xD800) * 0x400 + (unat d - 0xDC00)"
  shows "n < 0x110000" and "0x10000 \<le> n" and "code_point_units n = [c, d]"
proof -
  define h where "h = unat c - 0xD800"
  define l where "l = unat d - 0xDC00"
  have c: "unat c = 0xD800 + h" "h < 0x400"
    using assms(1) by (auto simp add: is_high_surrogate_def word_le_nat_alt h_def)
  have d: "unat d = 0xDC00 + l" "l < 0x400"
    using assms(2) by (auto simp add: is_low_surrogate_def word_le_nat_alt l_def)
  have n: "n = 0x10000 + (h * 0x400 + l)"
    by (simp add: n_def h_def l_def)
  have "h * 0x400 \<le> 0x3FF * 0x400"
    using c(2) by simp
  then show "n < 0x110000" and "0x10000 \<le> n"
    using d(2) unfolding n by simp_all
  have "(h * 0x400 + l) div 0x400 = h" "(h * 0x400 + l) mod 0x400 = l"
    using d(2) by simp_all
  then have "code_point_units n = [of_nat (unat c), of_nat (unat d)]"
    unfolding n c(1) d(1) by (simp add: code_point_units_def)
  then show "code_point_units n = [c, d]"
    by simp
qed

lemma plain_unit:
  assumes "\<not> is_high_surrogate c" and "\<not> is_low_surrogate c"
  shows "unat c < 0x110000" and "\<not> (0xD800 \<le> unat c \<and> unat c \<le> 0xDFFF)"
    and "code_point_units (unat c) = [c]"
proof -
  show "unat c < 0x110000"
    using unat_jschar_less [of c] by simp
  show "\<not> (0xD800 \<le> unat c \<and> unat c \<le> 0xDFFF)"
    using assms by (auto simp add: is_high_surrogate_def is_low_surrogate_def word_le_nat_alt)
  show "code_point_units (unat c) = [c]"
    using unat_jschar_less [of c] by (simp add: code_point_units_def)
qed

lemma utf8_decode_encode: "isWellFormed s \<Longrightarrow> utf8_decode (utf8_encode s) = s"
proof (induction s rule: utf8_encode.induct)
  case 1
  show ?case
    by simp
next
  case (2 c cs)
  show ?case
  proof (cases "is_high_surrogate c")
    case True
    then obtain d ds where cs: "cs = d # ds" and d: "is_low_surrogate d" and ds: "isWellFormed ds"
      using "2.prems" by (auto split: list.splits)
    have ih: "utf8_decode (utf8_encode ds) = ds"
      by (rule "2.IH"(1) [OF True cs d ds])
    note p = surrogate_pair_units [OF True d]
    have "utf8_decode (encode_code_point (0x10000 + (unat c - 0xD800) * 0x400 + (unat d - 0xDC00))
            @ utf8_encode ds) = [c, d] @ utf8_decode (utf8_encode ds)"
      using decode_encode_code_point [OF p(1)] p(2) p(3) by simp
    then show ?thesis
      using True d by (simp add: cs ih)
  next
    case False
    then have low: "\<not> is_low_surrogate c" and wf: "isWellFormed cs"
      using "2.prems" by simp_all
    have ih: "utf8_decode (utf8_encode cs) = cs"
      by (rule "2.IH"(4) [OF False low wf])
    note p = plain_unit [OF False low]
    have "utf8_decode (encode_code_point (unat c) @ utf8_encode cs)
        = [c] @ utf8_decode (utf8_encode cs)"
      using decode_encode_code_point [OF p(1) p(2)] p(3) by simp
    then show ?thesis
      using False low by (simp add: ih)
  qed
qed

lemma base64_decoded_total:
  "base64_decoded urlSafe data = Inr (utf8_decode (decode_sextets (base64_sextets data)))"
  by (simp add: base64_decoded_def Buffer_from_base64_def)

lemma base64_decode_handler:
  "base64_handler rt \<lparr> base64_operation = B_decode, base64_data = data, base64_urlSafe = u \<rparr>
     = result_envelope rt (base64_response B_decode data
         (case u of None \<Rightarrow> False | Some b \<Rightarrow> b)
         (utf8_decode (decode_sextets (base64_sextets data))))"
  by (simp add: base64_handler_def base64_decoded_total try_catch_def Let_def)

lemma base64_encode_handler:
  "base64_handler rt \<lparr> base64_operation = B_encode, base64_data = data, base64_urlSafe = u \<rparr>
     = result_envelope rt (base64_response B_encode data
         (case u of None \<Rightarrow> False | Some b \<Rightarrow> b)
         (base64_encoded (case u of None \<Rightarrow> False | Some b \<Rightarrow> b) data))"
  by (simp add: base64_handler_def try_catch_def Let_def)

lemma sextets_of_marks: "base64_sextets (js ''!!!!'') = []"
  by (simp add: base64_sextets_def low_byte_def js_def unbase64_def List.map_filter_simps)

lemma hello_encoded:
  "base64_encoded False (js ''hello'') = js ''aGVsbG8=''"
  "base64_encoded True (js ''hello'') = js ''aGVsbG8''"
  by (simp_all add: base64_encoded_def js_def is_high_surrogate_def is_low_surrogate_def
      encode_code_point_def base64_char_def)

section \<open>Facts about the envelopes\<close>

lemma echo_conforms: "echo_handler rt args = spec_envelope rt (echo_outcome rt args)"
  by (cases "echo_includeHash args")
    (auto simp add: echo_handler_def echo_outcome_def try_catch_def error_envelope_def
      result_envelope_def Let_def split: sum.splits)

lemma format_conforms: "format_handler rt args = spec_envelope rt (format_outcome rt args)"
  by (simp add: format_handler_def format_outcome_def try_catch_def result_envelope_def Let_def)

lemma analyze_conforms: "analyze_handler rt args = spec_envelope rt (analyze_outcome rt args)"
  by (cases "analyze_includeCharFrequency args")
    (auto simp add: analyze_handler_def analyze_outcome_def try_catch_def result_envelope_def Let_def)

lemma hash_conforms: "hash_handler rt args = spec_envelope rt (hash_outcome rt args)"
  by (simp add: hash_handler_def hash_outcome_def try_catch_def error_envelope_def
      result_envelope_def Let_def split: sum.splits)

lemma uuid_conforms:
  "uuid_handler rt draws args
     = (spec_envelope rt (fst (uuid_outcome rt draws args)), snd (uuid_outcome rt draws args))"
  by (cases "uuid_uppercase args")
    (auto simp add: uuid_handler_def uuid_outcome_def try_catch_def result_envelope_def Let_def
      split_beta)

lemma timestamp_conforms: "timestamp_handler rt args = spec_envelope rt (timestamp_outcome rt args)"
  by (simp add: timestamp_handler_def timestamp_outcome_def try_catch_def error_envelope_def
      result_envelope_def Let_def split: sum.splits option.splits)

lemma base64_conforms: "base64_handler rt args = spec_envelope rt (base64_outcome rt args)"
  by (cases "base64_urlSafe args"; cases "base64_operation args")
    (auto simp add: base64_handler_def base64_outcome_def try_catch_def error_envelope_def
      result_envelope_def Let_def split: sum.splits)

lemma json_conforms: "json_handler rt args = spec_envelope rt (json_outcome rt args)"
  by (simp add: json_handler_def json_outcome_def try_catch_def error_envelope_def
      result_envelope_def Let_def split: sum.splits)

lemma random_conforms:
  "random_handler rt draws args
     = (spec_envelope rt (fst (random_outcome rt draws args)), snd (random_outcome rt draws args))"
  by (simp add: random_handler_def random_outcome_def try_catch_def result_envelope_def Let_def
      split_beta)

lemma info_conforms: "info_handler rt args = spec_envelope rt (info_outcome rt args)"
  by (cases "info_detail args")
    (auto simp add: info_handler_def info_outcome_def try_catch_def result_envelope_def Let_def)

lemma run_handler_conforms:
  "run_handler rt draws args
     = (spec_envelope rt (fst (tool_outcome rt draws args)), snd (tool_outcome rt draws args))"
  by (cases args)
    (simp_all add: echo_conforms format_conforms analyze_conforms hash_conforms uuid_conforms
      timestamp_conforms base64_conforms json_conforms random_conforms info_conforms)

lemma flagged_only_json:
  "fst (tool_outcome rt draws args) = Flagged response \<longleftrightarrow>
     (\<exists>a message. args = Json_args a \<and> JSON_parse rt (json_data a) = Inl message
        \<and> response = JObj [(js ''valid'', JBool False), (js ''error'', JStr message)])"
proof (cases args)
  case (Echo_args a)
  then show ?thesis
    by (simp add: echo_outcome_def Let_def split: sum.splits)
next
  case (Format_args a)
  then show ?thesis
    by (simp add: format_outcome_def)
next
  case (Analyze_args a)
  then show ?thesis
    by (simp add: analyze_outcome_def)
next
  case (Hash_args a)
  then show ?thesis
    by (simp add: hash_outcome_def Let_def split: sum.splits)
next
  case (Uuid_args a)
  then show ?thesis
    by (simp add: uuid_outcome_def Let_def)
next
  case (Timestamp_args a)
  then show ?thesis
    by (simp add: timestamp_outcome_def Let_def split: sum.splits option.splits)
next
  case (Base64_args a)
  then show ?thesis
    by (simp add: base64_outcome_def Let_def split: sum.splits)
next
  case (Json_args a)
  then show ?thesis
    by (auto simp add: json_outcome_def split: sum.splits)
next
  case (Random_args a)
  then show ?thesis
    by (simp add: random_outcome_def Let_def)
next
  case (Info_args a)
  then show ?thesis
    by (simp add: info_outcome_def)
qed

lemma not_json_call:
  "callTool example_runtime 0 (js ''json'') [(js ''data'', JStr (js ''{not json''))]
     = (json_handler example_runtime
          \<lparr> json_operation = Some Op_validate, json_data = js ''{not json'',
            json_indent = Some 2 \<rparr>, 0)"
  by (simp add: callTool_def registry_def validate_def validate_json_def with_default_def
      required_def then_validate_def z_string_def js_def)

lemma not_json_parse:
  "JSON_parse example_runtime (js ''{not json'')
     = Inl (js ''Expected property name or '}' in JSON at position 1'')"
proof -
  have "js ''{not json'' \<noteq> example_text"
    by (simp add: example_text_def js_def)
  then show ?thesis
    by (simp add: example_runtime_def example_parse_def)
qed

lemma registry_lookup:
  "map_of registry (js ''nope'') = None"
  "map_of registry (js ''uuid'') = Some Uuid"
  "map_of registry (js ''timestamp'') = Some Timestamp"
  "map_of registry (js ''json'') = Some Json"
  "map_of registry (js ''base64'') = Some Base64"
  by (simp_all add: registry_def js_def)

lemma validate_examples:
  "validate Uuid [(js ''count'', JNum (Fin 101 0))] = Inl (OutOfRange (js ''count''))"
  "validate Timestamp [(js ''operation'', JStr (js ''convert''))]
     = Inr (Timestamp_args \<lparr> timestamp_operation = Some Ts_convert, timestamp_value = None,
         timestamp_format = Some Fmt_iso, timestamp_addMs = None \<rparr>)"
  "validate Json [(js ''data'', JStr (js ''{not json''))]
     = Inr (Json_args \<lparr> json_operation = Some Op_validate, json_data = js ''{not json'',
         json_indent = Some 2 \<rparr>)"
  "validate Base64 [(js ''operation'', JStr (js ''encode'')), (js ''data'', JStr (js ''hello''))]
     = Inr (Base64_args \<lparr> base64_operation = B_encode, base64_data = js ''hello'',
         base64_urlSafe = Some False \<rparr>)"
  by (simp_all add: validate_def validate_uuid_def validate_timestamp_def validate_json_def
      validate_base64_def with_default_def required_def optional_def then_validate_def
      z_string_def z_int_def z_enum_def js_def)

lemma outcome_examples:
  "timestamp_outcome example_runtime
     \<lparr> timestamp_operation = Some Ts_convert, timestamp_value = None,
       timestamp_format = Some Fmt_iso, timestamp_addMs = None \<rparr>
     = Thrown (js ''Value required for convert operation'')"
  "json_outcome example_runtime
     \<lparr> json_operation = Some Op_validate, json_data = js ''{not json'', json_indent = Some 2 \<rparr>
     = Flagged (JObj [(js ''valid'', JBool False),
         (js ''error'', JStr (js ''Expected property name or '}' in JSON at position 1''))])"
  "base64_outcome example_runtime
     \<lparr> base64_operation = B_encode, base64_data = js ''hello'', base64_urlSafe = Some False \<rparr>
     = Returned (base64_response B_encode (js ''hello'') False (js ''aGVsbG8=''))"
  by (simp_all add: timestamp_outcome_def timestamp_date_def json_outcome_def not_json_parse
      base64_outcome_def hello_encoded)

lemma gap_2: "replicate 2 x = [x, x]"
  by (simp add: numeral_2_eq_2)


lemma quote_valid: "QuoteJSONString (js ''valid'') = [0x22] @ js ''valid'' @ [0x22]"
  by (simp add: QuoteJSONString_def js_def is_high_surrogate_def is_low_surrogate_def)

lemma invalid_text:
  "stringify rt 2 (JObj [(js ''valid'', JBool False), (js ''error'', JStr message)])
     = Some ([0x7B, 0x0A, 0x20, 0x20, 0x22] @ js ''valid'' @ [0x22] @ js '': false,''
         @ [0x0A, 0x20, 0x20] @ QuoteJSONString (js ''error'') @ js '': ''
         @ QuoteJSONString message @ [0x0A] @ js ''}'')"
  by (simp add: stringify_def JSON_stringify_def gap_2 Let_def quote_valid) (simp add: js_def)

lemma invalid_text_prefix:
  "map_option (take 7) (stringify rt 2 (JObj [(js ''valid'', JBool False), (js ''error'', JStr message)]))
     = Some ([0x7B, 0x0A, 0x20, 0x20, 0x22] @ js ''va'')"
  unfolding invalid_text by (simp add: js_def)

section \<open>Claims\<close>

text \<open>
  C6. For every message of the echo tool, the reported word count is the number of
  non-empty whitespace-delimited tokens of the trimmed message, a message made of
  whitespace only has word count 0, and the reported character count is the raw length of
  the message, whitespace included. The handler reports them: whenever it does not fail
  on a digest, its result is an object whose property \<open>stats\<close> is an object with these
  two numbers as \<open>word_count\<close> and \<open>char_count\<close>; when a digest throws, it returns the
  error envelope.
\<close>

theorem echo_reports_counts:
  "echo_wordCount m = spec_word_count (trim m)
   \<and> ((\<forall>c \<in> set m. is_space c) \<longrightarrow> echo_wordCount m = 0)
   \<and> echo_charCount m = int (length m)
   \<and> (echo_message args = m
        \<and> (echo_includeHash args = Some True \<longrightarrow> (\<exists>h. echo_hashes rt m = Inr h)) \<longrightarrow>
       (\<exists>response stats.
          echo_handler rt args = result_envelope rt (JObj response)
          \<and> map_of response (js ''stats'') = Some (JObj stats)
          \<and> map_of stats (js ''word_count'')
              = Some (JNum (number_of_int (spec_word_count (trim m))))
          \<and> map_of stats (js ''char_count'') = Some (JNum (number_of_int (int (length m))))))
   \<and> (echo_message args = m \<and> echo_includeHash args = Some True
        \<and> echo_hashes rt m = Inl e \<longrightarrow> echo_handler rt args = error_envelope e)"
proof -
  have w: "echo_wordCount m = spec_word_count (trim m)"
    by (simp add: echo_wordCount_def spec_word_count_def split_runs_count)
  have z: "(\<forall>c \<in> set m. is_space c) \<longrightarrow> echo_wordCount m = 0"
    by (simp add: echo_wordCount_def split_runs_count count_tokens_trim count_tokens_all_space)
  have c: "echo_charCount m = int (length m)"
    by (simp add: echo_charCount_def)
  have r: "\<exists>response stats.
          echo_handler rt args = result_envelope rt (JObj response)
          \<and> map_of response (js ''stats'') = Some (JObj stats)
          \<and> map_of stats (js ''word_count'')
              = Some (JNum (number_of_int (spec_word_count (trim m))))
          \<and> map_of stats (js ''char_count'') = Some (JNum (number_of_int (int (length m))))"
    if m: "echo_message args = m"
      and h: "echo_includeHash args = Some True \<longrightarrow> (\<exists>h. echo_hashes rt m = Inr h)"
  proof -
    obtain extra where "echo_handler rt args = result_envelope rt (JObj (delete_undefined
        (echo_response rt m (case echo_transform args of None \<Rightarrow> Tr_none | Some t \<Rightarrow> t)
           @ extra)))"
      using echo_handler_plain [of args rt] echo_handler_hashed [of args rt] m h by metis
    moreover obtain stats where "echo_stats rt m = JObj stats"
      "map_of stats (js ''word_count'') = Some (JNum (number_of_int (echo_wordCount m)))"
      "map_of stats (js ''char_count'') = Some (JNum (number_of_int (echo_charCount m)))"
      using echo_stats_counts by blast
    ultimately show ?thesis
      using echo_stats_reported [of rt m _ extra] w c by metis
  qed
  have t: "echo_message args = m \<and> echo_includeHash args = Some True
        \<and> echo_hashes rt m = Inl e \<longrightarrow> echo_handler rt args = error_envelope e"
    using echo_handler_thrown [of args rt e] by blast
  from w z c r t show ?thesis
    by blast
qed

theorem echo_reports_counts_witness:
  "echo_wordCount (js ''  '') = 0
   \<and> echo_wordCount (js ''  Hello   World  '') = 2
   \<and> spec_word_count (trim (js ''  Hello   World  '')) = 2
   \<and> echo_charCount (js ''  Hello   World  '') = 17
   \<and> (\<exists>response stats.
        echo_handler example_runtime
          \<lparr> echo_message = js ''  Hello   World  '', echo_transform = None,
            echo_includeHash = None \<rparr> = result_envelope example_runtime (JObj response)
        \<and> map_of response (js ''stats'') = Some (JObj stats)
        \<and> map_of stats (js ''word_count'') = Some (JNum (Fin 2 0))
        \<and> map_of stats (js ''char_count'') = Some (JNum (Fin 17 0)))"
proof -
  have h: "\<forall>c \<in> set (js ''  ''). is_space c"
    by (simp add: js_def is_space_def)
  have s: "spec_word_count (trim (js ''  Hello   World  '')) = 2"
    by (simp add: spec_word_count_def trim_def js_def is_space_def)
  have l: "int (length (js ''  Hello   World  '')) = 17"
    by (simp add: js_def)
  have n: "number_of_int 2 = Fin 2 0" "number_of_int 17 = Fin 17 0"
    by (simp_all add: number_of_small)
  note a = echo_reports_counts [of "js ''  ''"
      "\<lparr> echo_message = js ''  '', echo_transform = None, echo_includeHash = None \<rparr>"
      example_runtime]
  note b = echo_reports_counts [of "js ''  Hello   World  ''"
      "\<lparr> echo_message = js ''  Hello   World  '', echo_transform = None,
         echo_includeHash = None \<rparr>" example_runtime]
  have "\<exists>response stats.
        echo_handler example_runtime
          \<lparr> echo_message = js ''  Hello   World  '', echo_transform = None,
            echo_includeHash = None \<rparr> = result_envelope example_runtime (JObj response)
        \<and> map_of response (js ''stats'') = Some (JObj stats)
        \<and> map_of stats (js ''word_count'') = Some (JNum (Fin 2 0))
        \<and> map_of stats (js ''char_count'') = Some (JNum (Fin 17 0))"
    using b unfolding s l n by simp
  moreover have "echo_wordCount (js ''  '') = 0"
    using a h by blast
  moreover have "echo_wordCount (js ''  Hello   World  '') = 2"
    using b s by simp
  moreover have "echo_charCount (js ''  Hello   World  '') = 17"
    using b l by simp
  ultimately show ?thesis
    using s by blast
qed

text \<open>
  C8. For every text, the composition counts of the analyze tool add up to the length of
  the text, letters + digits + spaces + punctuation + other = length, and none of the five
  counts is negative. The handler reports them: its result is an object whose property
  \<open>composition\<close> is the object of these five numbers.
\<close>

theorem analyze_reports_composition:
  "letters (analyze_composition t) + digits (analyze_composition t)
     + spaces (analyze_composition t) + punctuation (analyze_composition t)
     + other (analyze_composition t) = int (length t)
   \<and> 0 \<le> letters (analyze_composition t) \<and> 0 \<le> digits (analyze_composition t)
   \<and> 0 \<le> spaces (analyze_composition t) \<and> 0 \<le> punctuation (analyze_composition t)
   \<and> 0 \<le> other (analyze_composition t)
   \<and> (\<exists>response.
        analyze_handler rt \<lparr> analyze_text = t, analyze_includeCharFrequency = f \<rparr>
          = result_envelope rt (JObj response)
        \<and> map_of response (js ''composition'')
            = Some (JObj [(js ''letters'', JNum (number_of_int (letters (analyze_composition t)))),
                          (js ''digits'', JNum (number_of_int (digits (analyze_composition t)))),
                          (js ''spaces'', JNum (number_of_int (spaces (analyze_composition t)))),
                          (js ''punctuation'',
                             JNum (number_of_int (punctuation (analyze_composition t)))),
                          (js ''other'', JNum (number_of_int (other (analyze_composition t))))]))"
proof -
  have "other (analyze_composition t) = int (length (filter (\<lambda>c. c = 0x5F) t))"
    using composition_count [of t]
    by (simp add: analyze_composition_def analyze_letters_def analyze_digits_def
        analyze_spaces_def analyze_punctuation_def length_match_g)
  then have "0 \<le> other (analyze_composition t)"
    by simp
  then have sum: "letters (analyze_composition t) + digits (analyze_composition t)
     + spaces (analyze_composition t) + punctuation (analyze_composition t)
     + other (analyze_composition t) = int (length t)
   \<and> 0 \<le> letters (analyze_composition t) \<and> 0 \<le> digits (analyze_composition t)
   \<and> 0 \<le> spaces (analyze_composition t) \<and> 0 \<le> punctuation (analyze_composition t)
   \<and> 0 \<le> other (analyze_composition t)"
    by (simp add: analyze_composition_def analyze_letters_def analyze_digits_def
        analyze_spaces_def analyze_punctuation_def)
  define extra where "extra = (if (case f of None \<Rightarrow> False | Some b \<Rightarrow> b)
     then [(js ''character_frequency'', analyze_frequency rt t)] else [])"
  have "analyze_handler rt \<lparr> analyze_text = t, analyze_includeCharFrequency = f \<rparr>
      = result_envelope rt (JObj (analyze_response rt t @ extra))"
    by (simp add: analyze_handler_def try_catch_def Let_def extra_def)
  moreover have "map_of (analyze_response rt t @ extra) (js ''composition'')
      = Some (JObj [(js ''letters'', JNum (number_of_int (letters (analyze_composition t)))),
                    (js ''digits'', JNum (number_of_int (digits (analyze_composition t)))),
                    (js ''spaces'', JNum (number_of_int (spaces (analyze_composition t)))),
                    (js ''punctuation'',
                       JNum (number_of_int (punctuation (analyze_composition t)))),
                    (js ''other'', JNum (number_of_int (other (analyze_composition t))))])"
    by (simp add: analyze_response_def Let_def js_def)
  ultimately show ?thesis
    using sum by blast
qed

text \<open>
  C2. The slugify operation of the format tool lowercases the text, removes what is neither
  a word character, whitespace nor a hyphen, turns every run of whitespace into one hyphen
  and every run of hyphens into one hyphen. Its last step, \<open>trim()\<close>, finds no whitespace
  left and removes nothing: the hyphens that stand for leading and trailing whitespace
  stay, so \<open>" hello world "\<close> becomes \<open>"-hello-world-"\<close>, while \<open>"hello world"\<close> becomes
  \<open>"hello-world"\<close>.
\<close>

theorem slugify_trim_is_noop:
  "format_slugify rt text =
     replace_runs (\<lambda>c. c = 0x2D) (js ''-'')
       (replace_runs is_space (js ''-'')
         (remove_class (\<lambda>c. \<not> (is_word c \<or> is_space c \<or> c = 0x2D)) (toLowerCase rt text)))
   \<and> format_slugify rt (js '' hello world '') = js ''-hello-world-''
   \<and> format_slugify rt (js ''hello world'') = js ''hello-world''"
proof -
  have "format_slugify rt (js '' hello world '') = js ''-hello-world-''"
    by (simp add: format_slugify_def js_def toLowerCase_def ascii_lower_def remove_class_def
        is_word_def is_space_def is_letter_def is_digit_def trim_def replace_runs.simps)
  moreover have "format_slugify rt (js ''hello world'') = js ''hello-world''"
    by (simp add: format_slugify_def js_def toLowerCase_def ascii_lower_def remove_class_def
        is_word_def is_space_def is_letter_def is_digit_def trim_def replace_runs.simps)
  moreover have "format_slugify rt text =
     replace_runs (\<lambda>c. c = 0x2D) (js ''-'')
       (replace_runs is_space (js ''-'')
         (remove_class (\<lambda>c. \<not> (is_word c \<or> is_space c \<or> c = 0x2D)) (toLowerCase rt text)))"
    unfolding format_slugify_def by (rule trim_no_space [OF slug_no_space])
  ultimately show ?thesis
    by blast
qed

text \<open>
  C9. In the first server, a call that names a tool other than \<open>echo\<close> makes the request
  handler throw an \<open>Error\<close> with the message \<open>Unknown tool: <name>\<close>, whatever the
  arguments are and before anything of the echo tool is computed. The failure is a thrown
  error, which leaves the handler: no result with \<open>isError\<close> is returned.
\<close>

theorem v1_unknown_tool_throws:
  "req_name request \<noteq> js ''echo'' \<Longrightarrow>
   v1_callTool rt request = Inl (js ''Unknown tool: '' @ req_name request)"
  by (simp add: v1_callTool_def)

theorem v1_unknown_tool_throws_witness:
  "v1_callTool example_runtime \<lparr> req_name = js ''unknown_tool'', req_arguments = Some [] \<rparr>
     = Inl (js ''Unknown tool: unknown_tool'')"
proof -
  have "req_name \<lparr> req_name = js ''unknown_tool'', req_arguments = Some [] \<rparr> \<noteq> js ''echo''"
    by (simp add: js_def)
  from v1_unknown_tool_throws [OF this, of example_runtime] show ?thesis
    by (simp add: js_def)
qed

theorem v1_unknown_tool_no_envelope:
  "\<not> (\<exists>e. v1_callTool example_runtime \<lparr> req_name = js ''unknown_tool'', req_arguments = Some [] \<rparr>
           = Inr e \<and> isError e = Some True)"
  by (simp add: v1_callTool_def js_def)

text \<open>
  C10. For a top-level JSON array, \<open>get_keys\<close> of the json tool returns exactly the keys
  of the specification: every index in order, each followed by the dotted paths of the
  element when it is a plain object, with plain objects below it followed in turn. The list
  is not empty when the array is not empty. An array that is the value of an object's
  property gives the key of the property and nothing below it, and an array that is an
  element of the top-level array gives its index and nothing below it. When the data
  parses to the array, the handler returns these keys in a successful result.
\<close>

theorem json_array_keys:
  "json_get_keys (JArr xs) = spec_array_keys xs
   \<and> (xs \<noteq> [] \<longrightarrow> json_get_keys (JArr xs) \<noteq> [])
   \<and> (\<forall>i < length xs. nat_to_dec i \<in> set (json_get_keys (JArr xs)))
   \<and> (\<forall>i < length xs. \<forall>kvs k v. xs ! i = JObj kvs \<and> (k, v) \<in> set kvs \<longrightarrow>
         nat_to_dec i @ js ''.'' @ k \<in> set (json_get_keys (JArr xs)))
   \<and> json_get_keys (JObj ((k, JArr ys) # rest)) = k # json_get_keys (JObj rest)
   \<and> (JSON_parse rt data = Inr (JArr xs) \<longrightarrow>
        json_handler rt \<lparr> json_operation = Some Op_get_keys, json_data = data, json_indent = ind \<rparr>
          = result_envelope rt (JObj [(js ''valid'', JBool True),
              (js ''keys'', JArr (map JStr (spec_array_keys xs)))]))"
proof -
  have g: "json_get_keys (JArr xs) = keys_of_elements xs 0 []"
    by (simp add: json_get_keys_def)
  have s: "json_get_keys (JArr xs) = spec_array_keys xs"
    by (rule json_get_keys_spec)
  have a: "xs \<noteq> [] \<longrightarrow> json_get_keys (JArr xs) \<noteq> []"
    unfolding g by (cases xs) (simp_all add: Let_def)
  have b: "\<forall>i < length xs. nat_to_dec i \<in> set (json_get_keys (JArr xs))"
    unfolding g using keys_of_elements_index [of _ xs 0] by simp
  have c: "\<forall>i < length xs. \<forall>kvs k v. xs ! i = JObj kvs \<and> (k, v) \<in> set kvs \<longrightarrow>
         nat_to_dec i @ js ''.'' @ k \<in> set (json_get_keys (JArr xs))"
    unfolding g using keys_of_elements_nested [of _ xs _ _ _ 0] by auto
  have d: "json_get_keys (JObj ((k, JArr ys) # rest)) = k # json_get_keys (JObj rest)"
    by (simp add: json_get_keys_def)
  have e: "JSON_parse rt data = Inr (JArr xs) \<longrightarrow>
        json_handler rt \<lparr> json_operation = Some Op_get_keys, json_data = data, json_indent = ind \<rparr>
          = result_envelope rt (JObj [(js ''valid'', JBool True),
              (js ''keys'', JArr (map JStr (spec_array_keys xs)))])"
    unfolding s [symmetric] by (simp add: json_handler_def json_result_def try_catch_def)
  from s a b c d e show ?thesis
    by blast
qed

theorem json_array_keys_witness:
  "json_get_keys (JArr example_elements) = [js ''0'', js ''1'', js ''1.a'']
   \<and> json_get_keys (JArr [JArr [JNum (Fin 1 0), JNum (Fin 2 0)]]) = [js ''0'']
   \<and> json_get_keys (JArr [JObj [(js ''a'', JObj [(js ''b'', JNum (Fin 1 0))])]])
       = [js ''0'', js ''0.a'', js ''0.a.b'']
   \<and> json_handler example_runtime
        \<lparr> json_operation = Some Op_get_keys, json_data = example_text, json_indent = None \<rparr>
       = result_envelope example_runtime (JObj [(js ''valid'', JBool True),
           (js ''keys'', JArr [JStr (js ''0''), JStr (js ''1''), JStr (js ''1.a'')])])"
proof -
  have parse: "JSON_parse example_runtime example_text = Inr (JArr example_elements)"
    by (simp add: example_runtime_def example_parse_def)
  note t = json_array_keys [of example_elements "js ''a''" "[]" "[]" example_runtime
      example_text None]
  have "json_get_keys (JArr example_elements) = [js ''0'', js ''1'', js ''1.a'']"
    using t by (simp only: spec_keys_example)
  moreover have "json_get_keys (JArr [JArr [JNum (Fin 1 0), JNum (Fin 2 0)]]) = [js ''0'']"
    using json_array_keys [of "[JArr [JNum (Fin 1 0), JNum (Fin 2 0)]]"]
    by (simp only: spec_keys_example)
  moreover have "json_get_keys (JArr [JObj [(js ''a'', JObj [(js ''b'', JNum (Fin 1 0))])]])
       = [js ''0'', js ''0.a'', js ''0.a.b'']"
    using json_array_keys [of "[JObj [(js ''a'', JObj [(js ''b'', JNum (Fin 1 0))])]]"]
    by (simp only: spec_keys_example)
  moreover have "json_handler example_runtime
        \<lparr> json_operation = Some Op_get_keys, json_data = example_text, json_indent = None \<rparr>
       = result_envelope example_runtime (JObj [(js ''valid'', JBool True),
           (js ''keys'', JArr (map JStr (spec_array_keys example_elements)))])"
    using t parse by blast
  ultimately show ?thesis
    by (simp add: spec_keys_example)
qed





text \<open>
  Claim C5. For every count \<open>c\<close> with \<open>1 \<le> c \<le> 100\<close>, every requested version and every
  value of the upper-case option, the uuid handler returns a success envelope whose result
  lists exactly \<open>c\<close> identifiers, each a syntactically valid version 4 UUID, and takes
  \<open>c\<close> draws from the random source; a call with that count passes validation and
  reaches the handler, while a call with count 101 is answered by the validation error
  without any draw, so the handler did not run.
\<close>

theorem uuid_count_valid:
  assumes "1 \<le> c" and "c \<le> 100"
  shows "(\<exists>uuids.
            uuid_handler rt draws
              \<lparr> uuid_version = version, uuid_count = Some c, uuid_uppercase = uppercase \<rparr>
              = (result_envelope rt
                   (JObj [(js ''version'',
                             JStr (uuid_version_name (case version of None \<Rightarrow> V4 | Some v \<Rightarrow> v))),
                          (js ''count'', JNum (number_of_nat (length uuids))),
                          (js ''uuids'', JArr (map JStr uuids))]),
                 draws + nat c)
            \<and> int (length uuids) = c \<and> (\<forall>u \<in> set uuids. valid_uuid_v4 u))
       \<and> callTool rt draws (js ''uuid'') [(js ''count'', JNum (Fin c 0))]
           = uuid_handler rt draws
               \<lparr> uuid_version = Some V4, uuid_count = Some c, uuid_uppercase = Some False \<rparr>
       \<and> callTool rt draws (js ''uuid'') [(js ''count'', JNum (Fin 101 0))]
           = (error_envelope (validation_message rt (OutOfRange (js ''count''))), draws)"
proof -
  define up where "up = (case uppercase of None \<Rightarrow> False | Some u \<Rightarrow> u)"
  define uuids where "uuids = fst (uuid_loop rt up c 0 [] draws)"
  have loop: "length uuids = nat c" "snd (uuid_loop rt up c 0 [] draws) = draws + nat c"
    "\<forall>u \<in> set uuids. valid_uuid_v4 u"
    using uuid_loop_result [of "[]" rt up c 0 draws] by (simp_all add: uuids_def)
  have "uuid_handler rt draws
      \<lparr> uuid_version = version, uuid_count = Some c, uuid_uppercase = uppercase \<rparr>
      = (result_envelope rt
           (JObj [(js ''version'',
                     JStr (uuid_version_name (case version of None \<Rightarrow> V4 | Some v \<Rightarrow> v))),
                  (js ''count'', JNum (number_of_nat (length uuids))),
                  (js ''uuids'', JArr (map JStr uuids))]),
         draws + nat c)"
    unfolding uuid_handler_eq up_def [symmetric] uuids_def [symmetric] loop(2) by (rule refl)
  moreover have "int (length uuids) = c"
    using loop(1) assms by simp
  ultimately have first: "\<exists>uuids.
            uuid_handler rt draws
              \<lparr> uuid_version = version, uuid_count = Some c, uuid_uppercase = uppercase \<rparr>
              = (result_envelope rt
                   (JObj [(js ''version'',
                             JStr (uuid_version_name (case version of None \<Rightarrow> V4 | Some v \<Rightarrow> v))),
                          (js ''count'', JNum (number_of_nat (length uuids))),
                          (js ''uuids'', JArr (map JStr uuids))]),
                 draws + nat c)
            \<and> int (length uuids) = c \<and> (\<forall>u \<in> set uuids. valid_uuid_v4 u)"
    using loop(3) by blast
  have second: "callTool rt draws (js ''uuid'') [(js ''count'', JNum (Fin c 0))]
           = uuid_handler rt draws
               \<lparr> uuid_version = Some V4, uuid_count = Some c, uuid_uppercase = Some False \<rparr>"
    using assms by (simp add: callTool_def uuid_lookup validate_uuid_count validate_def then_validate_def)
  have third: "callTool rt draws (js ''uuid'') [(js ''count'', JNum (Fin 101 0))]
           = (error_envelope (validation_message rt (OutOfRange (js ''count''))), draws)"
    by (simp add: callTool_def uuid_lookup validate_uuid_count validate_def then_validate_def)
  from first second third show ?thesis
    by (intro conjI)
qed

theorem uuid_count_valid_witness:
  "snd (uuid_handler example_runtime 0
          \<lparr> uuid_version = Some V7, uuid_count = Some 3, uuid_uppercase = Some True \<rparr>) = 3
   \<and> isError (fst (uuid_handler example_runtime 0
          \<lparr> uuid_version = Some V7, uuid_count = Some 3, uuid_uppercase = Some True \<rparr>)) = None
   \<and> callTool example_runtime 0 (js ''uuid'') [(js ''count'', JNum (Fin 101 0))]
       = (error_envelope (js ''Invalid arguments''), 0)"
proof -
  have "(1::int) \<le> 3" "(3::int) \<le> 100"
    by simp_all
  note t = uuid_count_valid [OF this, of example_runtime 0 "Some V7" "Some True"]
  from t obtain uuids where
    "uuid_handler example_runtime 0
       \<lparr> uuid_version = Some V7, uuid_count = Some 3, uuid_uppercase = Some True \<rparr>
     = (result_envelope example_runtime
          (JObj [(js ''version'', JStr (uuid_version_name (case Some V7 of None \<Rightarrow> V4 | Some v \<Rightarrow> v))),
                 (js ''count'', JNum (number_of_nat (length uuids))),
                 (js ''uuids'', JArr (map JStr uuids))]),
        0 + nat 3)"
    by blast
  moreover have "callTool example_runtime 0 (js ''uuid'') [(js ''count'', JNum (Fin 101 0))]
       = (error_envelope (validation_message example_runtime (OutOfRange (js ''count''))), 0)"
    using t by blast
  ultimately show ?thesis
    by (simp add: result_envelope_def example_runtime_def)
qed


text \<open>
  Claim C3. The decode branch of the base64 tool never reports \<open>Invalid Base64 input\<close>:
  \<open>Buffer.from\<close> does not throw on a string, it skips every code unit outside the two
  alphabets and stops at the first padding sign, so the \<open>catch\<close> around it is never
  entered. For every data and either alphabet the handler returns a success envelope; for
  the data \<open>!!!!\<close>, which has no Base64 digit at all, the result is the empty string.
\<close>

theorem base64_decode_never_rejects:
  "base64_decoded urlSafe data = Inr (utf8_decode (decode_sextets (base64_sextets data)))
   \<and> isError (base64_handler rt
        \<lparr> base64_operation = B_decode, base64_data = data, base64_urlSafe = u \<rparr>) = None
   \<and> base64_handler rt
        \<lparr> base64_operation = B_decode, base64_data = js ''!!!!'', base64_urlSafe = Some False \<rparr>
       = result_envelope rt (base64_response B_decode (js ''!!!!'') False [])
   \<and> base64_handler rt
        \<lparr> base64_operation = B_decode, base64_data = js ''!!!!'', base64_urlSafe = Some True \<rparr>
       = result_envelope rt (base64_response B_decode (js ''!!!!'') True [])"
  by (simp add: base64_decoded_total base64_decode_handler result_envelope_def sextets_of_marks)

text \<open>
  Claim C4. For every string \<open>x\<close> without unpaired surrogates, and for the standard and the
  URL-safe alphabet alike, decoding the Base64 encoding of \<open>x\<close> gives \<open>x\<close> again: the encode
  handler returns the encoding as its result, and the decode handler applied to that
  encoding returns \<open>x\<close>. A string with an unpaired surrogate does not come back: the
  encoder writes U+FFFD for the surrogate, so the single code unit D800 comes
  back as FFFD.
\<close>

theorem base64_roundtrip:
  assumes "isWellFormed x"
  shows "base64_decoded urlSafe (base64_encoded urlSafe x) = Inr x
    \<and> base64_handler rt \<lparr> base64_operation = B_encode, base64_data = x,
          base64_urlSafe = Some urlSafe \<rparr>
        = result_envelope rt (base64_response B_encode x urlSafe (base64_encoded urlSafe x))
    \<and> base64_handler rt \<lparr> base64_operation = B_decode,
          base64_data = base64_encoded urlSafe x, base64_urlSafe = Some urlSafe \<rparr>
        = result_envelope rt (base64_response B_decode (base64_encoded urlSafe x) urlSafe x)"
  using assms
  by (simp add: base64_encode_handler base64_decode_handler base64_decoded_total
      base64_encoded_def base64_decode_encode utf8_decode_encode)

theorem base64_roundtrip_witness:
  "base64_encoded False (js ''hello'') = js ''aGVsbG8=''
   \<and> base64_decoded False (js ''aGVsbG8='') = Inr (js ''hello'')
   \<and> base64_encoded True (js ''hello'') = js ''aGVsbG8''
   \<and> base64_decoded True (js ''aGVsbG8'') = Inr (js ''hello'')"
proof -
  have wf: "isWellFormed (js ''hello'')"
    by (simp add: js_def is_high_surrogate_def is_low_surrogate_def)
  from base64_roundtrip [OF wf, of False] base64_roundtrip [OF wf, of True] show ?thesis
    by (simp add: hello_encoded)
qed

theorem base64_lone_surrogate:
  "isWellFormed [0xD800] = False
   \<and> base64_encoded False [0xD800] = js ''77+9''
   \<and> base64_decoded False (base64_encoded False [0xD800]) = Inr [0xFFFD]
   \<and> base64_encoded True [0xD800] = js ''77-9''
   \<and> base64_decoded True (base64_encoded True [0xD800]) = Inr [0xFFFD]
   \<and> [0xFFFD] \<noteq> [0xD800 :: jschar]"
  by (simp add: base64_encoded_def js_def is_high_surrogate_def is_low_surrogate_def
      replacement_bytes_def base64_char_def base64_decoded_total base64_sextets_def
      low_byte_def unbase64_def List.map_filter_simps is_continuation_def second_byte_ok_def
      code_point_units_def)

text \<open>
  Claim C1. The envelope of every call is determined by how the call ends. An unknown tool
  name, arguments that fail validation, and an error thrown by the handler give
  \<open>isError\<close> true and the text \<open>Error: <message>\<close>, with the message \<open>Unknown tool: <name>\<close>,
  the validation message, or the thrown message. A handler that returns its result gives
  no \<open>isError\<close> and the pretty-printed JSON (indentation 2) of the result as the text.
  The json tool, for data that does not parse, gives \<open>isError\<close> true and the pretty-printed
  JSON of \<open>{ valid: false, error: <parser message> }\<close> as the text, not a line starting
  with \<open>Error:\<close>; no other call ends that way.
\<close>

theorem call_envelope_forms:
  "callTool rt draws name raw =
     (case map_of registry name of
        None \<Rightarrow>
          (\<lparr> content_text = Some (js ''Error: Unknown tool: '' @ name), isError = Some True \<rparr>,
           draws)
      | Some t \<Rightarrow>
          (case validate t raw of
             Inl err \<Rightarrow>
               (\<lparr> content_text = Some (js ''Error: '' @ validation_message rt err),
                  isError = Some True \<rparr>, draws)
           | Inr args \<Rightarrow>
               (case tool_outcome rt draws args of
                  (Thrown message, draws') \<Rightarrow>
                    (\<lparr> content_text = Some (js ''Error: '' @ message), isError = Some True \<rparr>,
                     draws')
                | (Returned response, draws') \<Rightarrow>
                    (\<lparr> content_text = stringify rt 2 response, isError = None \<rparr>, draws')
                | (Flagged response, draws') \<Rightarrow>
                    (\<lparr> content_text = stringify rt 2 response, isError = Some True \<rparr>,
                     draws'))))
   \<and> (fst (tool_outcome rt draws args) = Flagged response \<longleftrightarrow>
        (\<exists>a message. args = Json_args a \<and> JSON_parse rt (json_data a) = Inl message
           \<and> response = JObj [(js ''valid'', JBool False), (js ''error'', JStr message)]))"
proof -
  have run: "run_handler rt draws a =
      (case tool_outcome rt draws a of
         (Thrown message, draws') \<Rightarrow>
           (\<lparr> content_text = Some (js ''Error: '' @ message), isError = Some True \<rparr>, draws')
       | (Returned response, draws') \<Rightarrow>
           (\<lparr> content_text = stringify rt 2 response, isError = None \<rparr>, draws')
       | (Flagged response, draws') \<Rightarrow>
           (\<lparr> content_text = stringify rt 2 response, isError = Some True \<rparr>, draws'))" for a
    unfolding run_handler_conforms [of rt draws a]
    by (cases "tool_outcome rt draws a"; cases "fst (tool_outcome rt draws a)") simp_all
  have "callTool rt draws name raw =
     (case map_of registry name of
        None \<Rightarrow>
          (\<lparr> content_text = Some (js ''Error: Unknown tool: '' @ name), isError = Some True \<rparr>,
           draws)
      | Some t \<Rightarrow>
          (case validate t raw of
             Inl err \<Rightarrow>
               (\<lparr> content_text = Some (js ''Error: '' @ validation_message rt err),
                  isError = Some True \<rparr>, draws)
           | Inr args \<Rightarrow> run_handler rt draws args))"
    by (simp add: callTool_def error_envelope_def js_def split: option.splits sum.splits)
  then show ?thesis
    unfolding run using flagged_only_json [of rt draws args response] by simp
qed

theorem call_envelope_forms_witness:
  "callTool example_runtime 0 (js ''nope'') []
     = (\<lparr> content_text = Some (js ''Error: Unknown tool: nope''), isError = Some True \<rparr>, 0)
   \<and> callTool example_runtime 0 (js ''uuid'') [(js ''count'', JNum (Fin 101 0))]
     = (\<lparr> content_text = Some (js ''Error: Invalid arguments''), isError = Some True \<rparr>, 0)
   \<and> callTool example_runtime 0 (js ''timestamp'') [(js ''operation'', JStr (js ''convert''))]
     = (\<lparr> content_text = Some (js ''Error: Value required for convert operation''),
          isError = Some True \<rparr>, 0)
   \<and> callTool example_runtime 0 (js ''json'') [(js ''data'', JStr (js ''{not json''))]
     = (\<lparr> content_text = stringify example_runtime 2
            (JObj [(js ''valid'', JBool False),
                   (js ''error'',
                      JStr (js ''Expected property name or '}' in JSON at position 1''))]),
          isError = Some True \<rparr>, 0)
   \<and> callTool example_runtime 0 (js ''base64'')
        [(js ''operation'', JStr (js ''encode'')), (js ''data'', JStr (js ''hello''))]
     = (\<lparr> content_text = stringify example_runtime 2
            (base64_response B_encode (js ''hello'') False (js ''aGVsbG8='')),
          isError = None \<rparr>, 0)"
proof -
  have m: "validation_message example_runtime (OutOfRange (js ''count'')) = js ''Invalid arguments''"
    by (simp add: example_runtime_def)
  have j: "js ''Error: Unknown tool: '' @ js ''nope'' = js ''Error: Unknown tool: nope''"
    "js ''Error: '' @ js ''Invalid arguments'' = js ''Error: Invalid arguments''"
    "js ''Error: '' @ js ''Value required for convert operation''
       = js ''Error: Value required for convert operation''"
    by (simp_all add: js_def)
  have "callTool example_runtime 0 (js ''nope'') []
     = (\<lparr> content_text = Some (js ''Error: Unknown tool: nope''), isError = Some True \<rparr>, 0)"
    using call_envelope_forms [of example_runtime 0 "js ''nope''" "[]", THEN conjunct1]
    by (simp add: registry_lookup j)
  moreover have "callTool example_runtime 0 (js ''uuid'') [(js ''count'', JNum (Fin 101 0))]
     = (\<lparr> content_text = Some (js ''Error: Invalid arguments''), isError = Some True \<rparr>, 0)"
    using call_envelope_forms [of example_runtime 0 "js ''uuid''"
        "[(js ''count'', JNum (Fin 101 0))]", THEN conjunct1]
    by (simp add: registry_lookup validate_examples m j)
  moreover have "callTool example_runtime 0 (js ''timestamp'')
        [(js ''operation'', JStr (js ''convert''))]
     = (\<lparr> content_text = Some (js ''Error: Value required for convert operation''),
          isError = Some True \<rparr>, 0)"
    using call_envelope_forms [of example_runtime 0 "js ''timestamp''"
        "[(js ''operation'', JStr (js ''convert''))]", THEN conjunct1]
    by (simp add: registry_lookup validate_examples outcome_examples j)
  moreover have "callTool example_runtime 0 (js ''json'') [(js ''data'', JStr (js ''{not json''))]
     = (\<lparr> content_text = stringify example_runtime 2
            (JObj [(js ''valid'', JBool False),
                   (js ''error'',
                      JStr (js ''Expected property name or '}' in JSON at position 1''))]),
          isError = Some True \<rparr>, 0)"
    using call_envelope_forms [of example_runtime 0 "js ''json''"
        "[(js ''data'', JStr (js ''{not json''))]", THEN conjunct1]
    by (simp add: registry_lookup validate_examples outcome_examples)
  moreover have "callTool example_runtime 0 (js ''base64'')
        [(js ''operation'', JStr (js ''encode'')), (js ''data'', JStr (js ''hello''))]
     = (\<lparr> content_text = stringify example_runtime 2
            (base64_response B_encode (js ''hello'') False (js ''aGVsbG8='')),
          isError = None \<rparr>, 0)"
    using call_envelope_forms [of example_runtime 0 "js ''base64''"
        "[(js ''operation'', JStr (js ''encode'')), (js ''data'', JStr (js ''hello''))]",
        THEN conjunct1]
    by (simp add: registry_lookup validate_examples outcome_examples)
  ultimately show ?thesis
    by (intro conjI)
qed

theorem json_invalid_envelope:
  "fst (callTool example_runtime 0 (js ''json'') [(js ''data'', JStr (js ''{not json''))])
     = \<lparr> content_text = stringify example_runtime 2
           (JObj [(js ''valid'', JBool False),
                  (js ''error'', JStr (js ''Expected property name or '}' in JSON at position 1''))]),
         isError = Some True \<rparr>
   \<and> map_option (take 7) (stringify example_runtime 2
           (JObj [(js ''valid'', JBool False),
                  (js ''error'', JStr (js ''Expected property name or '}' in JSON at position 1''))]))
       = Some ([0x7B, 0x0A, 0x20, 0x20, 0x22] @ js ''va'')
   \<and> [0x7B, 0x0A, 0x20, 0x20, 0x22] @ js ''va'' \<noteq> js ''Error: ''"
proof -
  have "json_handler example_runtime
          \<lparr> json_operation = Some Op_validate, json_data = js ''{not json'',
            json_indent = Some 2 \<rparr>
      = \<lparr> content_text = stringify example_runtime 2
           (JObj [(js ''valid'', JBool False),
                  (js ''error'', JStr (js ''Expected property name or '}' in JSON at position 1''))]),
         isError = Some True \<rparr>"
    by (simp add: json_handler_def try_catch_def not_json_parse)
  moreover have "[0x7B, 0x0A, 0x20, 0x20, 0x22] @ js ''va'' \<noteq> js ''Error: ''"
    by (simp add: js_def)
  ultimately show ?thesis
    by (simp only: not_json_call fst_conv invalid_text_prefix) simp
qed

end
